theory Spec2Isabelle
  imports Complex_Main "HOL-Library.AList" "HOL-Library.Char_ord" "HOL-Library.List_Lexorder"
begin

section \<open>JavaScript numbers\<close>

text \<open>
  The valuation engine computes on JavaScript numbers, the doubles of IEEE 754. They are
  modelled as the reals extended by the three special values: a finite number of the
  code is the real it denotes. The special values follow the IEEE rules that the code
  relies on: \<open>NaN\<close> is absorbing and compares false with everything, a non-zero finite
  value divided by zero is infinite, \<open>0/0\<close> and \<open>Infinity - Infinity\<close> are \<open>NaN\<close>. There is
  one zero, without a sign.

  The operators \<open>+\<close>, \<open>-\<close>, \<open>*\<close> and \<open>/\<close> of this type give the exact result on finite
  values. The operations \<open>fadd\<close>, \<open>fsub\<close>, \<open>fmul\<close> and \<open>fdiv\<close> of the section on rounding
  round that result to the nearest double, as the machine does.
\<close>

datatype number = Fin real | PInf | NInf | NaN

fun num_neg :: "number \<Rightarrow> number" where
  "num_neg (Fin a) = Fin (- a)"
| "num_neg PInf = NInf"
| "num_neg NInf = PInf"
| "num_neg NaN = NaN"

fun num_add :: "number \<Rightarrow> number \<Rightarrow> number" where
  "num_add NaN _ = NaN"
| "num_add _ NaN = NaN"
| "num_add (Fin a) (Fin b) = Fin (a + b)"
| "num_add PInf NInf = NaN"
| "num_add NInf PInf = NaN"
| "num_add PInf _ = PInf"
| "num_add _ PInf = PInf"
| "num_add NInf _ = NInf"
| "num_add _ NInf = NInf"

text \<open>The sign of a number: \<open>None\<close> for \<open>NaN\<close>, otherwise -1, 0 or 1.\<close>

fun num_sign :: "number \<Rightarrow> int option" where
  "num_sign NaN = None"
| "num_sign PInf = Some 1"
| "num_sign NInf = Some (- 1)"
| "num_sign (Fin a) = Some (if a < 0 then - 1 else if a = 0 then 0 else 1)"

definition inf_of_sign :: "int \<Rightarrow> number" where
  "inf_of_sign s = (if s = 0 then NaN else if 0 < s then PInf else NInf)"

fun num_mul :: "number \<Rightarrow> number \<Rightarrow> number" where
  "num_mul (Fin a) (Fin b) = Fin (a * b)"
| "num_mul x y =
     (case (num_sign x, num_sign y) of
        (Some s, Some t) \<Rightarrow> inf_of_sign (s * t)
      | _ \<Rightarrow> NaN)"

fun num_div :: "number \<Rightarrow> number \<Rightarrow> number" where
  "num_div NaN _ = NaN"
| "num_div _ NaN = NaN"
| "num_div (Fin a) (Fin b) =
     (if b \<noteq> 0 then Fin (a / b)
      else if a = 0 then NaN else if 0 < a then PInf else NInf)"
| "num_div (Fin a) _ = Fin 0"
| "num_div x (Fin b) =
     (if b < 0 then num_neg x else x)"
| "num_div _ _ = NaN"

fun num_less :: "number \<Rightarrow> number \<Rightarrow> bool" where
  "num_less NaN _ = False"
| "num_less _ NaN = False"
| "num_less (Fin a) (Fin b) = (a < b)"
| "num_less _ NInf = False"
| "num_less PInf _ = False"
| "num_less _ _ = True"

fun num_le :: "number \<Rightarrow> number \<Rightarrow> bool" where
  "num_le NaN _ = False"
| "num_le _ NaN = False"
| "num_le (Fin a) (Fin b) = (a \<le> b)"
| "num_le NInf _ = True"
| "num_le _ PInf = True"
| "num_le _ _ = False"

instantiation number :: "{zero, one, plus, uminus, minus, times, inverse, ord}"
begin

definition zero_number_def: "0 = Fin 0"
definition one_number_def: "1 = Fin 1"
definition plus_number_def: "x + y = num_add x y"
definition uminus_number_def: "- x = num_neg x"
definition minus_number_def: "x - y = num_add x (num_neg y)"
definition times_number_def: "x * y = num_mul x y"
definition divide_number_def: "x div y = num_div x y"
definition inverse_number_def: "inverse x = num_div (Fin 1) x"
definition less_number_def: "x < y = num_less x y"
definition less_eq_number_def: "x \<le> y = num_le x y"

instance ..

end

instance number :: power ..

text \<open>
  A number in a condition (\<open>x ? a : b\<close>, \<open>!x\<close>, \<open>x || y\<close>) is false when it is zero
  or \<open>NaN\<close>.
\<close>

fun truthy :: "number \<Rightarrow> bool" where
  "truthy NaN = False"
| "truthy (Fin a) = (a \<noteq> 0)"
| "truthy _ = True"

fun isFinite :: "number \<Rightarrow> bool" where
  "isFinite (Fin a) = True"
| "isFinite _ = False"

text \<open>\<open>Math.max\<close> and \<open>Math.min\<close>: \<open>NaN\<close> when an argument is \<open>NaN\<close>.\<close>

definition Math_max :: "number \<Rightarrow> number \<Rightarrow> number" where
  "Math_max x y = (if x = NaN \<or> y = NaN then NaN else if x < y then y else x)"

definition Math_min :: "number \<Rightarrow> number \<Rightarrow> number" where
  "Math_min x y = (if x = NaN \<or> y = NaN then NaN else if y < x then y else x)"

text \<open>
  Reading an array at an index: \<open>undefined\<close> outside the array, which every arithmetic
  operation turns into \<open>NaN\<close>.
\<close>

definition at_num :: "number list \<Rightarrow> int \<Rightarrow> number" where
  "at_num xs i = (if 0 \<le> i \<and> i < int (length xs) then xs ! nat i else NaN)"

section \<open>Double-precision rounding\<close>

text \<open>
  A double has a significand of 53 bits. A real \<open>x\<close> with \<open>2^e \<le> |x| < 2^(e+1)\<close> is
  rounded to the nearest multiple of \<open>2^(e-52)\<close>, and below \<open>2^(-1022)\<close> to the nearest
  multiple of \<open>2^(-1074)\<close>; a tie goes to the multiple with an even factor. A result of
  magnitude \<open>2^1024\<close> or more overflows to an infinity.
\<close>

definition rne :: "real \<Rightarrow> int" where
  "rne y = (let f = \<lfloor>y\<rfloor> in
             if y - real_of_int f < 1 / 2 then f
             else if 1 / 2 < y - real_of_int f then f + 1
             else if even f then f else f + 1)"

definition binade :: "real \<Rightarrow> int" where
  "binade x = \<lfloor>log 2 \<bar>x\<bar>\<rfloor>"

definition ulp :: "real \<Rightarrow> real" where
  "ulp x = 2 powi (max (binade x) (- 1022) - 52)"

definition rnd :: "real \<Rightarrow> real" where
  "rnd x = real_of_int (rne (x / ulp x)) * ulp x"

definition fl :: "real \<Rightarrow> number" where
  "fl x = (if 2 ^ 1024 \<le> \<bar>rnd x\<bar> then (if 0 < x then PInf else NInf) else Fin (rnd x))"

text \<open>
  The four operations of the machine: on finite operands the exact result, rounded; on
  the special values as the exact operators. A decimal literal of the source denotes the
  double nearest to it.
\<close>

fun fadd :: "number \<Rightarrow> number \<Rightarrow> number" where
  "fadd (Fin a) (Fin b) = fl (a + b)"
| "fadd x y = x + y"

fun fsub :: "number \<Rightarrow> number \<Rightarrow> number" where
  "fsub (Fin a) (Fin b) = fl (a - b)"
| "fsub x y = x - y"

fun fmul :: "number \<Rightarrow> number \<Rightarrow> number" where
  "fmul (Fin a) (Fin b) = fl (a * b)"
| "fmul x y = x * y"

fun fdiv :: "number \<Rightarrow> number \<Rightarrow> number" where
  "fdiv (Fin a) (Fin b) = (if b = 0 then Fin a / Fin b else fl (a / b))"
| "fdiv x y = x / y"

definition dbl :: "real \<Rightarrow> number" where
  "dbl c = fl c"

text \<open>
  A quantity is of moderate size when it is zero or lies between \<open>2^(-300)\<close> and \<open>2^300\<close>:
  a few operations on such quantities neither overflow nor reach the subnormal range,
  so each of them is exact up to a relative error of \<open>2^(-53)\<close>.
\<close>

definition zero_or_between :: "int \<Rightarrow> int \<Rightarrow> real \<Rightarrow> bool" where
  "zero_or_between l h x \<longleftrightarrow> x = 0 \<or> (2 powi l \<le> x \<and> x \<le> 2 powi h)"

definition moderate :: "real \<Rightarrow> bool" where
  "moderate x \<longleftrightarrow> zero_or_between (- 300) 300 x"

section \<open>The data model (types/valuation.ts)\<close>

text \<open>
  Each interface is a record. Field names carry a prefix naming their record
  (\<open>b_\<close> Baseline, \<open>a_\<close> Assumptions, \<open>r_\<close> ProFormaRow, \<open>c_\<close> ComputedValuations, ...),
  since several interfaces share field names. The projection horizon \<open>proj_years_n\<close> is a
  natural number: it is only ever used as an array length and as an integer exponent.
\<close>

record Baseline =
  b_revenue :: number
  b_ebitda :: number
  b_adj_ebitda :: number
  b_adj_ebitda_margin :: number
  b_ebitda_margin :: number
  b_net_income :: number
  b_adj_net_income :: number
  b_fcf :: number
  b_adj_eps :: number
  b_eps :: number
  b_dps :: number
  b_current_price :: number
  b_shares_diluted :: number
  b_net_debt :: number
  b_bvps :: number
  b_roe :: number
  b_total_debt :: number
  b_total_equity :: number
  b_total_assets :: number
  b_goodwill :: number
  b_tax_rate :: number
  b_payout_ratio :: number
  b_plowback_ratio :: number
  b_gross_margin :: number
  b_cogs :: number
  b_gross_profit :: number
  b_sga :: number
  b_da_total :: number
  b_operating_income :: number
  b_interest_expense :: number
  b_pretax_income :: number
  b_tax :: number
  b_ocf :: number
  b_ebit :: number
  b_shares_basic :: number
  b_capex :: number
  b_net_borrowing :: number

record Segment =
  seg_revenue :: number
  seg_adj_op_margin :: number

text \<open>The peer record as \<open>computeAll\<close> declares it: \<open>pcf\<close> is optional.\<close>

record Comp =
  comp_ev_ebitda :: number
  comp_ev_rev :: number
  comp_pe :: number
  comp_peg :: number
  comp_pb :: number
  comp_pcf :: "number option"

record Acquisition =
  acq_rev :: number
  acq_margin :: number
  acq_mult :: number

datatype ScenarioKey = Base | Bull | Bear

record Assumptions =
  a_scenario :: ScenarioKey
  a_yr1_g :: number
  a_yr2_g :: number
  a_yr3_g :: number
  a_lt_g :: number
  a_terminal_g :: number
  a_wacc :: number
  a_cost_of_equity :: number
  a_target_ebitda_m :: number
  a_capex_pct :: number
  a_exit_mult :: number
  a_proj_years_n :: nat
  a_n_sims :: number
  a_ddm_g :: number
  a_beta :: number
  a_tax_rate :: number
  a_rf :: number
  a_erp :: number
  a_cost_of_debt :: number
  a_hl :: number

datatype Signal = BUY | HOLD | SELL | NA

text \<open>
  \<open>vsMarket\<close> is a display string in the source (a percentage printed with one decimal,
  or "N/A"); the record keeps the percentage before printing, \<open>None\<close> for "N/A".
\<close>

record SignalRow =
  sr_method :: string
  sr_intrinsicValue :: number
  sr_vsMarket :: "number option"
  sr_signal :: Signal

record ProFormaRow =
  r_year :: nat
  r_revenue :: number
  r_cogs :: number
  r_gross_profit :: number
  r_sga :: number
  r_da :: number
  r_op_inc :: number
  r_interest :: number
  r_pretax :: number
  r_tax :: number
  r_net_income :: number
  r_ebitda :: number
  r_capex :: number
  r_fcff :: number
  r_fcfe :: number
  r_dividends :: number
  r_ebitda_margin :: number

record RIProjectionRow =
  ri_year :: nat
  ri_bvps_start :: number
  ri_eps_proj :: number
  ri_required_return :: number
  ri_ri :: number
  ri_pv_ri :: number

text \<open>Reading a property of \<open>undefined\<close> throws.\<close>

datatype error = TypeError

section \<open>The valuation engine (lib/valuation/calculations.ts)\<close>

text \<open>
  The signal classification, the WACC and the justified P/E are written with the rounded
  operations: their values are those of the code to the last bit. The projection, the
  discounting, the multiples and the other models are written with the exact operators:
  the code's values differ from the ones stated of them by the rounding of each
  operation, a relative \<open>2^(-53)\<close>.
\<close>

subsection \<open>Growth schedule and pro-forma projection\<close>

definition buildGrowthSchedule :: "Assumptions \<Rightarrow> number list" where
  "buildGrowthSchedule a =
     map (\<lambda>i.
       if i = 0 then a_yr1_g a
       else if i = 1 then a_yr2_g a
       else if i = 2 then a_yr3_g a
       else (let fade = (Fin (real i) - Fin 2)
                          / Math_max (Fin (real (a_proj_years_n a)) - Fin 3) (Fin 1)
             in a_yr3_g a + fade * (a_lt_g a - a_yr3_g a)))
       [0 ..< a_proj_years_n a]"

definition buildProforma :: "Baseline \<Rightarrow> number list \<Rightarrow> Assumptions \<Rightarrow> ProFormaRow list" where
  "buildProforma B growthRates a =
     (let cogs_pct = (if truthy (b_revenue B) then b_cogs B / b_revenue B else Fin 0.55);
          sga_pct = (if truthy (b_revenue B) then b_sga B / b_revenue B else Fin 0.20);
          da_pct = (if truthy (b_revenue B) then b_da_total B / b_revenue B else Fin 0.03);
          int_pct = (if truthy (b_revenue B) then b_interest_expense B / b_revenue B
                     else Fin 0.025)
      in map (\<lambda>i.
           let rev = b_revenue B
                       * foldl (\<lambda>acc g. acc * (1 + g)) 1 (take (i + 1) growthRates);
               marginProg = Fin (real (i + 1)) / Fin (real (length growthRates));
               ebitdaM = b_ebitda_margin B
                           + marginProg * (a_target_ebitda_m a - b_ebitda_margin B);
               cogs = rev * cogs_pct;
               gp = rev - cogs;
               sga = rev * sga_pct;
               op_inc = gp - sga;
               da = rev * da_pct;
               ebitda = op_inc + da;
               interest = rev * int_pct;
               pretax = op_inc - interest;
               tax = (if pretax > 0 then pretax * b_tax_rate B else 0);
               ni = pretax - tax;
               capex = rev * a_capex_pct a;
               fcff = op_inc * (1 - b_tax_rate B) + da - capex;
               fcfe = fcff - interest * (1 - b_tax_rate B);
               dividends = (if ni > 0 then ni * b_payout_ratio B else 0)
           in \<lparr> r_year = 2025 + i,
                r_revenue = rev,
                r_cogs = cogs,
                r_gross_profit = gp,
                r_sga = sga,
                r_da = da,
                r_op_inc = op_inc,
                r_interest = interest,
                r_pretax = pretax,
                r_tax = tax,
                r_net_income = ni,
                r_ebitda = ebitda,
                r_capex = capex,
                r_fcff = fcff,
                r_fcfe = fcfe,
                r_dividends = dividends,
                r_ebitda_margin = (if truthy rev then ebitda / rev else 0) \<rparr>)
           [0 ..< length growthRates])"

subsection \<open>Discounted cash flow\<close>

record DcfResult =
  dcf_pps :: number
  dcf_ev :: number
  dcf_pvFcfs :: number
  dcf_pvTv :: number

definition dcfPrice ::
  "number list \<Rightarrow> number \<Rightarrow> number \<Rightarrow> number \<Rightarrow> number \<Rightarrow> DcfResult" where
  "dcfPrice fcfs terminalVal discountRate netDebt shares =
     (let dfs = map (\<lambda>i. 1 / (1 + discountRate) ^ (i + 1)) [0 ..< length fcfs];
          pvFcfs = foldl (\<lambda>acc (f, i). acc + f * at_num dfs (int i)) 0
                     (zip fcfs [0 ..< length fcfs]);
          pvTv = terminalVal * at_num dfs (int (length dfs) - 1);
          ev = pvFcfs + pvTv;
          pps = (if truthy shares then (ev - netDebt) / shares else 0)
      in \<lparr> dcf_pps = pps, dcf_ev = ev, dcf_pvFcfs = pvFcfs, dcf_pvTv = pvTv \<rparr>)"

subsection \<open>Signal classification\<close>

text \<open>
  The two thresholds are the products of the market price by the doubles nearest to 1.15
  and to 0.85, rounded.
\<close>

definition assignSignal :: "number \<Rightarrow> number \<Rightarrow> Signal" where
  "assignSignal intrinsic market =
     (if \<not> truthy market \<or> market \<le> 0 then NA
      else if intrinsic > fmul market (dbl 1.15) then BUY
      else if intrinsic < fmul market (dbl 0.85) then SELL
      else HOLD)"

subsection \<open>CAPM and WACC\<close>

record WaccResult =
  w_wacc :: number
  w_ke :: number
  w_kd_after_tax :: number

definition computeWACC ::
  "number \<Rightarrow> number \<Rightarrow> number \<Rightarrow> number \<Rightarrow> number \<Rightarrow> number \<Rightarrow> number \<Rightarrow> WaccResult" where
  "computeWACC rf beta erp kd T marketCapE totalDebtD =
     (let ke = fadd rf (fmul beta erp);
          kd_after_tax = fmul kd (fsub 1 T);
          V = fadd marketCapE totalDebtD
      in if V \<le> 0 then \<lparr> w_wacc = ke, w_ke = ke, w_kd_after_tax = kd_after_tax \<rparr>
         else \<lparr> w_wacc = fadd (fmul (fdiv marketCapE V) ke) (fmul (fdiv totalDebtD V) kd_after_tax),
                w_ke = ke, w_kd_after_tax = kd_after_tax \<rparr>)"

subsection \<open>The CFA models\<close>

record FcfeResult =
  fe_pps_fcfe :: number
  fe_ev_fcfe :: number
  fe_fcfes :: "number list"

definition computeFCFE ::
  "ProFormaRow list \<Rightarrow> Baseline \<Rightarrow> Assumptions \<Rightarrow> number \<Rightarrow> FcfeResult" where
  "computeFCFE proforma B a ke =
     (let T = (if truthy (a_tax_rate a) then a_tax_rate a else b_tax_rate B);
          netBorrowPerYear =
            b_net_borrowing B / Math_max (Fin (real (length proforma))) (Fin 1);
          fcfes = map (\<lambda>r. r_fcff r - r_interest r * (1 - T) + netBorrowPerYear) proforma;
          g = a_terminal_g a;
          n = length proforma
      in if ke \<le> g then \<lparr> fe_pps_fcfe = 0, fe_ev_fcfe = 0, fe_fcfes = fcfes \<rparr>
         else
           (let tv = (at_num fcfes (int n - 1) * (1 + g)) / (ke - g);
                pvFcfes = foldl (\<lambda>acc (f, i). acc + f / (1 + ke) ^ (i + 1)) 0
                            (zip fcfes [0 ..< length fcfes]);
                pvTv = tv / (1 + ke) ^ n;
                equityValue = pvFcfes + pvTv;
                pps_fcfe = (if b_shares_diluted B > 0 then equityValue / b_shares_diluted B
                            else 0);
                ev_fcfe = equityValue + b_net_debt B
            in \<lparr> fe_pps_fcfe = pps_fcfe, fe_ev_fcfe = ev_fcfe, fe_fcfes = fcfes \<rparr>))"

text \<open>
  The residual income loop carries four variables; one iteration is \<open>ri_step\<close>, the loop
  a fold over the year indices.
\<close>

record RIState =
  st_riRows :: "RIProjectionRow list"
  st_bvps_t :: number
  st_sumPvRi :: number
  st_eps_t :: number

definition ri_step :: "number list \<Rightarrow> number \<Rightarrow> number \<Rightarrow> RIState \<Rightarrow> nat \<Rightarrow> RIState" where
  "ri_step growthRates ke plowback st i =
     (let eps_t = st_eps_t st * (1 + at_num growthRates (int i));
          required_return = ke * st_bvps_t st;
          ri = eps_t - required_return;
          pv_ri = ri / (1 + ke) ^ (i + 1)
      in \<lparr> st_riRows = st_riRows st @
               [\<lparr> ri_year = 2025 + i,
                  ri_bvps_start = st_bvps_t st,
                  ri_eps_proj = eps_t,
                  ri_required_return = required_return,
                  ri_ri = ri,
                  ri_pv_ri = pv_ri \<rparr>],
           st_bvps_t = st_bvps_t st + eps_t * plowback,
           st_sumPvRi = st_sumPvRi st + pv_ri,
           st_eps_t = eps_t \<rparr>)"

record RiResult =
  rr_pps_ri :: number
  rr_riRows :: "RIProjectionRow list"

definition computeRI :: "Baseline \<Rightarrow> Assumptions \<Rightarrow> number \<Rightarrow> error + RiResult" where
  "computeRI B a ke =
     (if b_eps B \<le> 0 \<or> b_bvps B \<le> 0 \<or> ke \<le> 0
      then Inr \<lparr> rr_pps_ri = 0, rr_riRows = [] \<rparr>
      else
        (let plowback = (if b_plowback_ratio B > 0 then b_plowback_ratio B
                         else 1 - b_payout_ratio B);
             growthRates = buildGrowthSchedule a;
             n = length growthRates;
             g = a_terminal_g a;
             st = foldl (ri_step growthRates ke plowback)
                    \<lparr> st_riRows = [], st_bvps_t = b_bvps B, st_sumPvRi = 0,
                      st_eps_t = b_eps B \<rparr>
                    [0 ..< n];
             riRows = st_riRows st
         in if ke > g \<and> n = 0 then Inl TypeError
            else
              (let ri_terminal = (if ke > g then (ri_ri (riRows ! (n - 1)) * (1 + g)) / (ke - g)
                                  else 0);
                   pv_terminal_ri = ri_terminal / (1 + ke) ^ n;
                   pps_ri = b_bvps B + st_sumPvRi st + pv_terminal_ri
               in Inr \<lparr> rr_pps_ri = pps_ri, rr_riRows = riRows \<rparr>)))"

definition computeHModelDDM :: "Baseline \<Rightarrow> Assumptions \<Rightarrow> number \<Rightarrow> number" where
  "computeHModelDDM B a ke =
     (let D0 = b_dps B;
          gL = a_terminal_g a;
          gS = a_yr1_g a;
          H = a_hl a;
          r = ke
      in if D0 \<le> 0 \<or> r \<le> gL then 0
         else
           (let p0 = (D0 * (1 + gL)) / (r - gL) + (D0 * H * (gS - gL)) / (r - gL)
            in Math_max 0 p0))"

record JpeResult =
  jpe_pps_jpe :: number
  jpe_justifiedPE :: number

definition computeJustifiedPE :: "Baseline \<Rightarrow> Assumptions \<Rightarrow> number \<Rightarrow> JpeResult" where
  "computeJustifiedPE B a ke =
     (let roe = (if b_roe B > 0 then b_roe B else dbl 0.10);
          b = (if b_plowback_ratio B > 0 then b_plowback_ratio B
               else fsub 1 (b_payout_ratio B));
          g = Math_min (fmul roe b) (fsub ke (dbl 0.001));
          r = ke
      in if r \<le> g then \<lparr> jpe_pps_jpe = 0, jpe_justifiedPE = 0 \<rparr>
         else
           (let payout = fsub 1 b;
                justifiedPE = fdiv payout (fsub r g);
                forwardEps = fmul (b_eps B) (fadd 1 (a_yr1_g a));
                pps_jpe = fmul justifiedPE forwardEps
            in \<lparr> jpe_pps_jpe = pps_jpe, jpe_justifiedPE = justifiedPE \<rparr>))"

record JpbResult =
  jpb_pps_jpb :: number
  jpb_justifiedPB :: number

definition computeJustifiedPB :: "Baseline \<Rightarrow> Assumptions \<Rightarrow> number \<Rightarrow> JpbResult" where
  "computeJustifiedPB B a ke =
     (let roe = (if b_roe B > 0 then b_roe B else Fin 0.10);
          b = (if b_plowback_ratio B > 0 then b_plowback_ratio B else 1 - b_payout_ratio B);
          g = Math_min (roe * b) (ke - Fin 0.001);
          r = ke
      in if r \<le> g \<or> b_bvps B \<le> 0 then \<lparr> jpb_pps_jpb = 0, jpb_justifiedPB = 0 \<rparr>
         else
           (let justifiedPB = (roe - g) / (r - g);
                pps_jpb = justifiedPB * b_bvps B
            in \<lparr> jpb_pps_jpb = pps_jpb, jpb_justifiedPB = justifiedPB \<rparr>))"

record PcfResult =
  pcf_pps_pcf :: number
  pcf_cfoPerShare :: number

definition computePCF :: "Baseline \<Rightarrow> number \<Rightarrow> PcfResult" where
  "computePCF B medianPcf =
     (if b_shares_diluted B \<le> 0 \<or> b_ocf B \<le> 0
      then \<lparr> pcf_pps_pcf = 0, pcf_cfoPerShare = 0 \<rparr>
      else
        (let cfoPerShare = b_ocf B / b_shares_diluted B;
             pps_pcf = medianPcf * cfoPerShare
         in \<lparr> pcf_pps_pcf = pps_pcf, pcf_cfoPerShare = cfoPerShare \<rparr>))"

subsection \<open>The orchestrator\<close>

record ComputedValuations =
  c_pps_fcff :: number
  c_ev_fcff :: number
  c_pvFcfs :: number
  c_pvTv :: number
  c_pps_fcfe :: number
  c_ev_fcfe :: number
  c_pps_ri :: number
  c_pps_hddm :: number
  c_pps_jpe :: number
  c_pps_jpb :: number
  c_pps_pcf :: number
  c_wacc_calc :: number
  c_ke_calc :: number
  c_kd_after_tax :: number
  c_pps_ddm :: number
  c_pps_ebitda :: number
  c_pps_rev :: number
  c_pps_pe :: number
  c_pps_peg :: number
  c_pps_pb :: number
  c_pps_sotp :: number
  c_justifiedPE :: number
  c_justifiedPB :: number
  c_cfoPerShare :: number
  c_riRows :: "RIProjectionRow list"
  c_signalRows :: "SignalRow list"
  c_finalSignal :: Signal
  c_buys :: nat
  c_holds :: nat
  c_sells :: nat
  c_medianPE :: number
  c_medianEvm :: number
  c_medianEvRev :: number
  c_medianPeg :: number
  c_medianPb :: number
  c_medianPcf :: number
  c_epsCAGR :: number
  c_proforma :: "ProFormaRow list"
  c_growthSchedule :: "number list"
  c_sotvEV :: number

text \<open>
  The peer median: the finite values, sorted ascending; the middle one, or the mean of
  the two middle ones; 0 when there is none.
\<close>

fun finite_values :: "number list \<Rightarrow> real list" where
  "finite_values [] = []"
| "finite_values (Fin x # xs) = x # finite_values xs"
| "finite_values (_ # xs) = finite_values xs"

definition median :: "number list \<Rightarrow> number" where
  "median arr =
     (let s = sort (finite_values arr)
      in if length s = 0 then 0
         else
           (let m = length s div 2
            in if length s mod 2 \<noteq> 0 then Fin (s ! m)
               else (Fin (s ! (m - 1)) + Fin (s ! m)) / Fin 2))"

text \<open>
  \<open>base ** (1 / k)\<close> for a whole \<open>k \<ge> 1\<close>, the only fractional power the engine takes:
  \<open>Math.pow\<close> gives \<open>NaN\<close> for a negative base and a fractional exponent.
\<close>

fun pow_recip :: "number \<Rightarrow> nat \<Rightarrow> number" where
  "pow_recip NaN k = NaN"
| "pow_recip PInf k = PInf"
| "pow_recip NInf k = (if k = 1 then NInf else PInf)"
| "pow_recip (Fin x) k =
     (if 0 < x then Fin (x powr (1 / real k))
      else if x = 0 then Fin 0
      else if k = 1 then Fin x else NaN)"

text \<open>
  The vote count is an object keyed by signal; its entries are kept in the order the
  keys were first written, which is the order \<open>Object.entries\<close> lists them in.
\<close>

definition count_vote :: "(Signal \<times> nat) list \<Rightarrow> SignalRow \<Rightarrow> (Signal \<times> nat) list" where
  "count_vote acc r =
     (if sr_signal r \<noteq> NA
      then AList.update (sr_signal r)
             ((case map_of acc (sr_signal r) of None \<Rightarrow> 0 | Some k \<Rightarrow> k) + 1) acc
      else acc)"

definition count_of :: "(Signal \<times> nat) list \<Rightarrow> Signal \<Rightarrow> nat" where
  "count_of counts s = (case map_of counts s of None \<Rightarrow> 0 | Some k \<Rightarrow> k)"

definition signalValues_of ::
  "number \<Rightarrow> number \<Rightarrow> number \<Rightarrow> number \<Rightarrow> number \<Rightarrow> number \<Rightarrow> number \<Rightarrow> number \<Rightarrow> number
   \<Rightarrow> number \<Rightarrow> number \<Rightarrow> number \<Rightarrow> number \<Rightarrow> number \<Rightarrow> (string \<times> number) list" where
  "signalValues_of pps_fcff pps_fcfe pps_ri pps_ddm pps_hddm pps_ebitda pps_rev pps_pe
       pps_jpe pps_jpb pps_peg pps_pb pps_pcf pps_sotp =
     [(''FCFF (DCF)'', pps_fcff),
      (''FCFE (DCF)'', pps_fcfe),
      (''Residual Income'', pps_ri),
      (''DDM (2-Stage)'', pps_ddm),
      (''H-Model DDM'', pps_hddm),
      (''EBITDA Multiple'', pps_ebitda),
      (''Revenue Multiple'', pps_rev),
      (''P/E Multiple'', pps_pe),
      (''Justified P/E'', pps_jpe),
      (''Justified P/B'', pps_jpb),
      (''PEG'', pps_peg),
      (''P/B'', pps_pb),
      (''P/CF'', pps_pcf),
      (''SOTP'', pps_sotp)]"

definition signalRows_of :: "Baseline \<Rightarrow> (string \<times> number) list \<Rightarrow> SignalRow list" where
  "signalRows_of B signalValues =
     map (\<lambda>(method, v).
            \<lparr> sr_method = method,
              sr_intrinsicValue = v,
              sr_vsMarket = (if b_current_price B > 0
                             then Some (((v / b_current_price B) - 1) * Fin 100) else None),
              sr_signal = assignSignal v (b_current_price B) \<rparr>)
       (filter (\<lambda>(method, v). v > 0) signalValues)"

text \<open>
  \<open>computeAll\<close>. The peers and the acquisitions are objects keyed by name; only their
  values are read, so they are the lists of their values in key order. The assumptions
  are a complete record, so the fallbacks of the source for a missing field
  (\<open>a.rf ?? 0.043\<close>, \<open>a.beta ?? 1.0\<close>, \<open>a.erp ?? 0.055\<close>, \<open>a.cost_of_debt ?? 0.045\<close>,
  \<open>a.tax_rate ?? B.tax_rate\<close>, and \<open>a.hl ?? 2.5\<close> in the H-model) never apply. Reading
  \<open>ebitda\<close> of the last pro-forma row throws when the projection is empty.
\<close>

definition computeAll ::
  "Baseline \<Rightarrow> Comp list \<Rightarrow> Segment list \<Rightarrow> Acquisition list \<Rightarrow> number list \<Rightarrow> Assumptions
   \<Rightarrow> error + ComputedValuations" where
  "computeAll B comps segments acquisitions histEPS a =
     (let compArr = comps;
          medianPE = median (map comp_pe compArr);
          medianEvm = median (map comp_ev_ebitda compArr);
          medianEvRev = median (map comp_ev_rev compArr);
          medianPeg = median (map comp_peg compArr);
          medianPb = median (map comp_pb compArr);
          medianPcf = median (map (\<lambda>c. case comp_pcf c of None \<Rightarrow> Fin 15 | Some v \<Rightarrow> v)
                                compArr);
          epsCAGR =
            (if length histEPS \<ge> 2 \<and> histEPS ! 0 > 0
             then pow_recip (histEPS ! (length histEPS - 1) / histEPS ! 0)
                    (max (length histEPS - 1) 1) - 1
             else Fin 0.05);
          growthSchedule = buildGrowthSchedule a;
          proforma = buildProforma B growthSchedule a;
          fcffs = map r_fcff proforma
      in if proforma = [] then Inl TypeError
         else
           (let lastEbitda = r_ebitda (proforma ! (length proforma - 1));
                marketCap = b_current_price B * b_shares_diluted B;
                w = computeWACC (a_rf a) (a_beta a) (a_erp a) (a_cost_of_debt a)
                      (a_tax_rate a) marketCap (b_total_debt B);
                wacc_calc = w_wacc w;
                ke_calc = w_ke w;
                kd_after_tax = w_kd_after_tax w;
                ke = (if ke_calc > 0 then ke_calc else a_cost_of_equity a);
                tvFcff =
                  (if a_wacc a > a_terminal_g a
                   then (at_num fcffs (int (length fcffs) - 1) * (1 + a_terminal_g a))
                          / (a_wacc a - a_terminal_g a)
                   else lastEbitda * a_exit_mult a);
                d = dcfPrice fcffs tvFcff (a_wacc a) (b_net_debt B) (b_shares_diluted B);
                pps_fcff = dcf_pps d;
                divProj = map (\<lambda>r. if truthy (b_shares_diluted B)
                                     then r_dividends r / b_shares_diluted B else 0) proforma;
                pvDivs = foldl (\<lambda>acc (dv, i). acc + dv / (1 + a_cost_of_equity a) ^ (i + 1)) 0
                           (zip divProj [0 ..< length divProj]);
                finalDiv = at_num divProj (int (length divProj) - 1) * (1 + a_terminal_g a);
                tvDdm = (if a_cost_of_equity a > a_terminal_g a
                         then finalDiv / (a_cost_of_equity a - a_terminal_g a) else 0);
                pvTvDdm = tvDdm / (1 + a_cost_of_equity a) ^ a_proj_years_n a;
                pps_ddm = (if b_dps B > 0 then pvDivs + pvTvDdm else 0);
                pps_ebitda = (if truthy (b_shares_diluted B)
                              then (b_adj_ebitda B * medianEvm - b_net_debt B)
                                     / b_shares_diluted B
                              else 0);
                pps_rev = (if truthy (b_shares_diluted B)
                           then (b_revenue B * medianEvRev - b_net_debt B) / b_shares_diluted B
                           else 0);
                pps_pe = medianPE * b_adj_eps B;
                pegGrowth = (if epsCAGR > 0 then epsCAGR else Fin 0.05);
                pps_peg = medianPeg * pegGrowth * Fin 100 * b_adj_eps B;
                pps_pb = medianPb * b_bvps B;
                sotvEV =
                  (if length acquisitions \<noteq> 0
                   then foldl (\<lambda>sum q. sum + acq_rev q * acq_margin q * acq_mult q) 0
                          acquisitions
                   else b_adj_ebitda B * medianEvm);
                pps_sotp = (if truthy (b_shares_diluted B)
                            then (sotvEV - b_net_debt B) / b_shares_diluted B else 0);
                fe = computeFCFE proforma B a ke
            in case computeRI B a ke of
                 Inl e \<Rightarrow> Inl e
               | Inr ri \<Rightarrow>
                  (let pps_hddm = computeHModelDDM B a ke;
                       jpe = computeJustifiedPE B a ke;
                       jpb = computeJustifiedPB B a ke;
                       pcf = computePCF B medianPcf;
                       signalValues =
                         signalValues_of pps_fcff (fe_pps_fcfe fe) (rr_pps_ri ri) pps_ddm
                           pps_hddm pps_ebitda pps_rev pps_pe (jpe_pps_jpe jpe)
                           (jpb_pps_jpb jpb) pps_peg pps_pb (pcf_pps_pcf pcf) pps_sotp;
                       signalRows = signalRows_of B signalValues;
                       counts = foldl count_vote [] signalRows;
                       finalSignal =
                         (case sort_key (\<lambda>(s, k). - int k) counts of
                            [] \<Rightarrow> HOLD
                          | (s, k) # rest \<Rightarrow> s)
                   in Inr \<lparr> c_pps_fcff = pps_fcff,
                            c_ev_fcff = dcf_ev d,
                            c_pvFcfs = dcf_pvFcfs d,
                            c_pvTv = dcf_pvTv d,
                            c_pps_fcfe = fe_pps_fcfe fe,
                            c_ev_fcfe = fe_ev_fcfe fe,
                            c_pps_ri = rr_pps_ri ri,
                            c_pps_hddm = pps_hddm,
                            c_pps_jpe = jpe_pps_jpe jpe,
                            c_pps_jpb = jpb_pps_jpb jpb,
                            c_pps_pcf = pcf_pps_pcf pcf,
                            c_wacc_calc = wacc_calc,
                            c_ke_calc = ke_calc,
                            c_kd_after_tax = kd_after_tax,
                            c_pps_ddm = pps_ddm,
                            c_pps_ebitda = pps_ebitda,
                            c_pps_rev = pps_rev,
                            c_pps_pe = pps_pe,
                            c_pps_peg = pps_peg,
                            c_pps_pb = pps_pb,
                            c_pps_sotp = pps_sotp,
                            c_justifiedPE = jpe_justifiedPE jpe,
                            c_justifiedPB = jpb_justifiedPB jpb,
                            c_cfoPerShare = pcf_cfoPerShare pcf,
                            c_riRows = rr_riRows ri,
                            c_signalRows = signalRows,
                            c_finalSignal = finalSignal,
                            c_buys = count_of counts BUY,
                            c_holds = count_of counts HOLD,
                            c_sells = count_of counts SELL,
                            c_medianPE = medianPE,
                            c_medianEvm = medianEvm,
                            c_medianEvRev = medianEvRev,
                            c_medianPeg = medianPeg,
                            c_medianPb = medianPb,
                            c_medianPcf = medianPcf,
                            c_epsCAGR = epsCAGR,
                            c_proforma = proforma,
                            c_growthSchedule = growthSchedule,
                            c_sotvEV = sotvEV \<rparr>)))"

section \<open>The dashboard summary (components/valuation/ValuationDashboard.tsx)\<close>

datatype SummarySignal = SBUY | SHOLD | SSELL

definition deriveSummarySignal :: "number \<Rightarrow> SummarySignal" where
  "deriveSummarySignal upsidePct =
     (if upsidePct > Fin 15 then SBUY
      else if upsidePct < Fin (- 10) then SSELL
      else SHOLD)"

text \<open>
  The blended figure of the summary card. The Monte Carlo median and the confidence
  score of the card come from other hooks and are left out.
\<close>

record ValuationSummaryData =
  sd_intrinsicValue :: number
  sd_marketPrice :: number
  sd_upsidePercent :: number
  sd_signal :: SummarySignal
  sd_dcf :: number
  sd_multiplesAvg :: number

definition summaryData :: "Baseline \<Rightarrow> ComputedValuations \<Rightarrow> ValuationSummaryData" where
  "summaryData B computed =
     (let multiplesAvg =
            foldl (\<lambda>x y. x + y) 0
              [c_pps_ebitda computed, c_pps_rev computed, c_pps_pe computed,
               c_pps_peg computed, c_pps_pb computed] / Fin 5;
          intrinsic = c_pps_fcff computed * Fin 0.35 + multiplesAvg * Fin 0.45
                        + c_pps_sotp computed * Fin 0.20;
          upsidePct = (if b_current_price B > 0
                       then ((intrinsic / b_current_price B) - 1) * Fin 100 else 0)
      in \<lparr> sd_intrinsicValue = intrinsic,
           sd_marketPrice = b_current_price B,
           sd_upsidePercent = upsidePct,
           sd_signal = deriveSummarySignal upsidePct,
           sd_dcf = c_pps_fcff computed,
           sd_multiplesAvg = multiplesAvg \<rparr>)"

section \<open>Scenario presets and the scenario state (lib/valuation/presets.ts, context/ScenarioContext.tsx)\<close>

text \<open>
  A preset is an \<open>Assumptions\<close> object without the fields \<open>scenario\<close>, \<open>proj_years_n\<close>,
  \<open>n_sims\<close> and \<open>ddm_g\<close>.
\<close>

record PresetValues =
  p_yr1_g :: number
  p_yr2_g :: number
  p_yr3_g :: number
  p_lt_g :: number
  p_terminal_g :: number
  p_wacc :: number
  p_cost_of_equity :: number
  p_target_ebitda_m :: number
  p_capex_pct :: number
  p_exit_mult :: number
  p_beta :: number
  p_tax_rate :: number
  p_rf :: number
  p_erp :: number
  p_cost_of_debt :: number
  p_hl :: number

fun SCENARIO_PRESETS :: "ScenarioKey \<Rightarrow> PresetValues" where
  "SCENARIO_PRESETS Base =
     \<lparr> p_yr1_g = Fin 0.025,
        p_yr2_g = Fin 0.035,
        p_yr3_g = Fin 0.040,
        p_lt_g = Fin 0.030,
        p_terminal_g = Fin 0.025,
        p_wacc = Fin 0.085,
        p_cost_of_equity = Fin 0.085,
        p_target_ebitda_m = Fin 0.270,
        p_capex_pct = Fin 0.025,
        p_exit_mult = Fin 14.0,
        p_beta = Fin 1.0,
        p_tax_rate = Fin 0.21,
        p_rf = Fin 0.043,
        p_erp = Fin 0.055,
        p_cost_of_debt = Fin 0.045,
        p_hl = Fin 2.5 \<rparr>"
| "SCENARIO_PRESETS Bull =
     \<lparr> p_yr1_g = Fin 0.045,
        p_yr2_g = Fin 0.055,
        p_yr3_g = Fin 0.060,
        p_lt_g = Fin 0.045,
        p_terminal_g = Fin 0.030,
        p_wacc = Fin 0.075,
        p_cost_of_equity = Fin 0.075,
        p_target_ebitda_m = Fin 0.300,
        p_capex_pct = Fin 0.020,
        p_exit_mult = Fin 17.0,
        p_beta = Fin 0.85,
        p_tax_rate = Fin 0.21,
        p_rf = Fin 0.043,
        p_erp = Fin 0.055,
        p_cost_of_debt = Fin 0.040,
        p_hl = Fin 2.5 \<rparr>"
| "SCENARIO_PRESETS Bear =
     \<lparr> p_yr1_g = Fin 0.005,
        p_yr2_g = Fin 0.010,
        p_yr3_g = Fin 0.020,
        p_lt_g = Fin 0.020,
        p_terminal_g = Fin 0.020,
        p_wacc = Fin 0.100,
        p_cost_of_equity = Fin 0.100,
        p_target_ebitda_m = Fin 0.230,
        p_capex_pct = Fin 0.030,
        p_exit_mult = Fin 11.0,
        p_beta = Fin 1.2,
        p_tax_rate = Fin 0.21,
        p_rf = Fin 0.043,
        p_erp = Fin 0.055,
        p_cost_of_debt = Fin 0.050,
        p_hl = Fin 2.5 \<rparr>"

text \<open>
  \<open>applyScenario\<close> is the state update \<open>{ ...prev, ...SCENARIO_PRESETS[s], scenario: s }\<close>:
  every field of the preset overwrites the field of the previous state, then the label
  is set.
\<close>

definition applyScenario :: "Assumptions \<Rightarrow> ScenarioKey \<Rightarrow> Assumptions" where
  "applyScenario prev s =
     prev \<lparr> a_yr1_g := p_yr1_g (SCENARIO_PRESETS s),
            a_yr2_g := p_yr2_g (SCENARIO_PRESETS s),
            a_yr3_g := p_yr3_g (SCENARIO_PRESETS s),
            a_lt_g := p_lt_g (SCENARIO_PRESETS s),
            a_terminal_g := p_terminal_g (SCENARIO_PRESETS s),
            a_wacc := p_wacc (SCENARIO_PRESETS s),
            a_cost_of_equity := p_cost_of_equity (SCENARIO_PRESETS s),
            a_target_ebitda_m := p_target_ebitda_m (SCENARIO_PRESETS s),
            a_capex_pct := p_capex_pct (SCENARIO_PRESETS s),
            a_exit_mult := p_exit_mult (SCENARIO_PRESETS s),
            a_beta := p_beta (SCENARIO_PRESETS s),
            a_tax_rate := p_tax_rate (SCENARIO_PRESETS s),
            a_rf := p_rf (SCENARIO_PRESETS s),
            a_erp := p_erp (SCENARIO_PRESETS s),
            a_cost_of_debt := p_cost_of_debt (SCENARIO_PRESETS s),
            a_hl := p_hl (SCENARIO_PRESETS s),
            a_scenario := s \<rparr>"

definition DEFAULT_ASSUMPTIONS :: Assumptions where
  "DEFAULT_ASSUMPTIONS =
     \<lparr> a_scenario = Base,
       a_yr1_g = p_yr1_g (SCENARIO_PRESETS Base),
       a_yr2_g = p_yr2_g (SCENARIO_PRESETS Base),
       a_yr3_g = p_yr3_g (SCENARIO_PRESETS Base),
       a_lt_g = p_lt_g (SCENARIO_PRESETS Base),
       a_terminal_g = p_terminal_g (SCENARIO_PRESETS Base),
       a_wacc = p_wacc (SCENARIO_PRESETS Base),
       a_cost_of_equity = p_cost_of_equity (SCENARIO_PRESETS Base),
       a_target_ebitda_m = p_target_ebitda_m (SCENARIO_PRESETS Base),
       a_capex_pct = p_capex_pct (SCENARIO_PRESETS Base),
       a_exit_mult = p_exit_mult (SCENARIO_PRESETS Base),
       a_proj_years_n = 5,
       a_n_sims = Fin 5000,
       a_ddm_g = Fin 0.035,
       a_beta = p_beta (SCENARIO_PRESETS Base),
       a_tax_rate = p_tax_rate (SCENARIO_PRESETS Base),
       a_rf = p_rf (SCENARIO_PRESETS Base),
       a_erp = p_erp (SCENARIO_PRESETS Base),
       a_cost_of_debt = p_cost_of_debt (SCENARIO_PRESETS Base),
       a_hl = p_hl (SCENARIO_PRESETS Base) \<rparr>"

section \<open>Annual XBRL entries (lib/valuation/edgarXbrl.ts)\<close>

record XbrlUnit =
  x_accn :: string
  x_cik :: number
  x_entityName :: string
  x_loc :: string
  x_end :: string
  x_val :: number
  x_form :: "string option"
  x_filed :: "string option"
  x_fy :: "(string + number) option"
  x_fp :: "string option"
  x_frame :: "string option"
  x_start :: "string option"

definition isAnnualForm :: "string option \<Rightarrow> bool" where
  "isAnnualForm form =
     (form = Some ''10-K'' \<or> form = Some ''10-K/A'' \<or> form = Some ''20-F''
      \<or> form = Some ''40-F'')"

text \<open>
  \<open>new Date(s).getTime()\<close> is a parameter \<open>getTime\<close> of the model: the time value of the
  date a string denotes, a whole number of milliseconds, or \<open>None\<close> for a string that is
  no date, for which the code gets \<open>NaN\<close>. Time values are integers below \<open>2^53\<close> in
  magnitude, so the quotient of their difference by 86400000 compares with 300 and with
  400 in double precision as the exact quotient does. A missing or empty string is false
  in a condition.
\<close>

definition Date_getTime :: "(string \<Rightarrow> int option) \<Rightarrow> string \<Rightarrow> number" where
  "Date_getTime getTime s = (case getTime s of Some t \<Rightarrow> Fin (real_of_int t) | None \<Rightarrow> NaN)"

definition is_annual :: "(string \<Rightarrow> int option) \<Rightarrow> XbrlUnit \<Rightarrow> bool" where
  "is_annual getTime v =
     (if \<not> isAnnualForm (x_form v) then False
      else if x_start v = None \<or> x_start v = Some [] \<or> x_end v = [] then False
      else
        (let days = (Date_getTime getTime (x_end v) - Date_getTime getTime (the (x_start v)))
                      / Fin 86400000
         in days \<ge> Fin 300 \<and> days \<le> Fin 400))"

definition filed_or_empty :: "XbrlUnit \<Rightarrow> string" where
  "filed_or_empty v = (case x_filed v of None \<Rightarrow> [] | Some f \<Rightarrow> f)"

text \<open>
  The \<open>Map\<close> keyed by period end keeps its keys in insertion order; writing an existing
  key keeps the key's place.
\<close>

definition dedup_step :: "(string \<times> XbrlUnit) list \<Rightarrow> XbrlUnit \<Rightarrow> (string \<times> XbrlUnit) list" where
  "dedup_step byYearEnd entry =
     (case map_of byYearEnd (x_end entry) of
        None \<Rightarrow> AList.update (x_end entry) entry byYearEnd
      | Some existing \<Rightarrow>
          if filed_or_empty entry > filed_or_empty existing
          then AList.update (x_end entry) entry byYearEnd
          else byYearEnd)"

text \<open>
  The invariant of the deduplication loop, after the entries \<open>xs\<close>: the keys of the map
  are distinct, every value is one of the entries and is stored under its own period
  end, and every entry has a value under its period end that was filed no earlier.
\<close>

definition dedup_inv :: "XbrlUnit list \<Rightarrow> (string \<times> XbrlUnit) list \<Rightarrow> bool" where
  "dedup_inv xs m \<longleftrightarrow>
     distinct (map fst m) \<and>
     (\<forall>k v. map_of m k = Some v \<longrightarrow> v \<in> set xs \<and> x_end v = k) \<and>
     (\<forall>e \<in> set xs. \<exists>v. map_of m (x_end e) = Some v \<and> filed_or_empty e \<le> filed_or_empty v)"

text \<open>
  The final sort compares the period ends with \<open>localeCompare\<close>, whose order depends on
  the locale of the host and is a parameter of the model: a negative, zero or positive
  integer. \<open>Array.prototype.sort\<close> is stable; it is modelled as the stable insertion
  sort, which for every comparison function returns a permutation of the array.
\<close>

fun insert_by :: "('a \<Rightarrow> 'a \<Rightarrow> int) \<Rightarrow> 'a \<Rightarrow> 'a list \<Rightarrow> 'a list" where
  "insert_by compareFn x [] = [x]"
| "insert_by compareFn x (y # ys) =
     (if compareFn x y \<le> 0 then x # y # ys else y # insert_by compareFn x ys)"

definition Array_sort :: "('a \<Rightarrow> 'a \<Rightarrow> int) \<Rightarrow> 'a list \<Rightarrow> 'a list" where
  "Array_sort compareFn xs = foldr (insert_by compareFn) xs []"

definition pickAnnual ::
  "(string \<Rightarrow> int option) \<Rightarrow> (string \<Rightarrow> string \<Rightarrow> int) \<Rightarrow> XbrlUnit list \<Rightarrow> XbrlUnit list" where
  "pickAnnual getTime localeCompare values =
     (let annuals = filter (is_annual getTime) values;
          byYearEnd = foldl dedup_step [] annuals
      in Array_sort (\<lambda>a b. localeCompare (x_end a) (x_end b)) (map snd byYearEnd))"

section \<open>Example inputs\<close>

text \<open>
  A company with revenue 100, cost of goods sold 50, SG&A 20 and D&A 5 (an EBITDA margin
  of 35%), 10 diluted shares and a loss of 1 per share; and the four peers of every live
  configuration.
\<close>

definition example_baseline :: Baseline where
  "example_baseline =
     \<lparr> b_revenue = Fin 100,
       b_ebitda = Fin 35,
       b_adj_ebitda = Fin 35,
       b_adj_ebitda_margin = Fin 0.35,
       b_ebitda_margin = Fin 0.35,
       b_net_income = Fin (- 10),
       b_adj_net_income = Fin (- 10),
       b_fcf = Fin 5,
       b_adj_eps = Fin (- 1),
       b_eps = Fin (- 1),
       b_dps = Fin 0,
       b_current_price = Fin 20,
       b_shares_diluted = Fin 10,
       b_net_debt = Fin 50,
       b_bvps = Fin 5,
       b_roe = Fin (- 0.2),
       b_total_debt = Fin 60,
       b_total_equity = Fin 50,
       b_total_assets = Fin 200,
       b_goodwill = Fin 0,
       b_tax_rate = Fin 0.25,
       b_payout_ratio = Fin 0,
       b_plowback_ratio = Fin 1,
       b_gross_margin = Fin 0.5,
       b_cogs = Fin 50,
       b_gross_profit = Fin 50,
       b_sga = Fin 20,
       b_da_total = Fin 5,
       b_operating_income = Fin 30,
       b_interest_expense = Fin 40,
       b_pretax_income = Fin (- 10),
       b_tax = Fin 0,
       b_ocf = Fin 8,
       b_ebit = Fin 30,
       b_shares_basic = Fin 10,
       b_capex = Fin 3,
       b_net_borrowing = Fin 0 \<rparr>"

definition example_comps :: "Comp list" where
  "example_comps =
     [\<lparr> comp_ev_ebitda = Fin 12.0, comp_ev_rev = Fin 2.8, comp_pe = Fin 22.0,
        comp_peg = Fin 1.5, comp_pb = Fin 4.2, comp_pcf = Some (Fin 14.0) \<rparr>,
      \<lparr> comp_ev_ebitda = Fin 14.5, comp_ev_rev = Fin 3.2, comp_pe = Fin 26.0,
        comp_peg = Fin 1.8, comp_pb = Fin 5.1, comp_pcf = Some (Fin 17.0) \<rparr>,
      \<lparr> comp_ev_ebitda = Fin 11.0, comp_ev_rev = Fin 2.4, comp_pe = Fin 19.0,
        comp_peg = Fin 1.3, comp_pb = Fin 3.8, comp_pcf = Some (Fin 12.0) \<rparr>,
      \<lparr> comp_ev_ebitda = Fin 13.5, comp_ev_rev = Fin 3.0, comp_pe = Fin 24.0,
        comp_peg = Fin 1.6, comp_pb = Fin 4.6, comp_pcf = Some (Fin 15.5) \<rparr>]"

text \<open>
  A profitable company: return on equity 20%, half of the earnings retained, earnings of
  4 per share.
\<close>

definition profitable_baseline :: Baseline where
  "profitable_baseline =
     example_baseline \<lparr> b_eps := Fin 4, b_adj_eps := Fin 4, b_roe := dbl 0.2,
       b_plowback_ratio := Fin 0.5, b_payout_ratio := Fin 0.5, b_dps := Fin 2,
       b_interest_expense := Fin 2, b_net_income := Fin 40, b_adj_net_income := Fin 40 \<rparr>"

text \<open>The example company with a diluted share count of zero.\<close>

definition unlisted_baseline :: Baseline where
  "unlisted_baseline = example_baseline \<lparr> b_shares_diluted := Fin 0 \<rparr>"

text \<open>
  Three filed entries for the fiscal year 2023, after the fixtures of the unit tests: the
  10-K as first filed, the amended 10-K/A of the same period filed later, and a 10-K
  entry that covers the second half of the year only. The dates are given their
  milliseconds since 1970, and the period ends are compared character by character.
\<close>

definition example_getTime :: "string \<Rightarrow> int option" where
  "example_getTime s =
     (if s = ''2023-01-01'' then Some 1672531200000
      else if s = ''2023-07-01'' then Some 1688169600000
      else if s = ''2023-12-31'' then Some 1703980800000
      else None)"

definition example_localeCompare :: "string \<Rightarrow> string \<Rightarrow> int" where
  "example_localeCompare a b = (if a < b then - 1 else if a = b then 0 else 1)"

definition annualEntry :: "string \<Rightarrow> number \<Rightarrow> string \<Rightarrow> string \<Rightarrow> XbrlUnit" where
  "annualEntry form val start filed =
     \<lparr> x_accn = ''0001234562023'', x_cik = Fin 12345, x_entityName = ''Test Corp'',
       x_loc = ''US-DE'', x_end = ''2023-12-31'', x_val = val, x_form = Some form,
       x_filed = Some filed, x_fy = None, x_fp = None, x_frame = None,
       x_start = Some start \<rparr>"

definition example_entries :: "XbrlUnit list" where
  "example_entries =
     [annualEntry ''10-K'' (Fin 900000) ''2023-01-01'' ''2024-01-15'',
      annualEntry ''10-K/A'' (Fin 1000000) ''2023-01-01'' ''2024-02-28'',
      annualEntry ''10-K'' (Fin 500000) ''2023-07-01'' ''2024-03-01'']"

section \<open>Arithmetic on finite numbers\<close>

lemma Fin_add [simp]: "Fin a + Fin b = Fin (a + b)"
  by (simp add: plus_number_def)

lemma Fin_sub [simp]: "Fin a - Fin b = Fin (a - b)"
  by (simp add: minus_number_def)

lemma Fin_neg [simp]: "- Fin a = Fin (- a)"
  by (simp add: uminus_number_def)

lemma Fin_mul [simp]: "Fin a * Fin b = Fin (a * b)"
  by (simp add: times_number_def)

lemma Fin_div [simp]: "b \<noteq> 0 \<Longrightarrow> Fin a / Fin b = Fin (a / b)"
  by (simp add: divide_number_def)

lemma Fin_less [simp]: "Fin a < Fin b \<longleftrightarrow> a < b"
  by (simp add: less_number_def)

lemma Fin_le [simp]: "Fin a \<le> Fin b \<longleftrightarrow> a \<le> b"
  by (simp add: less_eq_number_def)

lemma Fin_power [simp]: "Fin a ^ n = Fin (a ^ n)"
  by (induction n) (simp_all add: one_number_def)

lemma zero_Fin [simp]: "(0::number) = Fin 0"
  by (simp add: zero_number_def)

lemma one_Fin [simp]: "(1::number) = Fin 1"
  by (simp add: one_number_def)

lemma NaN_ops [simp]:
  "NaN + x = NaN" "x + NaN = NaN" "NaN - x = NaN" "x - NaN = NaN"
  "NaN * x = NaN" "x * NaN = NaN" "NaN / x = NaN" "x / NaN = NaN"
  "\<not> NaN < x" "\<not> x < NaN" "\<not> NaN \<le> x" "\<not> x \<le> NaN"
  by (cases x; simp add: plus_number_def minus_number_def times_number_def divide_number_def
        less_number_def less_eq_number_def)+

lemma Fin_div0 [simp]: "Fin a / Fin 0 = (if a = 0 then NaN else if 0 < a then PInf else NInf)"
  by (simp add: divide_number_def)

lemma Math_min_Fin [simp]: "Math_min (Fin a) (Fin b) = Fin (min a b)"
  by (simp add: Math_min_def min_def)

lemma Math_max_Fin [simp]: "Math_max (Fin a) (Fin b) = Fin (max a b)"
  by (simp add: Math_max_def max_def)

section \<open>Rounding\<close>

text \<open>
  Rounding to the nearest integer, ties to even, is monotone, odd and exact on the
  integers, and moves its argument by at most one half.
\<close>

lemma rne_int [simp]: "rne (real_of_int k) = k"
  by (simp add: rne_def)

lemma rne_0 [simp]: "rne 0 = 0"
  by (simp add: rne_def)

lemma two_powr_int: "(2::real) powr real_of_int n = 2 powi n"
  by (simp add: powr_real_of_int')

lemma two_powi_less_iff: "(2::real) powi m < 2 powi n \<longleftrightarrow> m < n"
proof
  assume a: "(2::real) powi m < 2 powi n"
  show "m < n"
  proof (rule ccontr)
    assume "\<not> m < n"
    then have "n \<le> m" by simp
    then have "(2::real) powi n \<le> 2 powi m" by (rule power_int_increasing) simp
    then show False using a by simp
  qed
next
  assume "m < n"
  then show "(2::real) powi m < 2 powi n" by (rule power_int_strict_increasing) simp
qed

lemma two_powi_le_iff: "(2::real) powi m \<le> 2 powi n \<longleftrightarrow> m \<le> n"
  using two_powi_less_iff[of n m] by (simp add: not_less[symmetric])

lemma two_powi_diff: "(2::real) powi a / 2 powi b = 2 powi (a - b)"
  by (simp add: power_int_diff)

lemma two_powi_add: "(2::real) powi a * 2 powi b = 2 powi (a + b)"
  by (simp add: power_int_add)

lemma rne_error: "\<bar>real_of_int (rne y) - y\<bar> \<le> 1 / 2"
  unfolding rne_def Let_def by (auto simp: abs_if) linarith+

lemma rne_bounds: "\<lfloor>y\<rfloor> \<le> rne y" "rne y \<le> \<lfloor>y\<rfloor> + 1"
  unfolding rne_def Let_def by auto

lemma rne_mono: "x \<le> y \<Longrightarrow> rne x \<le> rne y"
proof -
  assume xy: "x \<le> y"
  then have f: "\<lfloor>x\<rfloor> \<le> \<lfloor>y\<rfloor>" by (rule floor_mono)
  show ?thesis
  proof (cases "\<lfloor>x\<rfloor> = \<lfloor>y\<rfloor>")
    case True
    then show ?thesis using xy unfolding rne_def Let_def by auto
  next
    case False
    then have "\<lfloor>x\<rfloor> + 1 \<le> \<lfloor>y\<rfloor>" using f by simp
    then show ?thesis using rne_bounds(2)[of x] rne_bounds(1)[of y] by linarith
  qed
qed

lemma rne_minus: "rne (- y) = - rne y"
proof (cases "y \<in> \<int>")
  case True
  then obtain k where "y = real_of_int k" by (auto elim: Ints_cases)
  then have "- y = real_of_int (- k)" by simp
  then show ?thesis using \<open>y = real_of_int k\<close> by (metis rne_int)
next
  case False
  then have "y \<noteq> real_of_int \<lfloor>y\<rfloor>" by (metis Ints_of_int)
  then have fl: "\<lfloor>- y\<rfloor> = - \<lfloor>y\<rfloor> - 1"
    by (simp add: floor_minus ceiling_altdef)
  show ?thesis unfolding rne_def Let_def fl by auto
qed


text \<open>
  The binade of a non-zero real; rounding moves a real by at most half a unit in the last
  place, which in the normal range is a relative \<open>2^(-53)\<close>.
\<close>

lemma binade_bounds:
  assumes "x \<noteq> 0"
  shows "2 powi binade x \<le> \<bar>x\<bar>" "\<bar>x\<bar> < 2 powi (binade x + 1)"
proof -
  have "\<lfloor>log 2 \<bar>x\<bar>\<rfloor> = binade x" by (simp add: binade_def)
  then have "2 powr real_of_int (binade x) \<le> \<bar>x\<bar> \<and> \<bar>x\<bar> < 2 powr real_of_int (binade x + 1)"
    using floor_log_eq_powr_iff[of "\<bar>x\<bar>" 2 "binade x"] assms by simp
  then show "2 powi binade x \<le> \<bar>x\<bar>" "\<bar>x\<bar> < 2 powi (binade x + 1)"
    unfolding two_powr_int by simp_all
qed

lemma binade_eqI:
  assumes "2 powi e \<le> \<bar>x\<bar>" "\<bar>x\<bar> < 2 powi (e + 1)"
  shows "binade x = e"
proof -
  have "(0::real) < 2 powi e" by simp
  then have x: "0 < \<bar>x\<bar>" using assms(1) by linarith
  have "2 powr real_of_int e \<le> \<bar>x\<bar> \<and> \<bar>x\<bar> < 2 powr real_of_int (e + 1)"
    unfolding two_powr_int using assms by simp
  then show ?thesis
    unfolding binade_def using floor_log_eq_powr_iff[of "\<bar>x\<bar>" 2 e] x by simp
qed

lemma binade_minus [simp]: "binade (- x) = binade x"
  by (simp add: binade_def)

lemma ulp_minus [simp]: "ulp (- x) = ulp x"
  by (simp add: ulp_def)

lemma ulp_pos [simp]: "0 < ulp x"
  by (simp add: ulp_def)

lemma ulp_nonneg [simp]: "0 \<le> ulp x"
  by (simp add: ulp_def)

lemma rnd_0 [simp]: "rnd 0 = 0"
  by (simp add: rnd_def)

lemma rnd_minus: "rnd (- x) = - rnd x"
  by (simp add: rnd_def rne_minus)

lemma rnd_error: "\<bar>rnd x - x\<bar> \<le> ulp x / 2"
proof -
  have "ulp x \<noteq> 0" using ulp_pos[of x] by linarith
  then have "rnd x - x = (real_of_int (rne (x / ulp x)) - x / ulp x) * ulp x"
    by (simp add: rnd_def algebra_simps)
  moreover have "\<bar>ulp x\<bar> = ulp x" using ulp_pos[of x] by linarith
  ultimately have "\<bar>rnd x - x\<bar> = \<bar>real_of_int (rne (x / ulp x)) - x / ulp x\<bar> * ulp x"
    by (simp add: abs_mult)
  also have "\<dots> \<le> 1 / 2 * ulp x"
    by (rule mult_right_mono[OF rne_error]) simp
  finally show ?thesis by simp
qed

lemma binade_ge:
  assumes "2 powi e \<le> \<bar>x\<bar>"
  shows "e \<le> binade x"
proof -
  have "(0::real) < 2 powi e" by simp
  then have "0 < \<bar>x\<bar>" using assms by linarith
  then have x: "x \<noteq> 0" by simp
  have "2 powi e < (2::real) powi (binade x + 1)"
    using assms binade_bounds(2)[OF x] by linarith
  then have "e < binade x + 1"
    by (simp add: two_powi_less_iff)
  then show ?thesis by simp
qed


lemma ulp_normal:
  assumes "2 powi (- 1022) \<le> \<bar>x\<bar>"
  shows "ulp x = 2 powi binade x / 2 ^ 52"
proof -
  have "- 1022 \<le> binade x" using assms by (rule binade_ge)
  then have "ulp x = 2 powi (binade x - 52)" by (simp add: ulp_def max_def)
  also have "\<dots> = 2 powi binade x / 2 ^ 52"
    by (simp add: power_int_diff)
  finally show ?thesis .
qed

lemma rnd_rel:
  assumes "2 powi (- 1022) \<le> \<bar>x\<bar>"
  shows "\<bar>rnd x - x\<bar> \<le> \<bar>x\<bar> / 2 ^ 53"
proof -
  have "(0::real) < 2 powi (- 1022)" by simp
  then have "0 < \<bar>x\<bar>" using assms by linarith
  then have x: "x \<noteq> 0" by simp
  have "ulp x / 2 = 2 powi binade x / 2 ^ 53"
    by (simp add: ulp_normal[OF assms])
  also have "\<dots> \<le> \<bar>x\<bar> / 2 ^ 53"
    using binade_bounds(1)[OF x] by (rule divide_right_mono) simp
  finally show ?thesis using rnd_error[of x] by linarith
qed

lemma rnd_nonneg: "0 \<le> x \<Longrightarrow> 0 \<le> rnd x"
proof -
  assume "0 \<le> x"
  then have "0 \<le> x / ulp x" by (rule divide_nonneg_nonneg) simp
  then have "rne 0 \<le> rne (x / ulp x)" by (rule rne_mono)
  then show ?thesis by (simp add: rnd_def)
qed

lemma rnd_nonpos: "x \<le> 0 \<Longrightarrow> rnd x \<le> 0"
  using rnd_nonneg[of "- x"] by (simp add: rnd_minus)

text \<open>Rounding is monotone.\<close>

lemma rnd_below_next_binade:
  assumes "0 < x"
  shows "rnd x \<le> 2 powi (max (binade x) (- 1022) + 1)"
proof -
  let ?E = "max (binade x) (- 1022)"
  have q: "ulp x = 2 powi (?E - 52)" by (simp add: ulp_def)
  have x: "x \<noteq> 0" using assms by simp
  have "x < 2 powi (binade x + 1)" using binade_bounds(2)[OF x] assms by simp
  also have "\<dots> \<le> 2 powi (?E + 1)" by (simp add: two_powi_le_iff)
  finally have "x \<le> 2 powi (?E + 1)" by simp
  then have "x / ulp x \<le> 2 powi (?E + 1) / ulp x"
    by (rule divide_right_mono) simp
  also have "2 powi (?E + 1) / ulp x = 2 powi ((?E + 1) - (?E - 52))"
    unfolding q by (rule two_powi_diff)
  also have "(?E + 1) - (?E - 52) = 53" by simp
  also have "(2::real) powi 53 = real_of_int (2 ^ 53)" by simp
  finally have "rne (x / ulp x) \<le> rne (real_of_int (2 ^ 53))" by (rule rne_mono)
  then have "rne (x / ulp x) \<le> 2 ^ 53" unfolding rne_int .
  then have "real_of_int (rne (x / ulp x)) \<le> real_of_int (2 ^ 53)" by (simp only: of_int_le_iff)
  then have "real_of_int (rne (x / ulp x)) \<le> 2 powi 53" by simp
  then have "rnd x \<le> 2 powi 53 * ulp x"
    unfolding rnd_def by (rule mult_right_mono) simp
  also have "\<dots> = 2 powi (53 + (?E - 52))" unfolding q by (rule two_powi_add)
  also have "53 + (?E - 52) = ?E + 1" by simp
  finally show ?thesis .
qed

lemma rnd_above_binade:
  assumes "0 < x" "- 1022 \<le> binade x"
  shows "2 powi binade x \<le> rnd x"
proof -
  have q: "ulp x = 2 powi (binade x - 52)" using assms(2) by (simp add: ulp_def max_def)
  have x: "x \<noteq> 0" using assms by simp
  have "2 powi binade x \<le> x" using binade_bounds(1)[OF x] assms by simp
  then have "2 powi binade x / ulp x \<le> x / ulp x"
    by (rule divide_right_mono) simp
  moreover have "2 powi binade x / ulp x = 2 powi (binade x - (binade x - 52))"
    unfolding q by (rule two_powi_diff)
  moreover have "binade x - (binade x - 52) = 52" by simp
  moreover have "(2::real) powi 52 = real_of_int (2 ^ 52)" by simp
  ultimately have "real_of_int (2 ^ 52) \<le> x / ulp x" by simp
  then have "rne (real_of_int (2 ^ 52)) \<le> rne (x / ulp x)" by (rule rne_mono)
  then have "2 ^ 52 \<le> rne (x / ulp x)" unfolding rne_int .
  then have "real_of_int (2 ^ 52) \<le> real_of_int (rne (x / ulp x))" by (simp only: of_int_le_iff)
  then have "2 powi 52 \<le> real_of_int (rne (x / ulp x))" by simp
  then have "2 powi 52 * ulp x \<le> rnd x"
    unfolding rnd_def by (rule mult_right_mono) simp
  moreover have "2 powi 52 * ulp x = 2 powi (52 + (binade x - 52))"
    unfolding q by (rule two_powi_add)
  moreover have "52 + (binade x - 52) = binade x" by simp
  ultimately show ?thesis by simp
qed

lemma binade_mono:
  assumes "0 < x" "x \<le> y"
  shows "binade x \<le> binade y"
proof -
  have x: "x \<noteq> 0" using assms by simp
  have "2 powi binade x \<le> \<bar>x\<bar>" by (rule binade_bounds(1)[OF x])
  then have "2 powi binade x \<le> \<bar>y\<bar>" using assms by simp
  then show ?thesis by (rule binade_ge)
qed

lemma rnd_mono_pos:
  assumes "0 < x" "x \<le> y"
  shows "rnd x \<le> rnd y"
proof -
  let ?Ex = "max (binade x) (- 1022)"
  let ?Ey = "max (binade y) (- 1022)"
  have y: "0 < y" using assms by simp
  have b: "binade x \<le> binade y" using assms by (rule binade_mono)
  show ?thesis
  proof (cases "?Ex = ?Ey")
    case True
    then have q: "ulp x = ulp y" by (simp add: ulp_def)
    have "x / ulp y \<le> y / ulp y" using assms(2) by (rule divide_right_mono) simp
    then have "rne (x / ulp y) \<le> rne (y / ulp y)" by (rule rne_mono)
    then have "real_of_int (rne (x / ulp y)) * ulp y \<le> real_of_int (rne (y / ulp y)) * ulp y"
      by (intro mult_right_mono) simp_all
    then show ?thesis unfolding rnd_def q .
  next
    case False
    then have lt: "?Ex < ?Ey" using b by (simp add: max_def split: if_splits)
    then have ny: "- 1022 \<le> binade y" "?Ey = binade y" by (simp_all add: max_def split: if_splits)
    have "rnd x \<le> 2 powi (?Ex + 1)" by (rule rnd_below_next_binade[OF assms(1)])
    also have "\<dots> \<le> 2 powi binade y"
    proof -
      have "?Ex + 1 \<le> ?Ey" using lt by linarith
      then have "?Ex + 1 \<le> binade y" unfolding ny(2) .
      then show ?thesis unfolding two_powi_le_iff .
    qed
    also have "\<dots> \<le> rnd y" by (rule rnd_above_binade[OF y ny(1)])
    finally show ?thesis .
  qed
qed

lemma rnd_mono: "x \<le> y \<Longrightarrow> rnd x \<le> rnd y"
proof -
  assume xy: "x \<le> y"
  consider "0 < x" | "x \<le> 0" "0 \<le> y" | "y < 0" by linarith
  then show ?thesis
  proof cases
    case 1
    then show ?thesis using xy by (rule rnd_mono_pos)
  next
    case 2
    then show ?thesis using rnd_nonpos[of x] rnd_nonneg[of y] by linarith
  next
    case 3
    then have "0 < - y" "- y \<le> - x" using xy by simp_all
    then have "rnd (- y) \<le> rnd (- x)" by (rule rnd_mono_pos)
    then show ?thesis by (simp add: rnd_minus)
  qed
qed


text \<open>
  A real with a significand of at most 53 bits and an exponent in range is a double;
  rounding leaves the doubles fixed, and rounding twice is rounding once.
\<close>

lemma rnd_fix:
  assumes "x / ulp x \<in> \<int>"
  shows "rnd x = x"
proof -
  obtain k where k: "x / ulp x = real_of_int k" using assms by (auto elim: Ints_cases)
  have "ulp x \<noteq> 0" using ulp_pos[of x] by linarith
  then have "x = real_of_int k * ulp x" using k by (simp add: field_simps)
  then show ?thesis unfolding rnd_def k rne_int by simp
qed

lemma two_powi_nonneg_int: "0 \<le> n \<Longrightarrow> (2::real) powi n = real_of_int (2 ^ nat n)"
  by (simp add: power_int_def)

lemma rnd_rep:
  assumes x: "x = real_of_int k * 2 powi j" and k: "\<bar>k\<bar> < 2 ^ 53" and j: "- 1074 \<le> j"
  shows "rnd x = x"
proof (cases "k = 0")
  case True
  then show ?thesis using x by simp
next
  case False
  then have x0: "x \<noteq> 0" using x by simp
  let ?E = "max (binade x) (- 1022)"
  have "real_of_int \<bar>k\<bar> < real_of_int (2 ^ 53)" using k by (simp only: of_int_less_iff)
  then have "\<bar>real_of_int k\<bar> < 2 powi 53" by simp
  then have "\<bar>real_of_int k\<bar> * 2 powi j < 2 powi 53 * 2 powi j"
    by (rule mult_strict_right_mono) simp
  then have "\<bar>x\<bar> < 2 powi (53 + j)"
    unfolding two_powi_add x by (simp add: abs_mult)
  then have "2 powi binade x < (2::real) powi (53 + j)"
    using binade_bounds(1)[OF x0] by linarith
  then have "binade x < 53 + j" unfolding two_powi_less_iff .
  then have n: "0 \<le> j - (?E - 52)" using j by simp
  have "ulp x = 2 powi (?E - 52)" by (simp add: ulp_def)
  then have "x / ulp x = real_of_int k * (2 powi j / 2 powi (?E - 52))"
    using x by simp
  also have "\<dots> = real_of_int k * 2 powi (j - (?E - 52))"
    unfolding two_powi_diff ..
  also have "\<dots> = real_of_int (k * 2 ^ nat (j - (?E - 52)))"
    unfolding two_powi_nonneg_int[OF n] by simp
  finally have "x / ulp x \<in> \<int>" by simp
  then show ?thesis by (rule rnd_fix)
qed

lemma rnd_power2: "- 1074 \<le> j \<Longrightarrow> rnd (2 powi j) = 2 powi j"
  using rnd_rep[of "2 powi j" 1 j] by simp

lemma rne_abs_le:
  assumes "\<bar>y\<bar> \<le> real_of_int n"
  shows "\<bar>rne y\<bar> \<le> n"
proof -
  have a: "y \<le> real_of_int n" and b: "real_of_int (- n) \<le> y" using assms by simp_all
  have "rne y \<le> rne (real_of_int n)" using a by (rule rne_mono)
  moreover have "rne (real_of_int (- n)) \<le> rne y" using b by (rule rne_mono)
  ultimately show ?thesis unfolding rne_int by simp
qed

lemma rnd_idem: "rnd (rnd x) = rnd x"
proof (cases "x = 0")
  case True
  then show ?thesis by simp
next
  case False
  let ?E = "max (binade x) (- 1022)"
  let ?m = "rne (x / ulp x)"
  have q: "ulp x = 2 powi (?E - 52)" by (simp add: ulp_def)
  have "\<bar>x\<bar> < 2 powi (binade x + 1)" by (rule binade_bounds(2)[OF False])
  also have "\<dots> \<le> 2 powi (?E + 1)" unfolding two_powi_le_iff by simp
  finally have "\<bar>x\<bar> \<le> 2 powi (?E + 1)" by simp
  then have "\<bar>x\<bar> / ulp x \<le> 2 powi (?E + 1) / ulp x"
    by (rule divide_right_mono) simp
  also have "2 powi (?E + 1) / ulp x = 2 powi ((?E + 1) - (?E - 52))"
    unfolding q by (rule two_powi_diff)
  also have "(?E + 1) - (?E - 52) = 53" by simp
  also have "(2::real) powi 53 = real_of_int (2 ^ 53)" by simp
  finally have "\<bar>x / ulp x\<bar> \<le> real_of_int (2 ^ 53)" by simp
  then have m: "\<bar>?m\<bar> \<le> 2 ^ 53" by (rule rne_abs_le)
  have r: "rnd x = real_of_int ?m * 2 powi (?E - 52)" unfolding rnd_def q ..
  show ?thesis
  proof (cases "\<bar>?m\<bar> < 2 ^ 53")
    case True
    show ?thesis by (rule rnd_rep[OF r True]) simp
  next
    case False
    then have "\<bar>?m\<bar> = 2 ^ 53" using m by simp
    then consider "?m = 2 ^ 53" | "?m = - (2 ^ 53)" by linarith
    then obtain s :: int where s: "?m = s * 2" "\<bar>s\<bar> < 2 ^ 53"
    proof cases
      case 1
      then show ?thesis using that[of "2 ^ 52"] by simp
    next
      case 2
      then show ?thesis using that[of "- (2 ^ 52)"] by simp
    qed
    have "rnd x = real_of_int s * (2 powi 1 * 2 powi (?E - 52))"
      unfolding r s(1) by simp
    also have "\<dots> = real_of_int s * 2 powi (1 + (?E - 52))" unfolding two_powi_add ..
    finally have r': "rnd x = real_of_int s * 2 powi (1 + (?E - 52))" .
    show ?thesis by (rule rnd_rep[OF r' s(2)]) simp
  qed
qed

text \<open>
  The rounded operations: they overflow above \<open>2^1023\<close> at the earliest, they are monotone,
  and they are evaluated by giving the binade and the rounded significand.
\<close>

lemma fl_finite:
  assumes "\<bar>x\<bar> \<le> 2 powi 1023"
  shows "fl x = Fin (rnd x)"
proof -
  have p: "rnd (2 powi 1023) = 2 powi 1023" by (rule rnd_power2) simp
  have a: "x \<le> 2 powi 1023" and b: "- (2 powi 1023) \<le> x" using assms by simp_all
  have "rnd x \<le> rnd (2 powi 1023)" using a by (rule rnd_mono)
  moreover have "rnd (- (2 powi 1023)) \<le> rnd x" using b by (rule rnd_mono)
  ultimately have "\<bar>rnd x\<bar> \<le> 2 powi 1023" unfolding rnd_minus p by simp
  also have "(2::real) powi 1023 < 2 powi 1024" unfolding two_powi_less_iff by simp
  finally have "\<not> 2 ^ 1024 \<le> \<bar>rnd x\<bar>" by simp
  then show ?thesis unfolding fl_def by simp
qed

lemma fl_cases:
  obtains (fin) "fl x = Fin (rnd x)" "\<bar>rnd x\<bar> < 2 ^ 1024"
  | (pinf) "fl x = PInf" "0 < x" "2 ^ 1024 \<le> rnd x"
  | (ninf) "fl x = NInf" "x < 0" "rnd x \<le> - (2 ^ 1024)"
proof (cases "2 ^ 1024 \<le> \<bar>rnd x\<bar>")
  case False
  then show ?thesis using fin by (simp add: fl_def)
next
  case True
  show ?thesis
  proof (cases "0 < x")
    case p: True
    then have "0 \<le> rnd x" using rnd_nonneg[of x] by simp
    then show ?thesis using pinf True p by (simp add: fl_def)
  next
    case n: False
    then have r: "rnd x \<le> 0" using rnd_nonpos[of x] by simp
    have "x \<noteq> 0" using True by auto
    then show ?thesis using ninf True n r by (simp add: fl_def)
  qed
qed

lemma fl_mono:
  assumes "x \<le> y"
  shows "fl x \<le> fl y"
proof -
  have r: "rnd x \<le> rnd y" using assms by (rule rnd_mono)
  show ?thesis
  proof (cases x rule: fl_cases)
    case fin
    show ?thesis
    proof (cases y rule: fl_cases)
      case fin
      then show ?thesis using \<open>fl x = Fin (rnd x)\<close> r by simp
    next
      case pinf
      then show ?thesis using \<open>fl x = Fin (rnd x)\<close> by (simp add: less_eq_number_def)
    next
      case ninf
      then show ?thesis using fin r by simp
    qed
  next
    case pinf
    show ?thesis
    proof (cases y rule: fl_cases)
      case fin
      then show ?thesis using pinf r by simp
    next
      case pinf
      then show ?thesis using \<open>fl x = PInf\<close> by (simp add: less_eq_number_def)
    next
      case ninf
      then show ?thesis using pinf assms by simp
    qed
  next
    case ninf
    then show ?thesis
      by (cases "fl y") (simp_all add: less_eq_number_def fl_def split: if_splits)
  qed
qed

lemma fl_eqI:
  assumes lo: "2 powi e \<le> \<bar>x\<bar>" and hi: "\<bar>x\<bar> < 2 powi (e + 1)"
    and e: "- 1022 \<le> e" "e \<le> 1022"
    and k: "rne (x / 2 powi (e - 52)) = k"
  shows "fl x = Fin (real_of_int k * 2 powi (e - 52))"
proof -
  have b: "binade x = e" using lo hi by (rule binade_eqI)
  have q: "ulp x = 2 powi (e - 52)" using e by (simp add: ulp_def b max_def)
  have "\<bar>x\<bar> < 2 powi (e + 1)" by (rule hi)
  also have "\<dots> \<le> 2 powi 1023" unfolding two_powi_le_iff using e by simp
  finally have "\<bar>x\<bar> \<le> 2 powi 1023" by simp
  then have "fl x = Fin (rnd x)" by (rule fl_finite)
  then show ?thesis unfolding rnd_def q k .
qed

lemma fl_0 [simp]: "fl 0 = Fin 0"
  using fl_finite[of 0] by simp

lemma fl_not_NaN [simp]: "fl x \<noteq> NaN"
  by (simp add: fl_def)

lemma fl_nonneg: "0 \<le> x \<Longrightarrow> Fin 0 \<le> fl x"
  using fl_mono[of 0 x] by simp

lemma fl_pos_imp: "Fin 0 < fl x \<Longrightarrow> 0 < x"
proof (rule ccontr)
  assume p: "Fin 0 < fl x" and "\<not> 0 < x"
  then have "x \<le> 0" by simp
  then have "fl x \<le> fl 0" by (rule fl_mono)
  then show False using p by (cases "fl x") (simp_all add: less_number_def less_eq_number_def)
qed

lemma number_le_not_less:
  fixes a b :: number
  shows "a \<le> b \<Longrightarrow> \<not> b < a"
  by (cases a; cases b) (simp_all add: less_number_def less_eq_number_def)

lemma number_less_not_le:
  fixes a b :: number
  shows "a < b \<Longrightarrow> \<not> b \<le> a"
  by (cases a; cases b) (simp_all add: less_number_def less_eq_number_def)

lemma fdiv_antimono:
  assumes p: "0 \<le> p" and d1: "Fin 0 < d1" and d: "d1 \<le> d2"
  shows "fdiv (Fin p) d2 \<le> fdiv (Fin p) d1"
proof (cases d1)
  case (Fin a)
  then have a: "0 < a" using d1 by simp
  show ?thesis
  proof (cases d2)
    case b: (Fin b)
    then have ab: "a \<le> b" using d Fin by simp
    then have "p / b \<le> p / a" using a p by (simp add: frac_le)
    then have "fl (p / b) \<le> fl (p / a)" by (rule fl_mono)
    then show ?thesis using Fin b a ab by simp
  next
    case PInf
    have "Fin 0 \<le> fl (p / a)" using p a by (intro fl_nonneg) simp
    then show ?thesis using Fin PInf a by (simp add: divide_number_def)
  next
    case NInf
    then show ?thesis using d Fin by (simp add: less_eq_number_def)
  next
    case NaN
    then show ?thesis using d Fin by (simp add: less_eq_number_def)
  qed
next
  case PInf
  then have "d2 = PInf" using d by (cases d2) (simp_all add: less_eq_number_def)
  then show ?thesis using PInf by (simp add: divide_number_def)
next
  case NInf
  then show ?thesis using d1 by (simp add: less_number_def)
next
  case NaN
  then show ?thesis using d1 by (simp add: less_number_def)
qed

lemma fmul_mono_left:
  assumes xy: "x \<le> y" and e: "0 < e"
  shows "fmul x (Fin e) \<le> fmul y (Fin e)"
proof (cases x)
  case (Fin a)
  show ?thesis
  proof (cases y)
    case b: (Fin b)
    then have "a * e \<le> b * e" using xy Fin e by simp
    then have "fl (a * e) \<le> fl (b * e)" by (rule fl_mono)
    then show ?thesis using Fin b by simp
  next
    case PInf
    then show ?thesis using Fin e
      by (cases "fl (a * e)") (simp_all add: times_number_def inf_of_sign_def less_eq_number_def)
  next
    case NInf
    then show ?thesis using xy Fin by (simp add: less_eq_number_def)
  next
    case NaN
    then show ?thesis using xy Fin by (simp add: less_eq_number_def)
  qed
next
  case PInf
  then have "y = PInf" using xy by (cases y) (simp_all add: less_eq_number_def)
  then show ?thesis using PInf e by (simp add: times_number_def inf_of_sign_def less_eq_number_def)
next
  case NInf
  have "y \<noteq> NaN" using xy NInf by (cases y) (simp_all add: less_eq_number_def)
  then have "fmul y (Fin e) \<noteq> NaN" using e
    by (cases y) (simp_all add: times_number_def inf_of_sign_def)
  then show ?thesis using NInf e
    by (cases "fmul y (Fin e)") (simp_all add: times_number_def inf_of_sign_def less_eq_number_def)
next
  case NaN
  then show ?thesis using xy by (simp add: less_eq_number_def)
qed

text \<open>
  Sums, products and quotients of quantities that are zero or between two powers of two
  stay so, and rounding them is exact up to a relative \<open>2^(-53)\<close>.
\<close>

lemma zb_nonneg: "zero_or_between l h x \<Longrightarrow> 0 \<le> x"
proof -
  assume "zero_or_between l h x"
  moreover have "(0::real) < 2 powi l" by simp
  ultimately show ?thesis unfolding zero_or_between_def by linarith
qed

lemma zb_add:
  assumes "zero_or_between l h x" "zero_or_between l h y"
  shows "zero_or_between l (h + 1) (x + y)"
proof -
  have p: "(2::real) powi (h + 1) = 2 * 2 powi h" by (simp add: power_int_add)
  have h: "(2::real) powi h \<le> 2 powi (h + 1)" unfolding two_powi_le_iff by simp
  have x0: "0 \<le> x" and y0: "0 \<le> y" using assms by (auto dest: zb_nonneg)
  have hx: "x \<le> 2 powi h" and hy: "y \<le> 2 powi h"
    using assms unfolding zero_or_between_def by auto
  have up: "x + y \<le> 2 powi (h + 1)" unfolding p using hx hy by linarith
  show ?thesis
  proof (cases "x = 0 \<and> y = 0")
    case True
    then show ?thesis by (simp add: zero_or_between_def)
  next
    case False
    then have "2 powi l \<le> x \<or> 2 powi l \<le> y"
      using assms unfolding zero_or_between_def by auto
    then have "2 powi l \<le> x + y" using x0 y0 by linarith
    then show ?thesis using up by (simp add: zero_or_between_def)
  qed
qed

lemma zb_mul:
  assumes "zero_or_between l1 h1 x" "zero_or_between l2 h2 y"
  shows "zero_or_between (l1 + l2) (h1 + h2) (x * y)"
proof (cases "x = 0 \<or> y = 0")
  case True
  then show ?thesis by (auto simp add: zero_or_between_def)
next
  case False
  then have x: "2 powi l1 \<le> x" "x \<le> 2 powi h1" and y: "2 powi l2 \<le> y" "y \<le> 2 powi h2"
    using assms unfolding zero_or_between_def by auto
  have "2 powi l1 * 2 powi l2 \<le> x * y"
    by (rule mult_mono[OF x(1) y(1)]) (use x(1) in \<open>simp_all add: order_trans[rotated]\<close>)
  moreover have "x * y \<le> 2 powi h1 * 2 powi h2"
    by (rule mult_mono[OF x(2) y(2)]) (use y(1) in \<open>simp_all add: order_trans[rotated]\<close>)
  ultimately show ?thesis unfolding two_powi_add by (simp add: zero_or_between_def)
qed

lemma zb_div:
  assumes "zero_or_between l1 h1 x" "2 powi l2 \<le> y" "y \<le> 2 powi h2"
  shows "zero_or_between (l1 - h2) (h1 - l2) (x / y)"
proof -
  have pl: "(0::real) < 2 powi l2" by simp
  then have y0: "0 < y" using assms(2) by linarith
  have iy: "zero_or_between (- h2) (- l2) (1 / y)"
  proof -
    have "1 / 2 powi h2 \<le> 1 / y" using assms(3) y0 by (simp add: frac_le)
    moreover have "1 / y \<le> 1 / 2 powi l2" using assms(2) pl by (simp add: frac_le)
    ultimately show ?thesis
      by (simp add: zero_or_between_def power_int_minus divide_inverse)
  qed
  have "zero_or_between (l1 + - h2) (h1 + - l2) (x * (1 / y))"
    using assms(1) iy by (rule zb_mul)
  then show ?thesis by simp
qed

lemma zb_rnd:
  assumes z: "zero_or_between l h x" and l: "- 1000 \<le> l" and h: "h \<le> 1000"
  shows "zero_or_between l h (rnd x)" and "fl x = Fin (rnd x)"
    and "x * (1 - 1 / 2 ^ 53) \<le> rnd x" and "rnd x \<le> x * (1 + 1 / 2 ^ 53)"
proof -
  have x0: "0 \<le> x" using z by (rule zb_nonneg)
  have up: "x \<le> 2 powi h" using z unfolding zero_or_between_def by auto
  have "(2::real) powi h \<le> 2 powi 1023" unfolding two_powi_le_iff using h by simp
  then have "\<bar>x\<bar> \<le> 2 powi 1023" using up x0 by simp
  then show "fl x = Fin (rnd x)" by (rule fl_finite)
  show "zero_or_between l h (rnd x)"
  proof (cases "x = 0")
    case True
    then show ?thesis by (simp add: zero_or_between_def)
  next
    case False
    then have lo: "2 powi l \<le> x" using z unfolding zero_or_between_def by auto
    have "rnd (2 powi l) \<le> rnd x" using lo by (rule rnd_mono)
    moreover have "rnd x \<le> rnd (2 powi h)" using up by (rule rnd_mono)
    moreover have "2 powi l \<le> (2::real) powi h" using lo up by linarith
    then have "l \<le> h" unfolding two_powi_le_iff .
    then have "rnd (2 powi l) = 2 powi l" "rnd (2 powi h) = 2 powi h"
      using l by (simp_all add: rnd_power2)
    ultimately show ?thesis by (simp add: zero_or_between_def)
  qed
  show "x * (1 - 1 / 2 ^ 53) \<le> rnd x" "rnd x \<le> x * (1 + 1 / 2 ^ 53)"
  proof -
    have "\<bar>rnd x - x\<bar> \<le> x / 2 ^ 53"
    proof (cases "x = 0")
      case True
      then show ?thesis by simp
    next
      case False
      then have lo: "2 powi l \<le> x" using z unfolding zero_or_between_def by auto
      have "(2::real) powi (- 1022) \<le> 2 powi l" unfolding two_powi_le_iff using l by simp
      then have "2 powi (- 1022) \<le> \<bar>x\<bar>" using lo by linarith
      then have "\<bar>rnd x - x\<bar> \<le> \<bar>x\<bar> / 2 ^ 53" by (rule rnd_rel)
      then show ?thesis using x0 by simp
    qed
    then have "rnd x - x \<le> x / 2 ^ 53" "- (x / 2 ^ 53) \<le> rnd x - x"
      by (simp_all only: abs_le_iff) linarith+
    then show "x * (1 - 1 / 2 ^ 53) \<le> rnd x" "rnd x \<le> x * (1 + 1 / 2 ^ 53)"
      by (simp_all add: algebra_simps)
  qed
qed

lemma fl_rep: "fl x = Fin r \<Longrightarrow> rnd r = r"
  by (auto simp add: fl_def rnd_idem split: if_splits)

lemma fadd_rep: "fadd x y = Fin r \<Longrightarrow> rnd r = r"
  by (cases x; cases y) (auto simp add: plus_number_def dest: fl_rep)

lemma fmul_rep: "fmul x y = Fin r \<Longrightarrow> rnd r = r"
  by (cases x; cases y)
    (auto simp add: times_number_def inf_of_sign_def dest: fl_rep split: if_splits)

lemma rnd_1 [simp]: "rnd 1 = 1"
  using rnd_power2[of 0] by simp

section \<open>Decimal literals\<close>

text \<open>The doubles that the decimal literals of the examples denote.\<close>

lemma dbl_1_15: "dbl 1.15 = Fin 1.149999999999999911182158029987476766109466552734375"
  using fl_eqI[of 0 "1.15" 5179139571476070] by (simp add: rne_def dbl_def)

lemma dbl_0_85: "dbl 0.85 = Fin 0.84999999999999997779553950749686919152736663818359375"
  using fl_eqI[of "- 1" "0.85" 7656119366529843] by (simp add: rne_def dbl_def)

lemma dbl_115_01: "dbl 115.01 = Fin 115.0100000000000051159076974727213382720947265625"
  using fl_eqI[of 6 "115.01" 8093109267873137] by (simp add: rne_def dbl_def)

lemma dbl_114_99: "dbl 114.99 = Fin 114.9899999999999948840923025272786617279052734375"
  using fl_eqI[of 6 "114.99" 8091701892989583] by (simp add: rne_def dbl_def)

lemma dbl_0_001: "dbl 0.001 = Fin 0.001000000000000000020816681711721685132943093776702880859375"
  using fl_eqI[of "- 10" "0.001" 4611686018427388] by (simp add: rne_def dbl_def)

lemma dbl_0_2: "dbl 0.2 = Fin 0.200000000000000011102230246251565404236316680908203125"
  using fl_eqI[of "- 3" "0.2" 7205759403792794] by (simp add: rne_def dbl_def)

lemma dbl_0_025: "dbl 0.025 = Fin 0.025000000000000001387778780781445675529539585113525390625"
  using fl_eqI[of "- 6" "0.025" 7205759403792794] by (simp add: rne_def dbl_def)

lemma dbl_0_05: "dbl 0.05 = Fin 0.05000000000000000277555756156289135105907917022705078125"
  using fl_eqI[of "- 5" "0.05" 7205759403792794] by (simp add: rne_def dbl_def)

lemma dbl_0_08: "dbl 0.08 = Fin 0.08000000000000000166533453693773481063544750213623046875"
  using fl_eqI[of "- 4" "0.08" 5764607523034235] by (simp add: rne_def dbl_def)

lemma dbl_0_011: "dbl 0.011 = Fin 0.0109999999999999993616217608405349892564117908477783203125"
  using fl_eqI[of "- 7" "0.011" 6341068275337658] by (simp add: rne_def dbl_def)

lemma dbl_0_013: "dbl 0.013 = Fin 0.01299999999999999940325512426397835952229797840118408203125"
  using fl_eqI[of "- 7" "0.013" 7493989779944505] by (simp add: rne_def dbl_def)

lemma dbl_0_11: "dbl 0.11 = Fin 0.11000000000000000055511151231257827021181583404541015625"
  using fl_eqI[of "- 4" "0.11" 7926335344172073] by (simp add: rne_def dbl_def)

lemma dbl_0_12: "dbl 0.12 = Fin 0.11999999999999999555910790149937383830547332763671875"
  using fl_eqI[of "- 4" "0.12" 8646911284551352] by (simp add: rne_def dbl_def)

lemma dbl_0_04: "dbl 0.04 = Fin 0.040000000000000000832667268468867405317723751068115234375"
  using fl_eqI[of "- 5" "0.04" 5764607523034235] by (simp add: rne_def dbl_def)

lemma dbl_0_06: "dbl 0.06 = Fin 0.059999999999999997779553950749686919152736663818359375"
  using fl_eqI[of "- 5" "0.06" 8646911284551352] by (simp add: rne_def dbl_def)

lemma dbl_0_125: "dbl 0.125 = Fin 0.125"
  using fl_eqI[of "- 3" "0.125" 4503599627370496] by (simp add: rne_def dbl_def)

lemma dbl_0_043: "dbl 0.043 = Fin 0.04299999999999999655830862366201472468674182891845703125"
  using fl_eqI[of "- 5" "0.043" 6196953087261802] by (simp add: rne_def dbl_def)

lemma dbl_1_2: "dbl 1.2 = Fin 1.1999999999999999555910790149937383830547332763671875"
  using fl_eqI[of 0 "1.2" 5404319552844595] by (simp add: rne_def dbl_def)

lemma dbl_0_055: "dbl 0.055 = Fin 0.055000000000000000277555756156289135105907917022705078125"
  using fl_eqI[of "- 5" "0.055" 7926335344172073] by (simp add: rne_def dbl_def)

lemma dbl_0_25: "dbl 0.25 = Fin 0.25"
  using fl_eqI[of "- 2" "0.25" 4503599627370496] by (simp add: rne_def dbl_def)

section \<open>Signal classification\<close>

lemma mul_100_1_15: "fmul (Fin 100) (Fin 1.149999999999999911182158029987476766109466552734375) = Fin 114.9999999999999857891452847979962825775146484375"
  using fl_eqI[of 6 "100 * 1.149999999999999911182158029987476766109466552734375" 8092405580431359] by (simp add: rne_def dbl_def)

lemma mul_100_0_85: "fmul (Fin 100) (Fin 0.84999999999999997779553950749686919152736663818359375) = Fin 85"
  using fl_eqI[of 6 "100 * 0.84999999999999997779553950749686919152736663818359375" 5981343255101440] by (simp add: rne_def dbl_def)

lemma number_less_le_not:
  fixes a b c :: number
  shows "a < b \<Longrightarrow> b \<le> c \<Longrightarrow> \<not> c < a"
  by (cases a; cases b; cases c) (simp_all add: less_number_def less_eq_number_def)

text \<open>The lower threshold is at most the upper one, since rounding is monotone.\<close>

lemma thresholds_ordered:
  assumes "0 < market"
  shows "fmul market (dbl 0.85) \<le> fmul market (dbl 1.15)"
proof (cases market)
  case (Fin m)
  then have m: "0 < m" using assms by simp
  have "m * 0.84999999999999997779553950749686919152736663818359375
          \<le> m * 1.149999999999999911182158029987476766109466552734375"
    using m by simp
  then have "fl (m * 0.84999999999999997779553950749686919152736663818359375)
          \<le> fl (m * 1.149999999999999911182158029987476766109466552734375)"
    by (rule fl_mono)
  then show ?thesis unfolding Fin dbl_0_85 dbl_1_15 fmul.simps .
next
  case PInf
  show ?thesis unfolding PInf dbl_0_85 dbl_1_15
    by (simp add: times_number_def inf_of_sign_def less_eq_number_def)
next
  case NInf
  then show ?thesis using assms by (simp add: less_number_def)
next
  case NaN
  then show ?thesis using assms by (simp add: less_number_def)
qed

lemma positive_market:
  assumes "0 < market"
  shows "truthy market" "\<not> market \<le> 0"
  using assms by (cases market; simp add: less_number_def less_eq_number_def)+

lemma thresholds_100:
  "fmul (Fin 100) (dbl 1.15) = Fin 114.9999999999999857891452847979962825775146484375"
  "fmul (Fin 100) (dbl 0.85) = Fin 85"
  by (simp_all only: dbl_1_15 dbl_0_85 mul_100_1_15 mul_100_0_85)

text \<open>
  Claim C6. \<open>assignSignal\<close> returns "N/A" exactly for a market price that is at most zero
  or is \<open>NaN\<close> (the guard \<open>!market\<close>). For every positive market price it returns "BUY"
  exactly when the intrinsic value exceeds the market price times 1.15, "SELL" exactly
  when it is below the market price times 0.85, and "HOLD" exactly when neither holds,
  the two products being those of the code, in double precision. The three examples of
  the specification evaluate as stated, for the doubles nearest to 115.01 and 114.99.
\<close>

theorem assignSignal_spec:
  "(assignSignal intrinsic market = NA \<longleftrightarrow> market \<le> 0 \<or> market = NaN) \<and>
   (0 < market \<longrightarrow>
      (assignSignal intrinsic market = BUY \<longleftrightarrow> intrinsic > fmul market (dbl 1.15)) \<and>
      (assignSignal intrinsic market = SELL \<longleftrightarrow> intrinsic < fmul market (dbl 0.85)) \<and>
      (assignSignal intrinsic market = HOLD \<longleftrightarrow>
         \<not> intrinsic > fmul market (dbl 1.15) \<and> \<not> intrinsic < fmul market (dbl 0.85))) \<and>
   assignSignal (dbl 115.01) (Fin 100) = BUY \<and>
   assignSignal (dbl 114.99) (Fin 100) = HOLD \<and>
   assignSignal (Fin 100) (Fin 0) = NA"
proof -
  have guard: "\<not> truthy market \<or> market \<le> 0 \<longleftrightarrow> market \<le> 0 \<or> market = NaN"
    by (cases market) (auto simp add: less_eq_number_def)
  have na: "assignSignal intrinsic market = NA \<longleftrightarrow> market \<le> 0 \<or> market = NaN"
    unfolding guard[symmetric] by (simp add: assignSignal_def)
  have pos: "0 < market \<longrightarrow>
      (assignSignal intrinsic market = BUY \<longleftrightarrow> intrinsic > fmul market (dbl 1.15)) \<and>
      (assignSignal intrinsic market = SELL \<longleftrightarrow> intrinsic < fmul market (dbl 0.85)) \<and>
      (assignSignal intrinsic market = HOLD \<longleftrightarrow>
         \<not> intrinsic > fmul market (dbl 1.15) \<and> \<not> intrinsic < fmul market (dbl 0.85))"
  proof
    assume m: "0 < market"
    have excl: "\<not> fmul market (dbl 1.15) < intrinsic" if "intrinsic < fmul market (dbl 0.85)"
      using that thresholds_ordered[OF m] by (rule number_less_le_not)
    show "(assignSignal intrinsic market = BUY \<longleftrightarrow> intrinsic > fmul market (dbl 1.15)) \<and>
      (assignSignal intrinsic market = SELL \<longleftrightarrow> intrinsic < fmul market (dbl 0.85)) \<and>
      (assignSignal intrinsic market = HOLD \<longleftrightarrow>
         \<not> intrinsic > fmul market (dbl 1.15) \<and> \<not> intrinsic < fmul market (dbl 0.85))"
      using positive_market[OF m] excl by (auto simp add: assignSignal_def)
  qed
  have ex1: "assignSignal (dbl 115.01) (Fin 100) = BUY"
    unfolding assignSignal_def thresholds_100 dbl_115_01 by simp
  have ex2: "assignSignal (dbl 114.99) (Fin 100) = HOLD"
    unfolding assignSignal_def thresholds_100 dbl_114_99 by simp
  have ex3: "assignSignal (Fin 100) (Fin 0) = NA"
    by (simp add: assignSignal_def)
  show ?thesis by (intro conjI na pos ex1 ex2 ex3)
qed

text \<open>
  At the edge of the band the product is rounded: 100 times 1.15 is just below 115 in
  double precision, so an intrinsic value of 115 against a market price of 100 is a
  "BUY".
\<close>

theorem assignSignal_spec_witness:
  "0 < Fin 100 \<and>
   fmul (Fin 100) (dbl 1.15) = Fin 114.9999999999999857891452847979962825775146484375 \<and>
   Fin 115 > fmul (Fin 100) (dbl 1.15) \<and>
   assignSignal (Fin 115) (Fin 100) = BUY \<and>
   assignSignal (Fin 85) (Fin 100) = HOLD \<and>
   assignSignal (Fin 100) NaN = NA"
proof -
  have m: "0 < Fin 100" by simp
  have gt: "Fin 115 > fmul (Fin 100) (dbl 1.15)" unfolding thresholds_100 by simp
  have buy: "assignSignal (Fin 115) (Fin 100) = BUY"
    using assignSignal_spec[of "Fin 115" "Fin 100"] m gt by blast
  have "\<not> Fin 85 > fmul (Fin 100) (dbl 1.15)" "\<not> Fin 85 < fmul (Fin 100) (dbl 0.85)"
    unfolding thresholds_100 by simp_all
  then have hold: "assignSignal (Fin 85) (Fin 100) = HOLD"
    using assignSignal_spec[of "Fin 85" "Fin 100"] m by blast
  have na: "assignSignal (Fin 100) NaN = NA"
    using assignSignal_spec[of "Fin 100" NaN] by blast
  show ?thesis using m thresholds_100(1) gt buy hold na by blast
qed

section \<open>CAPM and WACC\<close>

text \<open>
  The error analysis of the weighted average, on the reals: each of the five operations
  is exact up to a relative \<open>u = 2^(-53)\<close>; the two weights sum to 1 up to \<open>(1+u)/(1-u)\<close>,
  so the average of two non-negative costs stays within \<open>(1+u)^3/(1-u)\<close> of the
  interval they span.
\<close>

lemma band_upper_const: "(1 + 1 / 2 ^ 53) ^ 3 \<le> (1 + 1 / 2 ^ 50) * (1 - 1 / 2 ^ 53 :: real)"
  by (simp add: power3_eq_cube)

lemma band_lower_const: "(1 - 1 / 2 ^ 50) * (1 + 1 / 2 ^ 53) \<le> (1 - 1 / 2 ^ 53 :: real) ^ 3"
  by (simp add: power3_eq_cube)

lemma wacc_band_real:
  fixes E D v a b p1 p2 x ke kdat u :: real
  assumes u: "u = 1 / 2 ^ 53"
    and E: "0 \<le> E" and D: "0 \<le> D" and ED: "0 < E + D"
    and ke: "0 \<le> ke" and kdat: "0 \<le> kdat"
    and v: "(E + D) * (1 - u) \<le> v" "v \<le> (E + D) * (1 + u)"
    and a: "E / v * (1 - u) \<le> a" "a \<le> E / v * (1 + u)"
    and b: "D / v * (1 - u) \<le> b" "b \<le> D / v * (1 + u)"
    and p1: "a * ke * (1 - u) \<le> p1" "p1 \<le> a * ke * (1 + u)"
    and p2: "b * kdat * (1 - u) \<le> p2" "p2 \<le> b * kdat * (1 + u)"
    and x: "(p1 + p2) * (1 - u) \<le> x" "x \<le> (p1 + p2) * (1 + u)"
  shows "min kdat ke * (1 - 1 / 2 ^ 50) \<le> x \<and> x \<le> max kdat ke * (1 + 1 / 2 ^ 50)"
proof -
  let ?hi = "max kdat ke" and ?lo = "min kdat ke"
  have u0: "0 < u" "u < 1" "0 < 1 - u" "0 < 1 + u" unfolding u by simp_all
  have "0 < (E + D) * (1 - u)" using ED u0(3) by (rule mult_pos_pos)
  then have v0: "0 < v" using v(1) by linarith
  have "0 \<le> E / v * (1 - u)" using E v0 u0(3) by simp
  then have a0: "0 \<le> a" using a(1) by linarith
  have "0 \<le> D / v * (1 - u)" using D v0 u0(3) by simp
  then have b0: "0 \<le> b" using b(1) by linarith
  have lo0: "0 \<le> ?lo" and hi0: "0 \<le> ?hi" using ke kdat by simp_all
  have q_hi: "(E + D) / v \<le> 1 / (1 - u)"
  proof -
    have "(E + D) * (1 - u) \<le> v * 1" using v(1) by simp
    then show ?thesis using v0 u0(3) by (simp add: field_simps)
  qed
  have q_lo: "1 / (1 + u) \<le> (E + D) / v"
  proof -
    have "v * 1 \<le> (E + D) * (1 + u)" using v(2) by simp
    then show ?thesis using v0 u0(4) by (simp add: field_simps)
  qed
  have s_hi: "a + b \<le> (1 + u) / (1 - u)"
  proof -
    have "a + b \<le> E / v * (1 + u) + D / v * (1 + u)" using a(2) b(2) by simp
    also have "\<dots> = (E + D) / v * (1 + u)" by (simp add: algebra_simps add_divide_distrib)
    also have "\<dots> \<le> 1 / (1 - u) * (1 + u)"
      by (rule mult_right_mono[OF q_hi]) (use u0 in simp)
    finally show ?thesis by simp
  qed
  have s_lo: "(1 - u) / (1 + u) \<le> a + b"
  proof -
    have "1 / (1 + u) * (1 - u) \<le> (E + D) / v * (1 - u)"
      by (rule mult_right_mono[OF q_lo]) (use u0 in simp)
    also have "\<dots> = E / v * (1 - u) + D / v * (1 - u)"
      by (simp add: algebra_simps add_divide_distrib)
    also have "\<dots> \<le> a + b" using a(1) b(1) by simp
    finally show ?thesis by simp
  qed
  have c_hi: "a * ke + b * kdat \<le> ?hi * (a + b)"
  proof -
    have "a * ke \<le> a * ?hi" by (rule mult_left_mono) (use a0 in simp_all)
    moreover have "b * kdat \<le> b * ?hi" by (rule mult_left_mono) (use b0 in simp_all)
    ultimately show ?thesis by (simp add: algebra_simps)
  qed
  have c_lo: "?lo * (a + b) \<le> a * ke + b * kdat"
  proof -
    have "a * ?lo \<le> a * ke" by (rule mult_left_mono) (use a0 in simp_all)
    moreover have "b * ?lo \<le> b * kdat" by (rule mult_left_mono) (use b0 in simp_all)
    ultimately show ?thesis by (simp add: algebra_simps)
  qed
  have c0: "0 \<le> a * ke + b * kdat" using a0 b0 ke kdat by simp
  have p_hi: "p1 + p2 \<le> (a * ke + b * kdat) * (1 + u)"
    using p1(2) p2(2) by (simp add: algebra_simps)
  have p_lo: "(a * ke + b * kdat) * (1 - u) \<le> p1 + p2"
    using p1(1) p2(1) by (simp add: algebra_simps)
  have p0: "0 \<le> p1 + p2"
  proof -
    have "0 \<le> (a * ke + b * kdat) * (1 - u)" using c0 u0(3) by simp
    then show ?thesis using p_lo by linarith
  qed
  have upper: "x \<le> ?hi * (1 + 1 / 2 ^ 50)"
  proof -
    have "x \<le> (p1 + p2) * (1 + u)" by (rule x(2))
    also have "\<dots> \<le> ((a * ke + b * kdat) * (1 + u)) * (1 + u)"
      by (rule mult_right_mono[OF p_hi]) (use u0 in simp)
    also have "\<dots> \<le> ((?hi * (a + b)) * (1 + u)) * (1 + u)"
      by (intro mult_right_mono c_hi) (use u0 in simp_all)
    also have "\<dots> = ?hi * ((a + b) * (1 + u) ^ 2)" by (simp add: power2_eq_square)
    also have "\<dots> \<le> ?hi * ((1 + u) / (1 - u) * (1 + u) ^ 2)"
      by (intro mult_left_mono mult_right_mono s_hi hi0) simp
    also have "(1 + u) / (1 - u) * (1 + u) ^ 2 = (1 + u) ^ 3 / (1 - u)"
      by (simp add: power2_eq_square power3_eq_cube)
    also have "?hi * ((1 + u) ^ 3 / (1 - u)) \<le> ?hi * (1 + 1 / 2 ^ 50)"
    proof (rule mult_left_mono[OF _ hi0])
      have "(1 + u) ^ 3 \<le> (1 + 1 / 2 ^ 50) * (1 - u)" unfolding u by (rule band_upper_const)
      then show "(1 + u) ^ 3 / (1 - u) \<le> 1 + 1 / 2 ^ 50"
        using u0(3) by (simp add: field_simps)
    qed
    finally show ?thesis .
  qed
  have lower: "?lo * (1 - 1 / 2 ^ 50) \<le> x"
  proof -
    have k: "(1 - 1 / 2 ^ 50) \<le> (1 - u) ^ 3 / (1 + u)"
    proof -
      have "(1 - 1 / 2 ^ 50) * (1 + u) \<le> (1 - u) ^ 3" unfolding u by (rule band_lower_const)
      then show ?thesis using u0(4) by (simp add: field_simps)
    qed
    have "?lo * (1 - 1 / 2 ^ 50) \<le> ?lo * ((1 - u) ^ 3 / (1 + u))"
      by (rule mult_left_mono[OF k lo0])
    also have "(1 - u) ^ 3 / (1 + u) = (1 - u) / (1 + u) * (1 - u) ^ 2"
      by (simp add: power2_eq_square power3_eq_cube)
    also have "?lo * ((1 - u) / (1 + u) * (1 - u) ^ 2) \<le> ?lo * ((a + b) * (1 - u) ^ 2)"
      by (intro mult_left_mono mult_right_mono s_lo lo0) simp
    also have "\<dots> = ((?lo * (a + b)) * (1 - u)) * (1 - u)" by (simp add: power2_eq_square)
    also have "\<dots> \<le> ((a * ke + b * kdat) * (1 - u)) * (1 - u)"
      by (intro mult_right_mono c_lo) (use u0 in simp_all)
    also have "\<dots> \<le> (p1 + p2) * (1 - u)"
      by (rule mult_right_mono[OF p_lo]) (use u0 in simp)
    also have "\<dots> \<le> x" by (rule x(1))
    finally show ?thesis .
  qed
  show ?thesis using lower upper by simp
qed

lemma computeWACC_fields:
  "w_ke (computeWACC rf beta erp kd T E D) = fadd rf (fmul beta erp)"
  "w_kd_after_tax (computeWACC rf beta erp kd T E D) = fmul kd (fsub 1 T)"
  by (simp_all add: computeWACC_def Let_def)

lemma computeWACC_wacc:
  "w_wacc (computeWACC rf beta erp kd T E D) =
     (if fadd E D \<le> 0 then fadd rf (fmul beta erp)
      else fadd (fmul (fdiv E (fadd E D)) (fadd rf (fmul beta erp)))
                (fmul (fdiv D (fadd E D)) (fmul kd (fsub 1 T))))"
  by (simp add: computeWACC_def Let_def)

lemma wacc_no_debt:
  assumes mE: "moderate E" and E: "0 < E" and rE: "rnd E = E"
    and mke: "moderate ke" and rke: "rnd ke = ke" and mkd: "moderate kdat"
  shows "\<not> fadd (Fin E) (Fin 0) \<le> 0"
    and "fadd (fmul (fdiv (Fin E) (fadd (Fin E) (Fin 0))) (Fin ke))
              (fmul (fdiv (Fin 0) (fadd (Fin E) (Fin 0))) (Fin kdat)) = Fin ke"
proof -
  have V: "fadd (Fin E) (Fin 0) = Fin E"
    using zb_rnd(2)[OF mE[unfolded moderate_def]] rE by simp
  show "\<not> fadd (Fin E) (Fin 0) \<le> 0" unfolding V using E by simp
  have a: "fdiv (Fin E) (Fin E) = Fin 1"
    using E fl_finite[of 1] by simp
  have b: "fdiv (Fin 0) (Fin E) = Fin 0" using E by simp
  have k: "fl ke = Fin ke"
    using zb_rnd(2)[OF mke[unfolded moderate_def]] rke by simp
  show "fadd (fmul (fdiv (Fin E) (fadd (Fin E) (Fin 0))) (Fin ke))
              (fmul (fdiv (Fin 0) (fadd (Fin E) (Fin 0))) (Fin kdat)) = Fin ke"
    unfolding V a b by (simp add: k)
qed

lemma wacc_no_equity:
  assumes mD: "moderate D" and D: "0 < D" and rD: "rnd D = D"
    and mkd: "moderate kdat" and rkd: "rnd kdat = kdat"
  shows "\<not> fadd (Fin 0) (Fin D) \<le> 0"
    and "fadd (fmul (fdiv (Fin 0) (fadd (Fin 0) (Fin D))) (Fin ke))
              (fmul (fdiv (Fin D) (fadd (Fin 0) (Fin D))) (Fin kdat)) = Fin kdat"
proof -
  have V: "fadd (Fin 0) (Fin D) = Fin D"
    using zb_rnd(2)[OF mD[unfolded moderate_def]] rD by simp
  show "\<not> fadd (Fin 0) (Fin D) \<le> 0" unfolding V using D by simp
  have a: "fdiv (Fin D) (Fin D) = Fin 1"
    using D fl_finite[of 1] by simp
  have b: "fdiv (Fin 0) (Fin D) = Fin 0" using D by simp
  have k: "fl kdat = Fin kdat"
    using zb_rnd(2)[OF mkd[unfolded moderate_def]] rkd by simp
  show "fadd (fmul (fdiv (Fin 0) (fadd (Fin 0) (Fin D))) (Fin ke))
              (fmul (fdiv (Fin D) (fadd (Fin 0) (Fin D))) (Fin kdat)) = Fin kdat"
    unfolding V a b by (simp add: k)
qed

lemma wacc_weighted:
  assumes mE: "moderate E" and mD: "moderate D" and pos: "0 < E + D"
    and mke: "moderate ke" and mkd: "moderate kdat"
  shows "\<not> fadd (Fin E) (Fin D) \<le> 0"
    and "\<exists>x. fadd (fmul (fdiv (Fin E) (fadd (Fin E) (Fin D))) (Fin ke))
                   (fmul (fdiv (Fin D) (fadd (Fin E) (Fin D))) (Fin kdat)) = Fin x \<and>
             min kdat ke * (1 - 1 / 2 ^ 50) \<le> x \<and> x \<le> max kdat ke * (1 + 1 / 2 ^ 50)"
proof -
  define v where "v = rnd (E + D)"
  define a where "a = rnd (E / v)"
  define b where "b = rnd (D / v)"
  define p1 where "p1 = rnd (a * ke)"
  define p2 where "p2 = rnd (b * kdat)"
  define x where "x = rnd (p1 + p2)"
  note zE = mE[unfolded moderate_def] and zD = mD[unfolded moderate_def]
    and zke = mke[unfolded moderate_def] and zkd = mkd[unfolded moderate_def]
  have E0: "0 \<le> E" and D0: "0 \<le> D" and ke0: "0 \<le> ke" and kd0: "0 \<le> kdat"
    using zE zD zke zkd by (auto dest: zb_nonneg)
  have zs: "zero_or_between (- 300) (300 + 1) (E + D)" using zE zD by (rule zb_add)
  have zv: "zero_or_between (- 300) (300 + 1) v" and fv: "fl (E + D) = Fin v"
    and bv: "(E + D) * (1 - 1 / 2 ^ 53) \<le> v" "v \<le> (E + D) * (1 + 1 / 2 ^ 53)"
    unfolding v_def using zb_rnd[OF zs] by simp_all
  have "0 < (E + D) * (1 - 1 / 2 ^ 53)" using pos by simp
  then have v0: "0 < v" using bv(1) by linarith
  then have vr: "2 powi (- 300) \<le> v" "v \<le> 2 powi (300 + 1)"
    using zv unfolding zero_or_between_def by auto
  have V: "fadd (Fin E) (Fin D) = Fin v" using fv by simp
  show "\<not> fadd (Fin E) (Fin D) \<le> 0" unfolding V using v0 by simp
  have zqa: "zero_or_between (- 300 - (300 + 1)) (300 - - 300) (E / v)"
    using zE vr by (rule zb_div)
  have zqb: "zero_or_between (- 300 - (300 + 1)) (300 - - 300) (D / v)"
    using zD vr by (rule zb_div)
  have za: "zero_or_between (- 300 - (300 + 1)) (300 - - 300) a" and fa: "fl (E / v) = Fin a"
    and ba: "E / v * (1 - 1 / 2 ^ 53) \<le> a" "a \<le> E / v * (1 + 1 / 2 ^ 53)"
    unfolding a_def using zb_rnd[OF zqa] by simp_all
  have zb': "zero_or_between (- 300 - (300 + 1)) (300 - - 300) b" and fb: "fl (D / v) = Fin b"
    and bb: "D / v * (1 - 1 / 2 ^ 53) \<le> b" "b \<le> D / v * (1 + 1 / 2 ^ 53)"
    unfolding b_def using zb_rnd[OF zqb] by simp_all
  have zm1: "zero_or_between (- 300 - (300 + 1) + - 300) (300 - - 300 + 300) (a * ke)"
    using za zke by (rule zb_mul)
  have zm2: "zero_or_between (- 300 - (300 + 1) + - 300) (300 - - 300 + 300) (b * kdat)"
    using zb' zkd by (rule zb_mul)
  have zp1: "zero_or_between (- 300 - (300 + 1) + - 300) (300 - - 300 + 300) p1"
    and fp1: "fl (a * ke) = Fin p1"
    and bp1: "a * ke * (1 - 1 / 2 ^ 53) \<le> p1" "p1 \<le> a * ke * (1 + 1 / 2 ^ 53)"
    unfolding p1_def using zb_rnd[OF zm1] by simp_all
  have zp2: "zero_or_between (- 300 - (300 + 1) + - 300) (300 - - 300 + 300) p2"
    and fp2: "fl (b * kdat) = Fin p2"
    and bp2: "b * kdat * (1 - 1 / 2 ^ 53) \<le> p2" "p2 \<le> b * kdat * (1 + 1 / 2 ^ 53)"
    unfolding p2_def using zb_rnd[OF zm2] by simp_all
  have zsum: "zero_or_between (- 300 - (300 + 1) + - 300) (300 - - 300 + 300 + 1) (p1 + p2)"
    using zp1 zp2 by (rule zb_add)
  have fx: "fl (p1 + p2) = Fin x"
    and bx: "(p1 + p2) * (1 - 1 / 2 ^ 53) \<le> x" "x \<le> (p1 + p2) * (1 + 1 / 2 ^ 53)"
    unfolding x_def using zb_rnd[OF zsum] by simp_all
  have val: "fadd (fmul (fdiv (Fin E) (fadd (Fin E) (Fin D))) (Fin ke))
                   (fmul (fdiv (Fin D) (fadd (Fin E) (Fin D))) (Fin kdat)) = Fin x"
    unfolding V using v0 by (simp add: fa fb fp1 fp2 fx)
  have band: "min kdat ke * (1 - 1 / 2 ^ 50) \<le> x \<and> x \<le> max kdat ke * (1 + 1 / 2 ^ 50)"
    by (rule wacc_band_real[OF refl E0 D0 pos ke0 kd0 bv ba bb bp1 bp2 bx])
  show "\<exists>x. fadd (fmul (fdiv (Fin E) (fadd (Fin E) (Fin D))) (Fin ke))
                   (fmul (fdiv (Fin D) (fadd (Fin E) (Fin D))) (Fin kdat)) = Fin x \<and>
             min kdat ke * (1 - 1 / 2 ^ 50) \<le> x \<and> x \<le> max kdat ke * (1 + 1 / 2 ^ 50)"
    using val band by blast
qed

text \<open>
  Claim C3, as amended. \<open>computeWACC\<close> returns the cost of equity \<open>rf + beta erp\<close>
  and the after-tax cost of debt \<open>kd (1 - T)\<close>, each as the code rounds it. For doubles
  \<open>E, D \<ge> 0\<close> with \<open>E + D > 0\<close> and two non-negative costs, all of moderate size, the WACC
  lies between the two costs up to the rounding of the five operations that compute it:
  it is at least the lower cost times \<open>1 - 2^(-50)\<close> and at most the higher cost times
  \<open>1 + 2^(-50)\<close>. It need not lie strictly between them: without debt it is the cost of
  equity exactly, without equity the after-tax cost of debt exactly. For \<open>E = 0\<close> and
  \<open>D = 0\<close> the WACC is the cost of equity, for all inputs.
\<close>

theorem computeWACC_band:
  assumes w: "w = computeWACC rf beta erp kd T (Fin E) (Fin D)"
    and ke: "w_ke w = Fin ke" and kdat: "w_kd_after_tax w = Fin kdat"
    and mE: "moderate E" and mD: "moderate D" and mke: "moderate ke" and mkd: "moderate kdat"
    and rE: "rnd E = E" and rD: "rnd D = D"
  shows "w_ke w = fadd rf (fmul beta erp) \<and>
         w_kd_after_tax w = fmul kd (fsub 1 T) \<and>
         w_wacc w =
           (if fadd (Fin E) (Fin D) \<le> 0 then Fin ke
            else fadd (fmul (fdiv (Fin E) (fadd (Fin E) (Fin D))) (Fin ke))
                      (fmul (fdiv (Fin D) (fadd (Fin E) (Fin D))) (Fin kdat))) \<and>
         (0 < E + D \<longrightarrow>
            (\<exists>x. w_wacc w = Fin x \<and>
                 min kdat ke * (1 - 1 / 2 ^ 50) \<le> x \<and> x \<le> max kdat ke * (1 + 1 / 2 ^ 50))) \<and>
         (0 < E \<and> D = 0 \<longrightarrow> w_wacc w = Fin ke) \<and>
         (E = 0 \<and> 0 < D \<longrightarrow> w_wacc w = Fin kdat) \<and>
         w_wacc (computeWACC rf' beta' erp' kd' T' (Fin 0) (Fin 0)) = fadd rf' (fmul beta' erp')"
proof -
  have f1: "w_ke w = fadd rf (fmul beta erp)" and f2: "w_kd_after_tax w = fmul kd (fsub 1 T)"
    unfolding w by (rule computeWACC_fields)+
  have ke': "fadd rf (fmul beta erp) = Fin ke" using ke f1 by simp
  have kd': "fmul kd (fsub 1 T) = Fin kdat" using kdat f2 by simp
  have rke: "rnd ke = ke" using ke' by (rule fadd_rep)
  have rkd: "rnd kdat = kdat" using kd' by (rule fmul_rep)
  have wv: "w_wacc w =
     (if fadd (Fin E) (Fin D) \<le> 0 then Fin ke
      else fadd (fmul (fdiv (Fin E) (fadd (Fin E) (Fin D))) (Fin ke))
                (fmul (fdiv (Fin D) (fadd (Fin E) (Fin D))) (Fin kdat)))"
    unfolding w computeWACC_wacc ke' kd' ..
  have band: "0 < E + D \<longrightarrow>
            (\<exists>x. w_wacc w = Fin x \<and>
                 min kdat ke * (1 - 1 / 2 ^ 50) \<le> x \<and> x \<le> max kdat ke * (1 + 1 / 2 ^ 50))"
  proof
    assume pos: "0 < E + D"
    show "\<exists>x. w_wacc w = Fin x \<and>
                 min kdat ke * (1 - 1 / 2 ^ 50) \<le> x \<and> x \<le> max kdat ke * (1 + 1 / 2 ^ 50)"
      using wacc_weighted[OF mE mD pos mke mkd] unfolding wv by simp
  qed
  have nodebt: "0 < E \<and> D = 0 \<longrightarrow> w_wacc w = Fin ke"
  proof
    assume h: "0 < E \<and> D = 0"
    show "w_wacc w = Fin ke"
      using wacc_no_debt[OF mE conjunct1[OF h] rE mke rke mkd] h unfolding wv by simp
  qed
  have noequity: "E = 0 \<and> 0 < D \<longrightarrow> w_wacc w = Fin kdat"
  proof
    assume h: "E = 0 \<and> 0 < D"
    show "w_wacc w = Fin kdat"
      using wacc_no_equity(1)[OF mD conjunct2[OF h] rD mkd rkd] wacc_no_equity(2)[OF mD conjunct2[OF h] rD mkd rkd, of ke] h unfolding wv by simp
  qed
  have deg: "w_wacc (computeWACC rf' beta' erp' kd' T' (Fin 0) (Fin 0)) = fadd rf' (fmul beta' erp')"
    unfolding computeWACC_wacc by simp
  show ?thesis by (intro conjI f1 f2 wv band nodebt noequity deg)
qed

lemma wacc_edge_be: "fmul (Fin 1) (Fin 0.059999999999999997779553950749686919152736663818359375) = Fin 0.059999999999999997779553950749686919152736663818359375"
  using fl_eqI[of "- 5" "1 * 0.059999999999999997779553950749686919152736663818359375" 8646911284551352] by (simp add: rne_def dbl_def)

lemma wacc_edge_ke: "fadd (Fin 0.040000000000000000832667268468867405317723751068115234375) (Fin 0.059999999999999997779553950749686919152736663818359375) = Fin 0.1000000000000000055511151231257827021181583404541015625"
  using fl_eqI[of "- 4" "0.040000000000000000832667268468867405317723751068115234375 + 0.059999999999999997779553950749686919152736663818359375" 7205759403792794] by (simp add: rne_def dbl_def)

lemma wacc_edge_omt: "fsub (Fin 1) (Fin 0.200000000000000011102230246251565404236316680908203125) = Fin 0.8000000000000000444089209850062616169452667236328125"
  using fl_eqI[of "- 1" "1 - 0.200000000000000011102230246251565404236316680908203125" 7205759403792794] by (simp add: rne_def dbl_def)

lemma wacc_edge_kdat: "fmul (Fin 0.125) (Fin 0.8000000000000000444089209850062616169452667236328125) = Fin 0.1000000000000000055511151231257827021181583404541015625"
  using fl_eqI[of "- 4" "0.125 * 0.8000000000000000444089209850062616169452667236328125" 7205759403792794] by (simp add: rne_def dbl_def)

lemma wacc_edge_V: "fadd (Fin 1) (Fin 4) = Fin 5"
  using fl_eqI[of 2 "1 + 4" 5629499534213120] by (simp add: rne_def dbl_def)

lemma wacc_edge_a: "fdiv (Fin 1) (Fin 5) = Fin 0.200000000000000011102230246251565404236316680908203125"
  using fl_eqI[of "- 3" "1 / 5" 7205759403792794] by (simp add: rne_def dbl_def)

lemma wacc_edge_b: "fdiv (Fin 4) (Fin 5) = Fin 0.8000000000000000444089209850062616169452667236328125"
  using fl_eqI[of "- 1" "4 / 5" 7205759403792794] by (simp add: rne_def dbl_def)

lemma wacc_edge_p1: "fmul (Fin 0.200000000000000011102230246251565404236316680908203125) (Fin 0.1000000000000000055511151231257827021181583404541015625) = Fin 0.02000000000000000388578058618804789148271083831787109375"
  using fl_eqI[of "- 6" "0.200000000000000011102230246251565404236316680908203125 * 0.1000000000000000055511151231257827021181583404541015625" 5764607523034236] by (simp add: rne_def dbl_def)

lemma wacc_edge_p2: "fmul (Fin 0.8000000000000000444089209850062616169452667236328125) (Fin 0.1000000000000000055511151231257827021181583404541015625) = Fin 0.080000000000000015543122344752191565930843353271484375"
  using fl_eqI[of "- 4" "0.8000000000000000444089209850062616169452667236328125 * 0.1000000000000000055511151231257827021181583404541015625" 5764607523034236] by (simp add: rne_def dbl_def)

lemma wacc_edge_w: "fadd (Fin 0.02000000000000000388578058618804789148271083831787109375) (Fin 0.080000000000000015543122344752191565930843353271484375) = Fin 0.10000000000000001942890293094023945741355419158935546875"
  using fl_eqI[of "- 4" "0.02000000000000000388578058618804789148271083831787109375 + 0.080000000000000015543122344752191565930843353271484375" 7205759403792795] by (simp add: rne_def dbl_def)

lemma wacc_nodebt_be: "fmul (Fin 1.1999999999999999555910790149937383830547332763671875) (Fin 0.055000000000000000277555756156289135105907917022705078125) = Fin 0.066000000000000003108624468950438313186168670654296875"
  using fl_eqI[of "- 4" "1.1999999999999999555910790149937383830547332763671875 * 0.055000000000000000277555756156289135105907917022705078125" 4755801206503244] by (simp add: rne_def dbl_def)

lemma wacc_nodebt_ke: "fadd (Fin 0.04299999999999999655830862366201472468674182891845703125) (Fin 0.066000000000000003108624468950438313186168670654296875) = Fin 0.10899999999999999966693309261245303787291049957275390625"
  using fl_eqI[of "- 4" "0.04299999999999999655830862366201472468674182891845703125 + 0.066000000000000003108624468950438313186168670654296875" 7854277750134145] by (simp add: rne_def dbl_def)

lemma wacc_nodebt_omt: "fsub (Fin 1) (Fin 0.25) = Fin 0.75"
  using fl_eqI[of "- 1" "1 - 0.25" 6755399441055744] by (simp add: rne_def dbl_def)

lemma wacc_nodebt_kdat: "fmul (Fin 0.05000000000000000277555756156289135105907917022705078125) (Fin 0.75) = Fin 0.0375000000000000055511151231257827021181583404541015625"
  using fl_eqI[of "- 5" "0.05000000000000000277555756156289135105907917022705078125 * 0.75" 5404319552844596] by (simp add: rne_def dbl_def)

lemma wacc_nodebt_V: "fadd (Fin 8000) (Fin 0) = Fin 8000"
  using fl_eqI[of 12 "8000 + 0" 8796093022208000] by (simp add: rne_def dbl_def)

lemma wacc_nodebt_a: "fdiv (Fin 8000) (Fin 8000) = Fin 1"
  using fl_eqI[of 0 "8000 / 8000" 4503599627370496] by (simp add: rne_def dbl_def)

lemma wacc_nodebt_b: "fdiv (Fin 0) (Fin 8000) = Fin 0"
  by (simp add: dbl_def)

lemma wacc_nodebt_p1: "fmul (Fin 1) (Fin 0.10899999999999999966693309261245303787291049957275390625) = Fin 0.10899999999999999966693309261245303787291049957275390625"
  using fl_eqI[of "- 4" "1 * 0.10899999999999999966693309261245303787291049957275390625" 7854277750134145] by (simp add: rne_def dbl_def)

lemma wacc_nodebt_p2: "fmul (Fin 0) (Fin 0.0375000000000000055511151231257827021181583404541015625) = Fin 0"
  by (simp add: dbl_def)

lemma wacc_nodebt_w: "fadd (Fin 0.10899999999999999966693309261245303787291049957275390625) (Fin 0) = Fin 0.10899999999999999966693309261245303787291049957275390625"
  using fl_eqI[of "- 4" "0.10899999999999999966693309261245303787291049957275390625 + 0" 7854277750134145] by (simp add: rne_def dbl_def)

text \<open>
  One of equity to four of debt, both costs 10%: the weighted average is rounded to the
  double above 0.1, outside the interval of the two costs and inside the widened one.
\<close>

theorem computeWACC_band_witness:
  "moderate 1 \<and> moderate 4 \<and> rnd 1 = 1 \<and> rnd 4 = 4 \<and>
   moderate 0.1000000000000000055511151231257827021181583404541015625 \<and>
   moderate 0.1000000000000000055511151231257827021181583404541015625 \<and>
   w_ke (computeWACC (dbl 0.04) (Fin 1) (dbl 0.06) (dbl 0.125) (dbl 0.2) (Fin 1) (Fin 4))
     = Fin 0.1000000000000000055511151231257827021181583404541015625 \<and>
   w_kd_after_tax (computeWACC (dbl 0.04) (Fin 1) (dbl 0.06) (dbl 0.125) (dbl 0.2) (Fin 1) (Fin 4))
     = Fin 0.1000000000000000055511151231257827021181583404541015625 \<and>
   w_wacc (computeWACC (dbl 0.04) (Fin 1) (dbl 0.06) (dbl 0.125) (dbl 0.2) (Fin 1) (Fin 4))
     = Fin 0.10000000000000001942890293094023945741355419158935546875 \<and>
   (0.1000000000000000055511151231257827021181583404541015625 :: real)
     < 0.10000000000000001942890293094023945741355419158935546875 \<and>
   min 0.1000000000000000055511151231257827021181583404541015625
       0.1000000000000000055511151231257827021181583404541015625 * (1 - 1 / 2 ^ 50)
     \<le> (0.10000000000000001942890293094023945741355419158935546875 :: real) \<and>
   (0.10000000000000001942890293094023945741355419158935546875 :: real)
     \<le> max 0.1000000000000000055511151231257827021181583404541015625
           0.1000000000000000055511151231257827021181583404541015625 * (1 + 1 / 2 ^ 50)"
proof -
  let ?w = "computeWACC (dbl 0.04) (Fin 1) (dbl 0.06) (dbl 0.125) (dbl 0.2) (Fin 1) (Fin 4)"
  have m1: "moderate 1" and m4: "moderate 4"
    by (simp_all add: moderate_def zero_or_between_def)
  have r1: "rnd 1 = 1" by simp
  have r4: "rnd 4 = 4" using rnd_power2[of 2] by simp
  have mke: "moderate 0.1000000000000000055511151231257827021181583404541015625"
    and mkd: "moderate 0.1000000000000000055511151231257827021181583404541015625"
    by (simp_all add: moderate_def zero_or_between_def)
  have ke: "w_ke ?w = Fin 0.1000000000000000055511151231257827021181583404541015625"
    unfolding computeWACC_fields unfolding dbl_0_04 dbl_0_06 dbl_0_125 dbl_0_2 dbl_0_043 dbl_1_2 dbl_0_055 dbl_0_05 dbl_0_25 unfolding wacc_edge_be wacc_edge_ke wacc_edge_omt wacc_edge_kdat wacc_edge_V wacc_edge_a wacc_edge_b wacc_edge_p1 wacc_edge_p2 wacc_edge_w ..
  have kd: "w_kd_after_tax ?w = Fin 0.1000000000000000055511151231257827021181583404541015625"
    unfolding computeWACC_fields one_Fin unfolding dbl_0_04 dbl_0_06 dbl_0_125 dbl_0_2 dbl_0_043 dbl_1_2 dbl_0_055 dbl_0_05 dbl_0_25 unfolding wacc_edge_be wacc_edge_ke wacc_edge_omt wacc_edge_kdat wacc_edge_V wacc_edge_a wacc_edge_b wacc_edge_p1 wacc_edge_p2 wacc_edge_w ..
  have wv: "w_wacc ?w = Fin 0.10000000000000001942890293094023945741355419158935546875"
    unfolding computeWACC_wacc one_Fin unfolding dbl_0_04 dbl_0_06 dbl_0_125 dbl_0_2 dbl_0_043 dbl_1_2 dbl_0_055 dbl_0_05 dbl_0_25 unfolding wacc_edge_be wacc_edge_ke wacc_edge_omt wacc_edge_kdat wacc_edge_V wacc_edge_a wacc_edge_b wacc_edge_p1 wacc_edge_p2 wacc_edge_w by simp
  have above: "(0.1000000000000000055511151231257827021181583404541015625 :: real)
     < 0.10000000000000001942890293094023945741355419158935546875" by simp
  have pos: "(0::real) < 1 + 4" by simp
  have "\<exists>x. w_wacc ?w = Fin x \<and>
          min 0.1000000000000000055511151231257827021181583404541015625
              0.1000000000000000055511151231257827021181583404541015625 * (1 - 1 / 2 ^ 50) \<le> x \<and>
          x \<le> max 0.1000000000000000055511151231257827021181583404541015625
                  0.1000000000000000055511151231257827021181583404541015625 * (1 + 1 / 2 ^ 50)"
    using computeWACC_band[OF refl ke kd m1 m4 mke mkd r1 r4] pos by blast
  then have band: "min 0.1000000000000000055511151231257827021181583404541015625
       0.1000000000000000055511151231257827021181583404541015625 * (1 - 1 / 2 ^ 50)
     \<le> (0.10000000000000001942890293094023945741355419158935546875 :: real) \<and>
   (0.10000000000000001942890293094023945741355419158935546875 :: real)
     \<le> max 0.1000000000000000055511151231257827021181583404541015625
           0.1000000000000000055511151231257827021181583404541015625 * (1 + 1 / 2 ^ 50)"
    unfolding wv by blast
  show ?thesis using m1 m4 r1 r4 mke mkd ke kd wv above band by blast
qed

text \<open>
  The claim as stated fails when there is no debt: with \<open>D = 0\<close> the WACC is the cost of
  equity itself, not strictly below it. With one of equity to four of debt and both
  costs at 10% the rounded average is above both costs.
\<close>

theorem computeWACC_no_debt_counterexample:
  "Fin 8000 \<ge> 0 \<and> Fin 0 \<ge> (0::number) \<and> fadd (Fin 8000) (Fin 0) > 0 \<and>
   w_ke (computeWACC (dbl 0.043) (dbl 1.2) (dbl 0.055) (dbl 0.05) (dbl 0.25) (Fin 8000) (Fin 0))
     = Fin 0.10899999999999999966693309261245303787291049957275390625 \<and>
   w_kd_after_tax (computeWACC (dbl 0.043) (dbl 1.2) (dbl 0.055) (dbl 0.05) (dbl 0.25)
       (Fin 8000) (Fin 0))
     = Fin 0.0375000000000000055511151231257827021181583404541015625 \<and>
   w_wacc (computeWACC (dbl 0.043) (dbl 1.2) (dbl 0.055) (dbl 0.05) (dbl 0.25) (Fin 8000) (Fin 0))
     = Fin 0.10899999999999999966693309261245303787291049957275390625 \<and>
   \<not> w_wacc (computeWACC (dbl 0.043) (dbl 1.2) (dbl 0.055) (dbl 0.05) (dbl 0.25)
         (Fin 8000) (Fin 0))
     < w_ke (computeWACC (dbl 0.043) (dbl 1.2) (dbl 0.055) (dbl 0.05) (dbl 0.25)
         (Fin 8000) (Fin 0)) \<and>
   Fin 1 > 0 \<and> Fin 4 > 0 \<and>
   w_ke (computeWACC (dbl 0.04) (Fin 1) (dbl 0.06) (dbl 0.125) (dbl 0.2) (Fin 1) (Fin 4))
     = Fin 0.1000000000000000055511151231257827021181583404541015625 \<and>
   w_kd_after_tax (computeWACC (dbl 0.04) (Fin 1) (dbl 0.06) (dbl 0.125) (dbl 0.2) (Fin 1) (Fin 4))
     = Fin 0.1000000000000000055511151231257827021181583404541015625 \<and>
   w_wacc (computeWACC (dbl 0.04) (Fin 1) (dbl 0.06) (dbl 0.125) (dbl 0.2) (Fin 1) (Fin 4))
     = Fin 0.10000000000000001942890293094023945741355419158935546875 \<and>
   \<not> w_wacc (computeWACC (dbl 0.04) (Fin 1) (dbl 0.06) (dbl 0.125) (dbl 0.2) (Fin 1) (Fin 4))
     \<le> w_ke (computeWACC (dbl 0.04) (Fin 1) (dbl 0.06) (dbl 0.125) (dbl 0.2) (Fin 1) (Fin 4))"
proof -
  let ?w = "computeWACC (dbl 0.043) (dbl 1.2) (dbl 0.055) (dbl 0.05) (dbl 0.25) (Fin 8000) (Fin 0)"
  let ?e = "computeWACC (dbl 0.04) (Fin 1) (dbl 0.06) (dbl 0.125) (dbl 0.2) (Fin 1) (Fin 4)"
  have v: "fadd (Fin 8000) (Fin 0) > 0" unfolding wacc_nodebt_V by simp
  have ke: "w_ke ?w = Fin 0.10899999999999999966693309261245303787291049957275390625"
    unfolding computeWACC_fields unfolding dbl_0_04 dbl_0_06 dbl_0_125 dbl_0_2 dbl_0_043 dbl_1_2 dbl_0_055 dbl_0_05 dbl_0_25 unfolding wacc_nodebt_be wacc_nodebt_ke wacc_nodebt_omt wacc_nodebt_kdat wacc_nodebt_V wacc_nodebt_a wacc_nodebt_b wacc_nodebt_p1 wacc_nodebt_p2 wacc_nodebt_w ..
  have kd: "w_kd_after_tax ?w = Fin 0.0375000000000000055511151231257827021181583404541015625"
    unfolding computeWACC_fields one_Fin unfolding dbl_0_04 dbl_0_06 dbl_0_125 dbl_0_2 dbl_0_043 dbl_1_2 dbl_0_055 dbl_0_05 dbl_0_25 unfolding wacc_nodebt_be wacc_nodebt_ke wacc_nodebt_omt wacc_nodebt_kdat wacc_nodebt_V wacc_nodebt_a wacc_nodebt_b wacc_nodebt_p1 wacc_nodebt_p2 wacc_nodebt_w ..
  have wv: "w_wacc ?w = Fin 0.10899999999999999966693309261245303787291049957275390625"
    unfolding computeWACC_wacc one_Fin unfolding dbl_0_04 dbl_0_06 dbl_0_125 dbl_0_2 dbl_0_043 dbl_1_2 dbl_0_055 dbl_0_05 dbl_0_25 unfolding wacc_nodebt_be wacc_nodebt_ke wacc_nodebt_omt wacc_nodebt_kdat wacc_nodebt_V wacc_nodebt_a wacc_nodebt_b wacc_nodebt_p1 wacc_nodebt_p2 wacc_nodebt_w by simp
  have eke: "w_ke ?e = Fin 0.1000000000000000055511151231257827021181583404541015625"
    unfolding computeWACC_fields unfolding dbl_0_04 dbl_0_06 dbl_0_125 dbl_0_2 dbl_0_043 dbl_1_2 dbl_0_055 dbl_0_05 dbl_0_25 unfolding wacc_edge_be wacc_edge_ke wacc_edge_omt wacc_edge_kdat wacc_edge_V wacc_edge_a wacc_edge_b wacc_edge_p1 wacc_edge_p2 wacc_edge_w ..
  have ekd: "w_kd_after_tax ?e = Fin 0.1000000000000000055511151231257827021181583404541015625"
    unfolding computeWACC_fields one_Fin unfolding dbl_0_04 dbl_0_06 dbl_0_125 dbl_0_2 dbl_0_043 dbl_1_2 dbl_0_055 dbl_0_05 dbl_0_25 unfolding wacc_edge_be wacc_edge_ke wacc_edge_omt wacc_edge_kdat wacc_edge_V wacc_edge_a wacc_edge_b wacc_edge_p1 wacc_edge_p2 wacc_edge_w ..
  have ewv: "w_wacc ?e = Fin 0.10000000000000001942890293094023945741355419158935546875"
    unfolding computeWACC_wacc one_Fin unfolding dbl_0_04 dbl_0_06 dbl_0_125 dbl_0_2 dbl_0_043 dbl_1_2 dbl_0_055 dbl_0_05 dbl_0_25 unfolding wacc_edge_be wacc_edge_ke wacc_edge_omt wacc_edge_kdat wacc_edge_V wacc_edge_a wacc_edge_b wacc_edge_p1 wacc_edge_p2 wacc_edge_w by simp
  show ?thesis unfolding ke kd wv eke ekd ewv using v by simp
qed

section \<open>Discounted cash flow\<close>

text \<open>
  Claim C4. The specification gives the price 0 for every share count at or below zero.
  The guard of the code is the truthiness test \<open>shares ? ... : 0\<close>, which fires for a
  share count of zero (or \<open>NaN\<close>) only: one cashflow of 8 discounted at 100% is worth 4,
  a terminal value of 4 is worth 2, and with a net debt of 2 and a share count of -2
  the code divides and returns the price -2. Every operation of this run is exact in
  double precision.
\<close>

theorem dcfPrice_negative_shares:
  "Fin (- 2) \<le> 0 \<and>
   dcfPrice [Fin 8] (Fin 4) (Fin 1) (Fin 2) (Fin (- 2)) =
     \<lparr> dcf_pps = Fin (- 2), dcf_ev = Fin 6, dcf_pvFcfs = Fin 4, dcf_pvTv = Fin 2 \<rparr> \<and>
   dcf_pps (dcfPrice [Fin 8] (Fin 4) (Fin 1) (Fin 2) (Fin (- 2))) \<noteq> 0"
  by (simp add: dcfPrice_def at_num_def Let_def)

text \<open>
  The sibling models guard the same division with a comparison, and return the
  sentinel 0 for a negative share count.
\<close>

lemma computePCF_negative_shares:
  "b_shares_diluted B = Fin (- 2) \<Longrightarrow> pcf_pps_pcf (computePCF B m) = 0"
  by (simp add: computePCF_def)

lemma computeFCFE_negative_shares:
  "b_shares_diluted B = Fin (- 2) \<Longrightarrow> fe_pps_fcfe (computeFCFE proforma B a ke) = 0"
  by (simp add: computeFCFE_def Let_def)

text \<open>
  Claim C10. For the empty cashflow array the final-year discount factor is read from
  an empty array, so for every terminal value, discount rate and net debt the present
  value of the terminal value and the enterprise value are \<open>NaN\<close>, and for every share
  count that is not zero (nor \<open>NaN\<close>) the price per share is \<open>NaN\<close>. The price is the
  sentinel 0 exactly when the shares guard fires.
\<close>

theorem dcfPrice_empty:
  "dcf_pvFcfs (dcfPrice [] tv r nd sh) = 0 \<and>
   dcf_pvTv (dcfPrice [] tv r nd sh) = NaN \<and>
   dcf_ev (dcfPrice [] tv r nd sh) = NaN \<and>
   dcf_pps (dcfPrice [] tv r nd sh) = (if truthy sh then NaN else 0) \<and>
   (dcf_pps (dcfPrice [] tv r nd sh) = 0 \<longleftrightarrow> \<not> truthy sh)"
  by (simp add: dcfPrice_def at_num_def)

section \<open>Scenario presets\<close>

text \<open>
  Claim C9. Applying a scenario preset leaves the projection horizon, the simulation
  count and the DDM growth rate of the previous state unchanged, for every previous
  state and every scenario key; the scenario label becomes the key.
\<close>

theorem applyScenario_frame:
  "a_proj_years_n (applyScenario prev s) = a_proj_years_n prev \<and>
   a_n_sims (applyScenario prev s) = a_n_sims prev \<and>
   a_ddm_g (applyScenario prev s) = a_ddm_g prev \<and>
   a_scenario (applyScenario prev s) = s"
  by (simp add: applyScenario_def)

section \<open>Pro-forma projection\<close>

lemma buildGrowthSchedule_default:
  "buildGrowthSchedule DEFAULT_ASSUMPTIONS = [Fin 0.025, Fin 0.035, Fin 0.04, Fin 0.035, Fin 0.03]"
  by (simp add: buildGrowthSchedule_def DEFAULT_ASSUMPTIONS_def upt_rec Let_def)

text \<open>
  The glide of the EBITDA margin is computed (\<open>ebitdaM\<close>) and never used: the projection
  does not depend on the target margin at all.
\<close>

lemma buildProforma_ignores_target:
  "buildProforma B gs (a\<lparr>a_target_ebitda_m := t\<rparr>) = buildProforma B gs a"
  by (simp add: buildProforma_def Let_def)

text \<open>
  Claim C2 fails on the code. For the example company (baseline EBITDA margin 35%) and
  the default assumptions (five projection years, target EBITDA margin 27%), the
  row-level EBITDA margin is 35% in every projection year, the final one included,
  where the claim has it glide to the target of 27%.
\<close>

theorem buildProforma_margin_not_target:
  "a_target_ebitda_m DEFAULT_ASSUMPTIONS = Fin 0.27 \<and>
   map r_ebitda_margin
     (buildProforma example_baseline (buildGrowthSchedule DEFAULT_ASSUMPTIONS) DEFAULT_ASSUMPTIONS)
   = [Fin 0.35, Fin 0.35, Fin 0.35, Fin 0.35, Fin 0.35]"
  unfolding buildGrowthSchedule_default
  by (simp add: buildProforma_def example_baseline_def DEFAULT_ASSUMPTIONS_def upt_rec Let_def)

section \<open>Justified P/E\<close>

lemma jpe_growth: "fmul (Fin 0.200000000000000011102230246251565404236316680908203125) (Fin 0.5) = Fin 0.1000000000000000055511151231257827021181583404541015625"
  using fl_eqI[of "- 4" "0.200000000000000011102230246251565404236316680908203125 * 0.5" 7205759403792794] by (simp add: rne_def dbl_def)

lemma jpe_payout: "fsub (Fin 1) (Fin 0.5) = Fin 0.5"
  using fl_eqI[of "- 1" "1 - 0.5" 4503599627370496] by (simp add: rne_def dbl_def)

lemma jpe_one_plus_g: "fadd (Fin 1) (Fin 0.025000000000000001387778780781445675529539585113525390625) = Fin 1.024999999999999911182158029987476766109466552734375"
  using fl_eqI[of 0 "1 + 0.025000000000000001387778780781445675529539585113525390625" 4616189618054758] by (simp add: rne_def dbl_def)

lemma jpe_forward_eps: "fmul (Fin 4) (Fin 1.024999999999999911182158029987476766109466552734375) = Fin 4.0999999999999996447286321199499070644378662109375"
  using fl_eqI[of 2 "4 * 1.024999999999999911182158029987476766109466552734375" 4616189618054758] by (simp add: rne_def dbl_def)

lemma jpe_cap_0_05: "fsub (Fin 0.05000000000000000277555756156289135105907917022705078125) (Fin 0.001000000000000000020816681711721685132943093776702880859375) = Fin 0.04900000000000000188737914186276611872017383575439453125"
  using fl_eqI[of "- 5" "0.05000000000000000277555756156289135105907917022705078125 - 0.001000000000000000020816681711721685132943093776702880859375" 7061644215716938] by (simp add: rne_def dbl_def)

lemma jpe_den_0_05: "fsub (Fin 0.05000000000000000277555756156289135105907917022705078125) (Fin 0.04900000000000000188737914186276611872017383575439453125) = Fin 0.00100000000000000088817841970012523233890533447265625"
  using fl_eqI[of "- 10" "0.05000000000000000277555756156289135105907917022705078125 - 0.04900000000000000188737914186276611872017383575439453125" 4611686018427392] by (simp add: rne_def dbl_def)

lemma jpe_pe_0_05: "fdiv (Fin 0.5) (Fin 0.00100000000000000088817841970012523233890533447265625) = Fin 499.99999999999954525264911353588104248046875"
  using fl_eqI[of 8 "0.5 / 0.00100000000000000088817841970012523233890533447265625" 8796093022207992] by (simp add: rne_def dbl_def)

lemma jpe_cap_0_08: "fsub (Fin 0.08000000000000000166533453693773481063544750213623046875) (Fin 0.001000000000000000020816681711721685132943093776702880859375) = Fin 0.07900000000000000077715611723760957829654216766357421875"
  using fl_eqI[of "- 4" "0.08000000000000000166533453693773481063544750213623046875 - 0.001000000000000000020816681711721685132943093776702880859375" 5692549928996307] by (simp add: rne_def dbl_def)

lemma jpe_den_0_08: "fsub (Fin 0.08000000000000000166533453693773481063544750213623046875) (Fin 0.07900000000000000077715611723760957829654216766357421875) = Fin 0.00100000000000000088817841970012523233890533447265625"
  using fl_eqI[of "- 10" "0.08000000000000000166533453693773481063544750213623046875 - 0.07900000000000000077715611723760957829654216766357421875" 4611686018427392] by (simp add: rne_def dbl_def)

lemma jpe_pe_0_08: "fdiv (Fin 0.5) (Fin 0.00100000000000000088817841970012523233890533447265625) = Fin 499.99999999999954525264911353588104248046875"
  using fl_eqI[of 8 "0.5 / 0.00100000000000000088817841970012523233890533447265625" 8796093022207992] by (simp add: rne_def dbl_def)

lemma jpe_cap_0_011: "fsub (Fin 0.0109999999999999993616217608405349892564117908477783203125) (Fin 0.001000000000000000020816681711721685132943093776702880859375) = Fin 0.0099999999999999984734433411404097569175064563751220703125"
  using fl_eqI[of "- 7" "0.0109999999999999993616217608405349892564117908477783203125 - 0.001000000000000000020816681711721685132943093776702880859375" 5764607523034234] by (simp add: rne_def dbl_def)

lemma jpe_den_0_011: "fsub (Fin 0.0109999999999999993616217608405349892564117908477783203125) (Fin 0.0099999999999999984734433411404097569175064563751220703125) = Fin 0.00100000000000000088817841970012523233890533447265625"
  using fl_eqI[of "- 10" "0.0109999999999999993616217608405349892564117908477783203125 - 0.0099999999999999984734433411404097569175064563751220703125" 4611686018427392] by (simp add: rne_def dbl_def)

lemma jpe_pe_0_011: "fdiv (Fin 0.5) (Fin 0.00100000000000000088817841970012523233890533447265625) = Fin 499.99999999999954525264911353588104248046875"
  using fl_eqI[of 8 "0.5 / 0.00100000000000000088817841970012523233890533447265625" 8796093022207992] by (simp add: rne_def dbl_def)

lemma jpe_cap_0_013: "fsub (Fin 0.01299999999999999940325512426397835952229797840118408203125) (Fin 0.001000000000000000020816681711721685132943093776702880859375) = Fin 0.0120000000000000002498001805406602215953171253204345703125"
  using fl_eqI[of "- 7" "0.01299999999999999940325512426397835952229797840118408203125 - 0.001000000000000000020816681711721685132943093776702880859375" 6917529027641082] by (simp add: rne_def dbl_def)

lemma jpe_den_0_013: "fsub (Fin 0.01299999999999999940325512426397835952229797840118408203125) (Fin 0.0120000000000000002498001805406602215953171253204345703125) = Fin 0.00099999999999999915345494372331813792698085308074951171875"
  using fl_eqI[of "- 10" "0.01299999999999999940325512426397835952229797840118408203125 - 0.0120000000000000002498001805406602215953171253204345703125" 4611686018427384] by (simp add: rne_def dbl_def)

lemma jpe_pe_0_013: "fdiv (Fin 0.5) (Fin 0.00099999999999999915345494372331813792698085308074951171875) = Fin 500.00000000000039790393202565610408782958984375"
  using fl_eqI[of 8 "0.5 / 0.00099999999999999915345494372331813792698085308074951171875" 8796093022208007] by (simp add: rne_def dbl_def)

lemma jpe_cap_0_11: "fsub (Fin 0.11000000000000000055511151231257827021181583404541015625) (Fin 0.001000000000000000020816681711721685132943093776702880859375) = Fin 0.10899999999999999966693309261245303787291049957275390625"
  using fl_eqI[of "- 4" "0.11000000000000000055511151231257827021181583404541015625 - 0.001000000000000000020816681711721685132943093776702880859375" 7854277750134145] by (simp add: rne_def dbl_def)

lemma jpe_den_0_11: "fsub (Fin 0.11000000000000000055511151231257827021181583404541015625) (Fin 0.1000000000000000055511151231257827021181583404541015625) = Fin 0.00999999999999999500399638918679556809365749359130859375"
  using fl_eqI[of "- 7" "0.11000000000000000055511151231257827021181583404541015625 - 0.1000000000000000055511151231257827021181583404541015625" 5764607523034232] by (simp add: rne_def dbl_def)

lemma jpe_pe_0_11: "fdiv (Fin 0.5) (Fin 0.00999999999999999500399638918679556809365749359130859375) = Fin 50.000000000000028421709430404007434844970703125"
  using fl_eqI[of 5 "0.5 / 0.00999999999999999500399638918679556809365749359130859375" 7036874417766404] by (simp add: rne_def dbl_def)

lemma jpe_pps_0_11: "fmul (Fin 50.000000000000028421709430404007434844970703125) (Fin 4.0999999999999996447286321199499070644378662109375) = Fin 205.000000000000085265128291212022304534912109375"
  using fl_eqI[of 7 "50.000000000000028421709430404007434844970703125 * 4.0999999999999996447286321199499070644378662109375" 7212796278210563] by (simp add: rne_def dbl_def)

lemma jpe_cap_0_12: "fsub (Fin 0.11999999999999999555910790149937383830547332763671875) (Fin 0.001000000000000000020816681711721685132943093776702880859375) = Fin 0.1189999999999999946709294817992486059665679931640625"
  using fl_eqI[of "- 4" "0.11999999999999999555910790149937383830547332763671875 - 0.001000000000000000020816681711721685132943093776702880859375" 8574853690513424] by (simp add: rne_def dbl_def)

lemma jpe_den_0_12: "fsub (Fin 0.11999999999999999555910790149937383830547332763671875) (Fin 0.1000000000000000055511151231257827021181583404541015625) = Fin 0.0199999999999999900079927783735911361873149871826171875"
  using fl_eqI[of "- 6" "0.11999999999999999555910790149937383830547332763671875 - 0.1000000000000000055511151231257827021181583404541015625" 5764607523034232] by (simp add: rne_def dbl_def)

lemma jpe_pe_0_12: "fdiv (Fin 0.5) (Fin 0.0199999999999999900079927783735911361873149871826171875) = Fin 25.0000000000000142108547152020037174224853515625"
  using fl_eqI[of 4 "0.5 / 0.0199999999999999900079927783735911361873149871826171875" 7036874417766404] by (simp add: rne_def dbl_def)

lemma jpe_pps_0_12: "fmul (Fin 25.0000000000000142108547152020037174224853515625) (Fin 4.0999999999999996447286321199499070644378662109375) = Fin 102.5000000000000426325641456060111522674560546875"
  using fl_eqI[of 6 "25.0000000000000142108547152020037174224853515625 * 4.0999999999999996447286321199499070644378662109375" 7212796278210563] by (simp add: rne_def dbl_def)

lemma jpe_cap_0_4: "fsub (Fin 0.40000000000000002220446049250313080847263336181640625) (Fin 0.001000000000000000020816681711721685132943093776702880859375) = Fin 0.39900000000000002131628207280300557613372802734375"
  using fl_eqI[of "- 2" "0.40000000000000002220446049250313080847263336181640625 - 0.001000000000000000020816681711721685132943093776702880859375" 7187745005283312] by (simp add: rne_def dbl_def)

lemma jpe_den_0_4: "fsub (Fin 0.40000000000000002220446049250313080847263336181640625) (Fin 0.1000000000000000055511151231257827021181583404541015625) = Fin 0.3000000000000000444089209850062616169452667236328125"
  using fl_eqI[of "- 2" "0.40000000000000002220446049250313080847263336181640625 - 0.1000000000000000055511151231257827021181583404541015625" 5404319552844596] by (simp add: rne_def dbl_def)

lemma jpe_pe_0_4: "fdiv (Fin 0.5) (Fin 0.3000000000000000444089209850062616169452667236328125) = Fin 1.666666666666666518636930049979127943515777587890625"
  using fl_eqI[of 0 "0.5 / 0.3000000000000000444089209850062616169452667236328125" 7505999378950826] by (simp add: rne_def dbl_def)

lemma jpe_cap_0_4_next: "fsub (Fin 0.400000000000000077715611723760957829654216766357421875) (Fin 0.001000000000000000020816681711721685132943093776702880859375) = Fin 0.399000000000000076827433304060832597315311431884765625"
  using fl_eqI[of "- 2" "0.400000000000000077715611723760957829654216766357421875 - 0.001000000000000000020816681711721685132943093776702880859375" 7187745005283313] by (simp add: rne_def dbl_def)

lemma jpe_den_0_4_next: "fsub (Fin 0.400000000000000077715611723760957829654216766357421875) (Fin 0.1000000000000000055511151231257827021181583404541015625) = Fin 0.3000000000000000444089209850062616169452667236328125"
  using fl_eqI[of "- 2" "0.400000000000000077715611723760957829654216766357421875 - 0.1000000000000000055511151231257827021181583404541015625" 5404319552844596] by (simp add: rne_def dbl_def)

lemma jpe_pe_0_4_next: "fdiv (Fin 0.5) (Fin 0.3000000000000000444089209850062616169452667236328125) = Fin 1.666666666666666518636930049979127943515777587890625"
  using fl_eqI[of 0 "0.5 / 0.3000000000000000444089209850062616169452667236328125" 7505999378950826] by (simp add: rne_def dbl_def)

text \<open>
  The two regimes of the growth cap \<open>g = min(ROE b, ke - 0.001)\<close>.
\<close>

lemma computeJustifiedPE_uncapped:
  assumes b: "b = (if b_plowback_ratio B > 0 then b_plowback_ratio B
                   else fsub 1 (b_payout_ratio B))"
    and G: "fmul (if b_roe B > 0 then b_roe B else dbl 0.10) b = Fin G"
    and nocap: "Fin G \<le> fsub (Fin k) (dbl 0.001)"
    and pos: "G < k"
  shows "computeJustifiedPE B a (Fin k) =
           \<lparr> jpe_pps_jpe = fmul (fdiv (fsub 1 b) (fsub (Fin k) (Fin G)))
                              (fmul (b_eps B) (fadd 1 (a_yr1_g a))),
             jpe_justifiedPE = fdiv (fsub 1 b) (fsub (Fin k) (Fin G)) \<rparr>"
proof -
  have m: "Math_min (Fin G) (fsub (Fin k) (dbl 0.001)) = Fin G"
    using number_le_not_less[OF nocap] unfolding dbl_0_001
    by (simp add: Math_min_def)
  have g: "\<not> Fin k \<le> Fin G" using pos by simp
  show ?thesis
    unfolding computeJustifiedPE_def Let_def b[symmetric] G m using g by simp
qed

lemma computeJustifiedPE_capped:
  assumes b: "b = (if b_plowback_ratio B > 0 then b_plowback_ratio B
                   else fsub 1 (b_payout_ratio B))"
    and G: "fmul (if b_roe B > 0 then b_roe B else dbl 0.10) b = Fin G"
    and cap: "fsub (Fin k) (dbl 0.001) < Fin G"
    and below: "fsub (Fin k) (dbl 0.001) < Fin k"
  shows "computeJustifiedPE B a (Fin k) =
           \<lparr> jpe_pps_jpe = fmul (fdiv (fsub 1 b) (fsub (Fin k) (fsub (Fin k) (dbl 0.001))))
                              (fmul (b_eps B) (fadd 1 (a_yr1_g a))),
             jpe_justifiedPE = fdiv (fsub 1 b) (fsub (Fin k) (fsub (Fin k) (dbl 0.001))) \<rparr>"
proof -
  have m: "Math_min (Fin G) (fsub (Fin k) (dbl 0.001)) = fsub (Fin k) (dbl 0.001)"
    using cap unfolding dbl_0_001 by (simp add: Math_min_def)
  have g: "\<not> Fin k \<le> fsub (Fin k) (dbl 0.001)" using below by (rule number_less_not_le)
  show ?thesis
    unfolding computeJustifiedPE_def Let_def b[symmetric] G m using g by simp
qed


lemma profitable_fields:
  "b_roe profitable_baseline = dbl 0.2"
  "b_plowback_ratio profitable_baseline = Fin 0.5"
  "b_eps profitable_baseline = Fin 4"
  "a_yr1_g (DEFAULT_ASSUMPTIONS \<lparr> a_yr1_g := dbl 0.025 \<rparr>) = dbl 0.025"
  by (simp_all add: profitable_baseline_def example_baseline_def)

lemma profitable_inputs:
  "Fin 0.5 = (if b_plowback_ratio profitable_baseline > 0
              then b_plowback_ratio profitable_baseline
              else fsub 1 (b_payout_ratio profitable_baseline))"
  "fmul (if b_roe profitable_baseline > 0 then b_roe profitable_baseline else dbl 0.10) (Fin 0.5)
     = Fin 0.1000000000000000055511151231257827021181583404541015625"
  "fsub 1 (Fin 0.5) = Fin 0.5"
  "fmul (b_eps profitable_baseline)
     (fadd 1 (a_yr1_g (DEFAULT_ASSUMPTIONS \<lparr> a_yr1_g := dbl 0.025 \<rparr>)))
     = Fin 4.0999999999999996447286321199499070644378662109375"
proof -
  show "Fin 0.5 = (if b_plowback_ratio profitable_baseline > 0
              then b_plowback_ratio profitable_baseline
              else fsub 1 (b_payout_ratio profitable_baseline))"
    unfolding profitable_fields by simp
  have "(if b_roe profitable_baseline > 0 then b_roe profitable_baseline else dbl 0.10)
          = Fin 0.200000000000000011102230246251565404236316680908203125"
    unfolding profitable_fields dbl_0_2 by simp
  then show "fmul (if b_roe profitable_baseline > 0 then b_roe profitable_baseline else dbl 0.10)
       (Fin 0.5) = Fin 0.1000000000000000055511151231257827021181583404541015625"
    using jpe_growth by (simp only:)
  show "fsub 1 (Fin 0.5) = Fin 0.5"
    unfolding one_Fin by (rule jpe_payout)
  show "fmul (b_eps profitable_baseline)
     (fadd 1 (a_yr1_g (DEFAULT_ASSUMPTIONS \<lparr> a_yr1_g := dbl 0.025 \<rparr>)))
     = Fin 4.0999999999999996447286321199499070644378662109375"
    unfolding profitable_fields unfolding one_Fin dbl_0_025 jpe_one_plus_g
    by (rule jpe_forward_eps)
qed


lemma capped_PE:
  assumes k: "dbl c = Fin k"
    and cap: "fsub (Fin k) (Fin 0.001000000000000000020816681711721685132943093776702880859375) = Fin m"
    and m: "m < 0.1000000000000000055511151231257827021181583404541015625" "m < k"
    and den: "fsub (Fin k) (Fin m) = Fin d"
    and pe: "fdiv (Fin 0.5) (Fin d) = Fin v"
  shows "jpe_justifiedPE (computeJustifiedPE profitable_baseline a (dbl c)) = Fin v"
proof -
  have c1: "fsub (Fin k) (dbl 0.001) < Fin 0.1000000000000000055511151231257827021181583404541015625"
    unfolding dbl_0_001 cap using m(1) by simp
  have c2: "fsub (Fin k) (dbl 0.001) < Fin k"
    unfolding dbl_0_001 cap using m(2) by simp
  have "jpe_justifiedPE (computeJustifiedPE profitable_baseline a (Fin k))
          = fdiv (fsub 1 (Fin 0.5)) (fsub (Fin k) (fsub (Fin k) (dbl 0.001)))"
    using computeJustifiedPE_capped[OF profitable_inputs(1,2) c1 c2, of a] by simp
  then show ?thesis
    unfolding k profitable_inputs(3) dbl_0_001 cap den pe .
qed

text \<open>
  The claim as stated fails where the growth cap binds: at costs of equity of 5% and of
  8% the justified P/E is the same, and at 1.1% it is smaller than at 1.3%, by the
  rounding of \<open>ke - (ke - 0.001)\<close>. Where the cap does not bind it fails for two costs
  of equity that are close: 0.4 and the next double above it give the same difference
  \<open>ke - ROE b\<close> and so the same justified P/E.
\<close>

lemma uncapped_PE:
  assumes cap: "fsub (Fin k) (Fin 0.001000000000000000020816681711721685132943093776702880859375) = Fin m"
    and m: "0.1000000000000000055511151231257827021181583404541015625 \<le> m"
    and den: "fsub (Fin k) (Fin 0.1000000000000000055511151231257827021181583404541015625) = Fin d"
    and k: "0.1000000000000000055511151231257827021181583404541015625 < k"
    and pe: "fdiv (Fin 0.5) (Fin d) = Fin v"
  shows "jpe_justifiedPE (computeJustifiedPE profitable_baseline a (Fin k)) = Fin v"
proof -
  have nocap: "Fin 0.1000000000000000055511151231257827021181583404541015625 \<le> fsub (Fin k) (dbl 0.001)"
    unfolding dbl_0_001 cap using m by simp
  have "jpe_justifiedPE (computeJustifiedPE profitable_baseline a (Fin k))
          = fdiv (fsub 1 (Fin 0.5)) (fsub (Fin k) (Fin 0.1000000000000000055511151231257827021181583404541015625))"
    using computeJustifiedPE_uncapped[OF profitable_inputs(1,2) nocap k, of a] by simp
  then show ?thesis
    unfolding profitable_inputs(3) den pe .
qed


section \<open>Annual XBRL entries\<close>

lemma dedup_inv_Nil: "dedup_inv [] []"
  by (simp add: dedup_inv_def)

lemma dedup_inv_update:
  assumes inv: "dedup_inv xs m"
    and newer: "\<And>ex. map_of m (x_end e) = Some ex \<Longrightarrow> filed_or_empty ex \<le> filed_or_empty e"
  shows "dedup_inv (xs @ [e]) (AList.update (x_end e) e m)"
proof -
  have p1: "distinct (map fst (AList.update (x_end e) e m))"
    using inv by (simp add: dedup_inv_def distinct_update)
  have p2: "\<forall>k v. map_of (AList.update (x_end e) e m) k = Some v
              \<longrightarrow> v \<in> set (xs @ [e]) \<and> x_end v = k"
  proof (intro allI impI)
    fix k v
    assume "map_of (AList.update (x_end e) e m) k = Some v"
    then have kv: "((map_of m)(x_end e \<mapsto> e)) k = Some v" by (simp add: update_conv')
    show "v \<in> set (xs @ [e]) \<and> x_end v = k"
    proof (cases "k = x_end e")
      case True
      then show ?thesis using kv by simp
    next
      case False
      then have "map_of m k = Some v" using kv by simp
      then have "v \<in> set xs \<and> x_end v = k" using inv unfolding dedup_inv_def by blast
      then show ?thesis by simp
    qed
  qed
  have p3: "\<forall>y \<in> set (xs @ [e]). \<exists>v. map_of (AList.update (x_end e) e m) (x_end y) = Some v
            \<and> filed_or_empty y \<le> filed_or_empty v"
  proof
    fix y
    assume y: "y \<in> set (xs @ [e])"
    show "\<exists>v. map_of (AList.update (x_end e) e m) (x_end y) = Some v
            \<and> filed_or_empty y \<le> filed_or_empty v"
    proof (cases "x_end y = x_end e")
      case False
      then have "y \<in> set xs" using y by auto
      then obtain v where "map_of m (x_end y) = Some v" "filed_or_empty y \<le> filed_or_empty v"
        using inv unfolding dedup_inv_def by blast
      then show ?thesis using False by (simp add: update_conv')
    next
      case True
      have "filed_or_empty y \<le> filed_or_empty e"
      proof (cases "y = e")
        case True
        then show ?thesis by simp
      next
        case False
        then have "y \<in> set xs" using y by auto
        then obtain v where v: "map_of m (x_end y) = Some v"
            "filed_or_empty y \<le> filed_or_empty v"
          using inv unfolding dedup_inv_def by blast
        then have "filed_or_empty v \<le> filed_or_empty e" using newer True by simp
        with v(2) show ?thesis by (rule order_trans)
      qed
      then show ?thesis using True by (simp add: update_conv')
    qed
  qed
  show ?thesis unfolding dedup_inv_def by (intro conjI p1 p2 p3)
qed

lemma dedup_inv_keep:
  assumes inv: "dedup_inv xs m"
    and ex: "map_of m (x_end e) = Some ex" "filed_or_empty e \<le> filed_or_empty ex"
  shows "dedup_inv (xs @ [e]) m"
proof -
  have p1: "distinct (map fst m)" using inv by (simp add: dedup_inv_def)
  have p2: "\<forall>k v. map_of m k = Some v \<longrightarrow> v \<in> set (xs @ [e]) \<and> x_end v = k"
    using inv unfolding dedup_inv_def by simp
  have p3: "\<forall>y \<in> set (xs @ [e]). \<exists>v. map_of m (x_end y) = Some v
              \<and> filed_or_empty y \<le> filed_or_empty v"
  proof
    fix y
    assume y: "y \<in> set (xs @ [e])"
    show "\<exists>v. map_of m (x_end y) = Some v \<and> filed_or_empty y \<le> filed_or_empty v"
    proof (cases "y = e")
      case True
      then show ?thesis using ex by blast
    next
      case False
      then have "y \<in> set xs" using y by auto
      then show ?thesis using inv unfolding dedup_inv_def by blast
    qed
  qed
  show ?thesis unfolding dedup_inv_def by (intro conjI p1 p2 p3)
qed

lemma dedup_inv_step:
  assumes "dedup_inv xs m"
  shows "dedup_inv (xs @ [e]) (dedup_step m e)"
proof (cases "map_of m (x_end e)")
  case None
  then have step: "dedup_step m e = AList.update (x_end e) e m"
    by (simp add: dedup_step_def)
  show ?thesis unfolding step
    by (rule dedup_inv_update[OF assms]) (simp add: None)
next
  case (Some ex)
  show ?thesis
  proof (cases "filed_or_empty e > filed_or_empty ex")
    case True
    then have step: "dedup_step m e = AList.update (x_end e) e m"
      using Some by (simp add: dedup_step_def)
    show ?thesis unfolding step
      by (rule dedup_inv_update[OF assms]) (use Some True in simp)
  next
    case False
    then have step: "dedup_step m e = m"
      using Some by (simp add: dedup_step_def)
    show ?thesis unfolding step
      by (rule dedup_inv_keep[OF assms Some]) (use False in simp)
  qed
qed

lemma dedup_inv_foldl: "dedup_inv xs (foldl dedup_step [] xs)"
  by (induction xs rule: rev_induct) (simp_all add: dedup_inv_Nil dedup_inv_step)

lemma set_insert_by [simp]: "set (insert_by c x ys) = insert x (set ys)"
  by (induction ys) auto

lemma set_Array_sort [simp]: "set (Array_sort c xs) = set xs"
  unfolding Array_sort_def by (induction xs) auto

lemma distinct_map_insert_by:
  "distinct (map f (insert_by c x ys)) \<longleftrightarrow> f x \<notin> f ` set ys \<and> distinct (map f ys)"
  by (induction ys) auto

lemma distinct_map_Array_sort: "distinct (map f (Array_sort c xs)) = distinct (map f xs)"
  unfolding Array_sort_def by (induction xs) (auto simp: distinct_map_insert_by simp flip: Array_sort_def)

text \<open>
  The filter of the code, spelled out: an annual form, a start and an end date, and a
  duration of 300 to 400 days.
\<close>

lemma is_annual_iff:
  "is_annual getTime v \<longleftrightarrow>
     x_form v \<in> {Some ''10-K'', Some ''10-K/A'', Some ''20-F'', Some ''40-F''} \<and>
     (\<exists>s ts te. x_start v = Some s \<and> s \<noteq> [] \<and> x_end v \<noteq> [] \<and>
        getTime s = Some ts \<and> getTime (x_end v) = Some te \<and>
        300 * 86400000 \<le> te - ts \<and> te - ts \<le> 400 * 86400000)"
proof (cases "x_start v")
  case None
  then show ?thesis by (simp add: is_annual_def)
next
  case (Some s)
  show ?thesis
  proof (cases "getTime s")
    case None
    then show ?thesis using Some
      by (simp add: is_annual_def Date_getTime_def Let_def minus_number_def divide_number_def
          less_eq_number_def split: option.splits)
  next
    case ts: (Some ts)
    show ?thesis
    proof (cases "getTime (x_end v)")
      case None
      then show ?thesis using Some ts
        by (simp add: is_annual_def Date_getTime_def Let_def minus_number_def divide_number_def
            less_eq_number_def)
    next
      case te: (Some te)
      have a: "300 \<le> (real_of_int te - real_of_int ts) / 86400000
                 \<longleftrightarrow> 300 * 86400000 \<le> te - ts"
        by (simp add: field_simps) linarith
      have b: "(real_of_int te - real_of_int ts) / 86400000 \<le> 400
                 \<longleftrightarrow> te - ts \<le> 400 * 86400000"
        by (simp add: field_simps) linarith
      show ?thesis using Some ts te
        by (auto simp add: is_annual_def Date_getTime_def Let_def isAnnualForm_def a b)
    qed
  qed
qed



lemma ex_annual:
  "is_annual example_getTime (annualEntry fm v ''2023-01-01'' f)
     \<longleftrightarrow> fm \<in> {''10-K'', ''10-K/A'', ''20-F'', ''40-F''}"
  "\<not> is_annual example_getTime (annualEntry fm v ''2023-07-01'' f)"
  by (auto simp add: is_annual_iff annualEntry_def example_getTime_def)

lemma annualEntry_sel:
  "x_end (annualEntry fm v st f) = ''2023-12-31''" "x_filed (annualEntry fm v st f) = Some f"
  by (simp_all add: annualEntry_def)

lemma ex_pick:
  "pickAnnual example_getTime example_localeCompare example_entries
     = [annualEntry ''10-K/A'' (Fin 1000000) ''2023-01-01'' ''2024-02-28'']"
  unfolding pickAnnual_def example_entries_def Let_def
  by (simp add: ex_annual dedup_step_def filed_or_empty_def annualEntry_sel Array_sort_def)


section \<open>The orchestrator\<close>

text \<open>
  \<open>computeAll\<close> throws for an empty projection (it reads \<open>ebitda\<close> of the last pro-forma
  row) and returns otherwise: the residual income model throws only for an empty
  projection as well.
\<close>

lemma length_buildGrowthSchedule [simp]:
  "length (buildGrowthSchedule a) = a_proj_years_n a"
  by (simp add: buildGrowthSchedule_def)

lemma length_buildProforma [simp]:
  "length (buildProforma B gs a) = length gs"
  by (simp add: buildProforma_def Let_def)

lemma buildProforma_eq_Nil [simp]:
  "buildProforma B gs a = [] \<longleftrightarrow> gs = []"
  using length_buildProforma[of B gs a] by (metis length_0_conv)

lemma buildGrowthSchedule_eq_Nil [simp]:
  "buildGrowthSchedule a = [] \<longleftrightarrow> a_proj_years_n a = 0"
  using length_buildGrowthSchedule[of a] by (metis length_0_conv)

lemma computeRI_Inr:
  "a_proj_years_n a \<noteq> 0 \<Longrightarrow> \<exists>ri. computeRI B a ke = Inr ri"
  by (simp add: computeRI_def Let_def)

lemma computeRI_case:
  "a_proj_years_n a \<noteq> 0 \<Longrightarrow>
   (case computeRI B a ke of Inl e \<Rightarrow> Inl e | Inr ri \<Rightarrow> Inr (f ri))
     = Inr (f (projr (computeRI B a ke)))"
  using computeRI_Inr[of a B ke] by auto

lemma computeAll_Inl:
  "a_proj_years_n a = 0 \<Longrightarrow> computeAll B comps segs acqs hist a = Inl TypeError"
  unfolding computeAll_def Let_def by (simp split del: if_split)

lemma in_signalRows_of:
  "r \<in> set (signalRows_of B vals) \<Longrightarrow>
   (sr_method r, sr_intrinsicValue r) \<in> set vals \<and> 0 < sr_intrinsicValue r"
  by (auto simp: signalRows_of_def)

lemma signalRows_of_values:
  "map (\<lambda>r. (sr_method r, sr_intrinsicValue r)) (signalRows_of B vals)
     = filter (\<lambda>(method, v). 0 < v) vals"
  by (simp add: signalRows_of_def comp_def case_prod_unfold)

lemma count_of_count_vote:
  "s \<noteq> NA \<Longrightarrow>
   count_of (count_vote acc r) s = count_of acc s + (if sr_signal r = s then 1 else 0)"
  by (auto simp: count_of_def count_vote_def update_conv' split: option.splits)

lemma count_of_Nil: "count_of [] s = 0"
  by (simp add: count_of_def)

lemma count_of_foldl:
  "s \<noteq> NA \<Longrightarrow>
   count_of (foldl count_vote acc rows) s
     = count_of acc s + length (filter (\<lambda>r. sr_signal r = s) rows)"
  by (induction rows arbitrary: acc) (simp_all add: count_of_count_vote)

lemma computeAll_signal_table:
  assumes "a_proj_years_n a \<noteq> 0"
  shows "\<exists>c. computeAll B comps segs acqs hist a = Inr c \<and>
     c_signalRows c =
       signalRows_of B
         (signalValues_of (c_pps_fcff c) (c_pps_fcfe c) (c_pps_ri c) (c_pps_ddm c)
            (c_pps_hddm c) (c_pps_ebitda c) (c_pps_rev c) (c_pps_pe c) (c_pps_jpe c)
            (c_pps_jpb c) (c_pps_peg c) (c_pps_pb c) (c_pps_pcf c) (c_pps_sotp c)) \<and>
     c_buys c = length (filter (\<lambda>r. sr_signal r = BUY) (c_signalRows c)) \<and>
     c_holds c = length (filter (\<lambda>r. sr_signal r = HOLD) (c_signalRows c)) \<and>
     c_sells c = length (filter (\<lambda>r. sr_signal r = SELL) (c_signalRows c))"
  unfolding computeAll_def Let_def using assms
  by (simp add: computeRI_case count_of_foldl count_of_Nil split del: if_split
        cong del: if_weak_cong)

lemma computeAll_multiples:
  assumes "a_proj_years_n a \<noteq> 0"
  shows "\<exists>c. computeAll B comps segs acqs hist a = Inr c \<and>
     c_pps_ebitda c =
       (if truthy (b_shares_diluted B)
        then (b_adj_ebitda B * median (map comp_ev_ebitda comps) - b_net_debt B)
               / b_shares_diluted B
        else 0) \<and>
     c_pps_rev c =
       (if truthy (b_shares_diluted B)
        then (b_revenue B * median (map comp_ev_rev comps) - b_net_debt B)
               / b_shares_diluted B
        else 0) \<and>
     c_pps_pe c = median (map comp_pe comps) * b_adj_eps B \<and>
     c_pps_peg c =
       median (map comp_peg comps) * (if c_epsCAGR c > 0 then c_epsCAGR c else Fin 0.05)
         * Fin 100 * b_adj_eps B \<and>
     c_pps_pb c = median (map comp_pb comps) * b_bvps B \<and>
     c_epsCAGR c =
       (if length hist \<ge> 2 \<and> hist ! 0 > 0
        then pow_recip (hist ! (length hist - 1) / hist ! 0) (max (length hist - 1) 1) - 1
        else Fin 0.05)"
  unfolding computeAll_def Let_def using assms
  by (simp add: computeRI_case split del: if_split cong del: if_weak_cong)

text \<open>
  The signal table holds exactly the models whose value compares greater than zero, in
  the order of the table of values; so no row has a value that is zero, negative or
  \<open>NaN\<close>, and only those rows are counted as votes (see \<open>computeAll_signal_table\<close>).
  A value of \<open>+Infinity\<close> compares greater than zero and stays in the table.
\<close>

lemma computeAll_signalRows_positive:
  assumes "computeAll B comps segs acqs hist a = Inr c"
  shows "\<forall>r \<in> set (c_signalRows c). 0 < sr_intrinsicValue r"
proof -
  have n: "a_proj_years_n a \<noteq> 0"
    using assms computeAll_Inl[of a B comps segs acqs hist] by auto
  obtain c' where "computeAll B comps segs acqs hist a = Inr c'"
    and "c_signalRows c' =
       signalRows_of B
         (signalValues_of (c_pps_fcff c') (c_pps_fcfe c') (c_pps_ri c') (c_pps_ddm c')
            (c_pps_hddm c') (c_pps_ebitda c') (c_pps_rev c') (c_pps_pe c') (c_pps_jpe c')
            (c_pps_jpb c') (c_pps_peg c') (c_pps_pb c') (c_pps_pcf c') (c_pps_sotp c'))"
    using computeAll_signal_table[OF n] by blast
  then show ?thesis using assms in_signalRows_of by auto
qed

lemma signalRows_of_infinite:
  "map sr_intrinsicValue (signalRows_of B [(method, PInf)]) = [PInf]"
  by (simp add: signalRows_of_def less_number_def)

lemma example_medians:
  "median (map comp_ev_ebitda example_comps) = Fin 12.75"
  "median (map comp_ev_rev example_comps) = Fin 2.9"
  "median (map comp_pe example_comps) = Fin 23"
  "median (map comp_peg example_comps) = Fin 1.55"
  "median (map comp_pb example_comps) = Fin 4.4"
  by (simp_all add: median_def example_comps_def Let_def)

lemma DEFAULT_ASSUMPTIONS_years: "a_proj_years_n DEFAULT_ASSUMPTIONS \<noteq> 0"
  by (simp add: DEFAULT_ASSUMPTIONS_def)

text \<open>
  Claim C1 fails on the code. For the example company, which makes a loss of 1 per
  share, with the four peers of a live configuration and the default assumptions, the
  P/E and PEG models give the negative values -23 and -7.75. Both are left out of the
  signal table, but the summary card averages all five multiples over five: its
  multiples average is 10.975, where the three positive multiples alone average 28.54,
  and the blended figure is 35% of the FCFF price plus 45% of that average plus 20% of
  the SOTP price.
\<close>

theorem summary_blends_excluded_models:
  "\<exists>c. computeAll example_baseline example_comps [] [] [] DEFAULT_ASSUMPTIONS = Inr c \<and>
     c_pps_ebitda c = Fin 39.625 \<and> c_pps_rev c = Fin 24 \<and> c_pps_pe c = Fin (- 23) \<and>
     c_pps_peg c = Fin (- 7.75) \<and> c_pps_pb c = Fin 22 \<and>
     ''P/E Multiple'' \<notin> sr_method ` set (c_signalRows c) \<and>
     ''PEG'' \<notin> sr_method ` set (c_signalRows c) \<and>
     sd_multiplesAvg (summaryData example_baseline c) = Fin 10.975 \<and>
     sd_intrinsicValue (summaryData example_baseline c)
       = c_pps_fcff c * Fin 0.35 + Fin 10.975 * Fin 0.45 + c_pps_sotp c * Fin 0.20"
proof -
  obtain c where c: "computeAll example_baseline example_comps [] [] [] DEFAULT_ASSUMPTIONS = Inr c"
    and rows: "c_signalRows c =
       signalRows_of example_baseline
         (signalValues_of (c_pps_fcff c) (c_pps_fcfe c) (c_pps_ri c) (c_pps_ddm c)
            (c_pps_hddm c) (c_pps_ebitda c) (c_pps_rev c) (c_pps_pe c) (c_pps_jpe c)
            (c_pps_jpb c) (c_pps_peg c) (c_pps_pb c) (c_pps_pcf c) (c_pps_sotp c))"
    using computeAll_signal_table[OF DEFAULT_ASSUMPTIONS_years] by blast
  obtain c' where c': "computeAll example_baseline example_comps [] [] [] DEFAULT_ASSUMPTIONS = Inr c'"
    and m: "c_pps_ebitda c' =
       (if truthy (b_shares_diluted example_baseline)
        then (b_adj_ebitda example_baseline * median (map comp_ev_ebitda example_comps)
                - b_net_debt example_baseline) / b_shares_diluted example_baseline
        else 0)"
      "c_pps_rev c' =
       (if truthy (b_shares_diluted example_baseline)
        then (b_revenue example_baseline * median (map comp_ev_rev example_comps)
                - b_net_debt example_baseline) / b_shares_diluted example_baseline
        else 0)"
      "c_pps_pe c' = median (map comp_pe example_comps) * b_adj_eps example_baseline"
      "c_pps_peg c' =
       median (map comp_peg example_comps)
         * (if c_epsCAGR c' > 0 then c_epsCAGR c' else Fin 0.05)
         * Fin 100 * b_adj_eps example_baseline"
      "c_pps_pb c' = median (map comp_pb example_comps) * b_bvps example_baseline"
      "c_epsCAGR c' =
       (if length ([] :: number list) \<ge> 2 \<and> [] ! 0 > (0 :: number)
        then pow_recip ([] ! (length ([] :: number list) - 1) / [] ! 0)
               (max (length ([] :: number list) - 1) 1) - 1
        else Fin 0.05)"
    using computeAll_multiples[OF DEFAULT_ASSUMPTIONS_years] by blast
  have same: "c' = c" using c c' by simp
  have cagr: "c_epsCAGR c = Fin 0.05" using m(6) unfolding same by simp
  have v: "c_pps_ebitda c = Fin 39.625" "c_pps_rev c = Fin 24" "c_pps_pe c = Fin (- 23)"
    "c_pps_peg c = Fin (- 7.75)" "c_pps_pb c = Fin 22"
    using m(1-5) unfolding same cagr example_medians
    by (simp_all add: example_baseline_def)
  have no_pe: "''P/E Multiple'' \<notin> sr_method ` set (c_signalRows c)"
  proof
    assume "''P/E Multiple'' \<in> sr_method ` set (c_signalRows c)"
    then obtain r where r: "r \<in> set (c_signalRows c)" "sr_method r = ''P/E Multiple''"
      by auto
    then have "(''P/E Multiple'', sr_intrinsicValue r) \<in> set (signalValues_of (c_pps_fcff c)
            (c_pps_fcfe c) (c_pps_ri c) (c_pps_ddm c)
            (c_pps_hddm c) (c_pps_ebitda c) (c_pps_rev c) (c_pps_pe c) (c_pps_jpe c)
            (c_pps_jpb c) (c_pps_peg c) (c_pps_pb c) (c_pps_pcf c) (c_pps_sotp c))"
      and pos: "0 < sr_intrinsicValue r"
      using in_signalRows_of[of r example_baseline] unfolding rows by auto
    then have "sr_intrinsicValue r = c_pps_pe c" by (simp add: signalValues_of_def)
    then show False using pos v by simp
  qed
  have no_peg: "''PEG'' \<notin> sr_method ` set (c_signalRows c)"
  proof
    assume "''PEG'' \<in> sr_method ` set (c_signalRows c)"
    then obtain r where r: "r \<in> set (c_signalRows c)" "sr_method r = ''PEG''"
      by auto
    then have "(''PEG'', sr_intrinsicValue r) \<in> set (signalValues_of (c_pps_fcff c)
            (c_pps_fcfe c) (c_pps_ri c) (c_pps_ddm c)
            (c_pps_hddm c) (c_pps_ebitda c) (c_pps_rev c) (c_pps_pe c) (c_pps_jpe c)
            (c_pps_jpb c) (c_pps_peg c) (c_pps_pb c) (c_pps_pcf c) (c_pps_sotp c))"
      and pos: "0 < sr_intrinsicValue r"
      using in_signalRows_of[of r example_baseline] unfolding rows by auto
    then have "sr_intrinsicValue r = c_pps_peg c" by (simp add: signalValues_of_def)
    then show False using pos v by simp
  qed
  have avg: "sd_multiplesAvg (summaryData example_baseline c) = Fin 10.975"
    by (simp add: summaryData_def Let_def v)
  have blend: "sd_intrinsicValue (summaryData example_baseline c)
       = c_pps_fcff c * Fin 0.35 + Fin 10.975 * Fin 0.45 + c_pps_sotp c * Fin 0.20"
    by (simp add: summaryData_def Let_def v)
  show ?thesis using c v no_pe no_peg avg blend by blast
qed

section \<open>Bear against Base\<close>

text \<open>
  On finite cashflows and a finite discount rate other than -1 the exact operators give
  the discounted sum in closed form.
\<close>

lemma at_num_map_Fin [simp]:
  "i < n \<Longrightarrow> at_num (map (\<lambda>j. Fin (d j)) [0 ..< n]) (int i) = Fin (d i)"
  by (simp add: at_num_def)

lemma foldl_discount_Fin:
  "length cs \<le> n \<Longrightarrow>
   foldl (\<lambda>acc (f, i). acc + f * at_num (map (\<lambda>j. Fin (d j)) [0 ..< n]) (int i)) (Fin a)
     (zip (map Fin cs) [0 ..< length cs])
   = Fin (a + (\<Sum>j<length cs. cs ! j * d j))"
proof (induction cs rule: rev_induct)
  case Nil
  then show ?case by simp
next
  case (snoc c cs)
  have m: "length cs < n" "length cs \<le> n" using snoc.prems by simp_all
  have cong: "(\<Sum>j<length cs. (cs @ [c]) ! j * d j) = (\<Sum>j<length cs. cs ! j * d j)"
    by (rule sum.cong) (simp_all add: nth_append)
  show ?case
    using m by (simp add: snoc.IH cong)
qed

lemma dcfPrice_Fin:
  assumes "cs \<noteq> []" and "1 + r \<noteq> 0"
    and "pv = (\<Sum>i<length cs. cs ! i * (1 / (1 + r) ^ (i + 1)))"
    and "pvtv = tv * (1 / (1 + r) ^ length cs)"
  shows "dcfPrice (map Fin cs) (Fin tv) (Fin r) (Fin nd) (Fin sh) =
     \<lparr> dcf_pps = (if sh \<noteq> 0 then Fin ((pv + pvtv - nd) / sh) else Fin 0),
       dcf_ev = Fin (pv + pvtv),
       dcf_pvFcfs = Fin pv,
       dcf_pvTv = Fin pvtv \<rparr>"
proof -
  let ?n = "length cs"
  let ?d = "\<lambda>i. 1 / (1 + r) ^ (i + 1)"
  have dfs: "map (\<lambda>i. 1 / (1 + Fin r) ^ (i + 1)) [0 ..< ?n] = map (\<lambda>j. Fin (?d j)) [0 ..< ?n]"
    using assms(2) by simp
  have fold: "foldl (\<lambda>acc (f, i). acc + f * at_num (map (\<lambda>j. Fin (?d j)) [0 ..< ?n]) (int i)) (Fin 0)
     (zip (map Fin cs) [0 ..< ?n]) = Fin pv"
    using foldl_discount_Fin[of cs ?n ?d 0] by (simp add: assms(3))
  have n: "0 < ?n" using assms(1) by simp
  have idx: "int ?n - 1 = int (?n - 1)" "?n - 1 + 1 = ?n" "?n - 1 < ?n" using n by linarith+
  have "at_num (map (\<lambda>j. Fin (?d j)) [0 ..< ?n]) (int (?n - 1)) = Fin (?d (?n - 1))"
    by (rule at_num_map_Fin) (rule idx(3))
  then have last: "at_num (map (\<lambda>j. Fin (?d j)) [0 ..< ?n]) (int ?n - 1) = Fin (1 / (1 + r) ^ ?n)"
    unfolding idx by simp
  show ?thesis
    unfolding dcfPrice_def Let_def length_map length_upt diff_zero dfs zero_Fin fold last
    by (simp add: assms(4))
qed

text \<open>
  On finite inputs the projected free cash flow of year \<open>i\<close> is the baseline revenue
  times the compounded growth times a margin that the cost ratios, the tax rate and the
  capital expenditure ratio fix.
\<close>

lemma foldl_growth_Fin:
  "foldl (\<lambda>acc g. acc * (Fin 1 + g)) (Fin x) (map Fin gs)
     = Fin (foldl (\<lambda>acc g. acc * (1 + g)) x gs)"
  by (induction gs arbitrary: x) simp_all

lemma buildProforma_nth:
  "i < length gs \<Longrightarrow>
   r_fcff (buildProforma B gs a ! i) =
     (let rev = b_revenue B * foldl (\<lambda>acc g. acc * (Fin 1 + g)) (Fin 1) (take (i + 1) gs);
          op_inc = rev - rev * (if truthy (b_revenue B) then b_cogs B / b_revenue B else Fin 0.55)
                    - rev * (if truthy (b_revenue B) then b_sga B / b_revenue B else Fin 0.20);
          da = rev * (if truthy (b_revenue B) then b_da_total B / b_revenue B else Fin 0.03)
      in op_inc * (Fin 1 - b_tax_rate B) + da - rev * a_capex_pct a)"
  by (simp add: buildProforma_def Let_def del: take_Suc_Cons)

lemma fcff_factor:
  fixes v :: real
  shows "(v - v * cp - v * sp) * (1 - T) + v * dp - v * c
           = v * ((1 - cp - sp) * (1 - T) + dp - c)"
  by (simp add: algebra_simps)

lemma buildProforma_fcff_Fin:
  assumes "b_revenue B = Fin R" "b_cogs B = Fin C" "b_sga B = Fin S" "b_da_total B = Fin D"
    and "b_tax_rate B = Fin T" "a_capex_pct a = Fin c" "R \<noteq> 0"
  shows "map r_fcff (buildProforma B (map Fin gs) a) =
     map (\<lambda>i. Fin (R * foldl (\<lambda>acc g. acc * (1 + g)) 1 (take (i + 1) gs)
                    * ((1 - C / R - S / R) * (1 - T) + D / R - c)))
       [0 ..< length gs]"
proof (rule nth_equalityI)
  show "length (map r_fcff (buildProforma B (map Fin gs) a)) =
     length (map (\<lambda>i. Fin (R * foldl (\<lambda>acc g. acc * (1 + g)) 1 (take (i + 1) gs)
                    * ((1 - C / R - S / R) * (1 - T) + D / R - c))) [0 ..< length gs])"
    by (simp add: buildProforma_def Let_def)
next
  fix i
  assume "i < length (map r_fcff (buildProforma B (map Fin gs) a))"
  then have i: "i < length gs" by (simp add: buildProforma_def Let_def)
  define P where "P = foldl (\<lambda>acc g. acc * (1 + g)) 1 (take (i + 1) gs)"
  have fold: "foldl (\<lambda>acc g. acc * (Fin 1 + g)) (Fin 1) (take (i + 1) (map Fin gs)) = Fin P"
    unfolding P_def take_map by (rule foldl_growth_Fin)
  have len: "i < length (buildProforma B (map Fin gs) a)"
    using i by (simp add: buildProforma_def Let_def)
  have i': "i < length (map Fin gs)" using i by simp
  have "r_fcff (buildProforma B (map Fin gs) a ! i)
          = Fin ((R * P - R * P * (C / R) - R * P * (S / R)) * (1 - T) + R * P * (D / R) - R * P * c)"
    unfolding buildProforma_nth[OF i'] Let_def fold assms(1-6)
    using assms(7) by simp
  also have "(R * P - R * P * (C / R) - R * P * (S / R)) * (1 - T) + R * P * (D / R) - R * P * c
      = R * P * ((1 - C / R - S / R) * (1 - T) + D / R - c)"
    by (rule fcff_factor)
  finally show "map r_fcff (buildProforma B (map Fin gs) a) ! i =
     map (\<lambda>i. Fin (R * foldl (\<lambda>acc g. acc * (1 + g)) 1 (take (i + 1) gs)
                    * ((1 - C / R - S / R) * (1 - T) + D / R - c))) [0 ..< length gs] ! i"
    using i len unfolding P_def by simp
qed

lemma fade_Fin:
  "(Fin x - Fin 2) / Math_max (Fin y - Fin 3) (Fin 1) = Fin ((x - 2) / max (y - 3) 1)"
proof -
  have "max (y - 3) 1 \<noteq> (0::real)" by (simp add: max_def)
  then show ?thesis by simp
qed

lemma buildGrowthSchedule_Fin:
  assumes "a_yr1_g a = Fin y1" "a_yr2_g a = Fin y2" "a_yr3_g a = Fin y3" "a_lt_g a = Fin lt"
  shows "buildGrowthSchedule a =
     map Fin (map (\<lambda>i. if i = 0 then y1 else if i = 1 then y2 else if i = 2 then y3
                        else y3 + (real i - 2) / max (real (a_proj_years_n a) - 3) 1 * (lt - y3))
                [0 ..< a_proj_years_n a])"
  unfolding buildGrowthSchedule_def Let_def assms fade_Fin map_map
  by (rule map_cong) simp_all

lemma fade_bounds:
  fixes i n :: nat
  assumes "3 \<le> i" "i < n"
  shows "0 \<le> (real i - 2) / max (real n - 3) 1" "(real i - 2) / max (real n - 3) 1 \<le> 1"
proof -
  have m: "max (real n - 3) 1 = real n - 3" using assms by (simp add: max_def)
  have pos: "0 < real n - 3" using assms by simp
  show "0 \<le> (real i - 2) / max (real n - 3) 1" unfolding m using assms pos by simp
  have "real i - 2 \<le> real n - 3" using assms by simp
  then show "(real i - 2) / max (real n - 3) 1 \<le> 1" unfolding m using pos by simp
qed

lemma growth_Bear:
  "\<exists>gs. buildGrowthSchedule (applyScenario a Bear) = map Fin gs \<and>
        length gs = a_proj_years_n a \<and>
        (\<forall>i < length gs. 0.005 \<le> gs ! i \<and> gs ! i \<le> 0.02)"
proof -
  let ?n = "a_proj_years_n a"
  let ?gs = "map (\<lambda>i. if i = 0 then 0.005 else if i = 1 then 0.010 else if i = 2 then 0.020
                        else 0.020 + (real i - 2) / max (real ?n - 3) 1 * (0.020 - 0.020 :: real))
                [0 ..< ?n]"
  have n: "a_proj_years_n (applyScenario a Bear) = ?n" by (simp add: applyScenario_def)
  have "buildGrowthSchedule (applyScenario a Bear) = map Fin ?gs"
    using buildGrowthSchedule_Fin[of "applyScenario a Bear" "0.005" "0.010" "0.020" "0.020"]
    unfolding n by (simp add: applyScenario_def)
  moreover have "length ?gs = ?n" by simp
  moreover have "\<forall>i < length ?gs. 0.005 \<le> ?gs ! i \<and> ?gs ! i \<le> 0.02" by simp
  ultimately show ?thesis by blast
qed

lemma growth_Base:
  "\<exists>gs. buildGrowthSchedule (applyScenario a Base) = map Fin gs \<and>
        length gs = a_proj_years_n a \<and>
        (\<forall>i < length gs. 0.025 \<le> gs ! i \<and> gs ! i \<le> 0.04)"
proof -
  let ?n = "a_proj_years_n a"
  define f :: "nat \<Rightarrow> real" where
    "f = (\<lambda>i. if i = 0 then 0.025 else if i = 1 then 0.035 else if i = 2 then 0.040
                        else 0.040 + (real i - 2) / max (real ?n - 3) 1 * (0.030 - 0.040))"
  have n: "a_proj_years_n (applyScenario a Base) = ?n" by (simp add: applyScenario_def)
  have sched: "buildGrowthSchedule (applyScenario a Base) = map Fin (map f [0 ..< ?n])"
    using buildGrowthSchedule_Fin[of "applyScenario a Base" "0.025" "0.035" "0.040" "0.030"]
    unfolding n f_def by (simp add: applyScenario_def)
  have len: "length (map f [0 ..< ?n]) = ?n" by simp
  have bound: "0.025 \<le> f i \<and> f i \<le> 0.04" if "i < ?n" for i
  proof (cases "3 \<le> i")
    case True
    define t where "t = (real i - 2) / max (real ?n - 3) 1"
    have t: "0 \<le> t" "t \<le> 1" unfolding t_def using fade_bounds[OF True that] by simp_all
    have "f i = 0.040 + t * (0.030 - 0.040)" using True by (simp add: t_def f_def)
    then show ?thesis using t by simp
  next
    case False
    then have "i = 0 \<or> i = 1 \<or> i = 2" by linarith
    then show ?thesis by (auto simp: f_def)
  qed
  have "\<forall>i < length (map f [0 ..< ?n]). 0.025 \<le> map f [0 ..< ?n] ! i
          \<and> map f [0 ..< ?n] ! i \<le> 0.04"
    using bound by simp
  with sched len show ?thesis by blast
qed

lemma growth_prod_mono:
  fixes gs hs :: "real list"
  assumes "length gs = length hs"
    and "\<forall>i < length gs. - 1 < gs ! i \<and> gs ! i < hs ! i"
    and "k < length gs"
  shows "0 < foldl (\<lambda>acc g. acc * (1 + g)) 1 (take (k + 1) gs) \<and>
         foldl (\<lambda>acc g. acc * (1 + g)) 1 (take (k + 1) gs)
           < foldl (\<lambda>acc g. acc * (1 + g)) 1 (take (k + 1) hs)"
  using assms(3)
proof (induction k)
  case 0
  then have "gs \<noteq> []" "hs \<noteq> []" using assms(1) by auto
  then have t: "take (0 + 1) gs = [gs ! 0]" "take (0 + 1) hs = [hs ! 0]"
    by (simp_all add: take_Suc_conv_app_nth)
  have "- 1 < gs ! 0 \<and> gs ! 0 < hs ! 0" using assms(2) 0 by blast
  then show ?case unfolding t by simp
next
  case (Suc k)
  then have k: "k < length gs" "Suc k < length gs" "Suc k < length hs"
    using assms(1) by simp_all
  let ?Pg = "foldl (\<lambda>acc g. acc * (1 + g)) 1 (take (k + 1) gs)"
  let ?Ph = "foldl (\<lambda>acc g. acc * (1 + g)) 1 (take (k + 1) hs)"
  have IH: "0 < ?Pg" "?Pg < ?Ph" using Suc.IH[OF k(1)] by simp_all
  have t: "take (Suc k + 1) gs = take (k + 1) gs @ [gs ! Suc k]"
    "take (Suc k + 1) hs = take (k + 1) hs @ [hs ! Suc k]"
    using k by (simp_all add: take_Suc_conv_app_nth)
  have g: "0 < 1 + gs ! Suc k" "1 + gs ! Suc k < 1 + hs ! Suc k"
    using assms(2) k(2) by force+
  have "?Pg * (1 + gs ! Suc k) < ?Ph * (1 + hs ! Suc k)"
    using IH g by (intro mult_strict_mono) simp_all
  moreover have "0 < ?Pg * (1 + gs ! Suc k)" using IH g by simp
  ultimately show ?case unfolding t by simp
qed

lemma discount_power_mono:
  fixes ws wb :: real
  assumes "0 < ws" "ws < wb"
  shows "0 < 1 / (1 + wb) ^ k" "1 / (1 + wb) ^ k \<le> 1 / (1 + ws) ^ k"
    and "0 < k \<Longrightarrow> 1 / (1 + wb) ^ k < 1 / (1 + ws) ^ k"
proof -
  have p: "0 < (1 + ws) ^ k" "0 < (1 + wb) ^ k" using assms by simp_all
  show "0 < 1 / (1 + wb) ^ k" using p by simp
  have "(1 + ws) ^ k \<le> (1 + wb) ^ k" using assms by (intro power_mono) simp_all
  then show "1 / (1 + wb) ^ k \<le> 1 / (1 + ws) ^ k" using p by (simp add: frac_le)
  assume "0 < k"
  then have "(1 + ws) ^ k < (1 + wb) ^ k" using assms by (intro power_strict_mono) simp_all
  then show "1 / (1 + wb) ^ k < 1 / (1 + ws) ^ k" using p by (simp add: frac_less2)
qed

lemma ev_strict_mono:
  fixes fb fs :: "nat \<Rightarrow> real"
  assumes n: "0 < n"
    and f: "\<forall>i < n. 0 < fb i \<and> fb i < fs i"
    and w: "0 < ws" "ws < wb"
    and m: "0 \<le> mb" "mb \<le> ms"
  shows "(\<Sum>i<n. fb i * (1 / (1 + wb) ^ (i + 1))) + fb (n - 1) * mb * (1 / (1 + wb) ^ n)
       < (\<Sum>i<n. fs i * (1 / (1 + ws) ^ (i + 1))) + fs (n - 1) * ms * (1 / (1 + ws) ^ n)"
proof -
  have step: "fb i * (1 / (1 + wb) ^ (i + 1)) < fs i * (1 / (1 + ws) ^ (i + 1))"
    if "i \<in> {..<n}" for i
  proof -
    have fi: "0 < fb i" "fb i < fs i" using f that by simp_all
    have d: "0 < 1 / (1 + wb) ^ (i + 1)" "1 / (1 + wb) ^ (i + 1) < 1 / (1 + ws) ^ (i + 1)"
      using discount_power_mono[OF w, of "i + 1"] by simp_all
    show ?thesis using fi d by (intro mult_strict_mono) simp_all
  qed
  have sum: "(\<Sum>i<n. fb i * (1 / (1 + wb) ^ (i + 1))) < (\<Sum>i<n. fs i * (1 / (1 + ws) ^ (i + 1)))"
    using n step by (intro sum_strict_mono) auto
  have last: "0 < fb (n - 1)" "fb (n - 1) < fs (n - 1)" using f n by simp_all
  have a: "fb (n - 1) * mb \<le> fs (n - 1) * ms"
    using last m by (intro mult_mono) simp_all
  have b0: "0 \<le> fs (n - 1) * ms" using last m by simp
  have d: "1 / (1 + wb) ^ n \<le> 1 / (1 + ws) ^ n" by (rule discount_power_mono(2)[OF w])
  have d0: "0 \<le> 1 / (1 + wb) ^ n" using discount_power_mono(1)[OF w, of n] by simp
  have "fb (n - 1) * mb * (1 / (1 + wb) ^ n) \<le> fs (n - 1) * ms * (1 / (1 + ws) ^ n)"
    by (rule mult_mono[OF a d b0 d0])
  with sum show ?thesis by simp
qed

lemma computeAll_fcff:
  assumes "a_proj_years_n a \<noteq> 0"
  shows "\<exists>c. computeAll B comps segs acqs hist a = Inr c \<and>
     c_proforma c = buildProforma B (buildGrowthSchedule a) a \<and>
     c_pps_fcff c =
       dcf_pps (dcfPrice (map r_fcff (buildProforma B (buildGrowthSchedule a) a))
         (if a_wacc a > a_terminal_g a
          then (at_num (map r_fcff (buildProforma B (buildGrowthSchedule a) a))
                  (int (length (map r_fcff (buildProforma B (buildGrowthSchedule a) a))) - 1)
                * (1 + a_terminal_g a)) / (a_wacc a - a_terminal_g a)
          else r_ebitda (buildProforma B (buildGrowthSchedule a) a
                  ! (length (buildProforma B (buildGrowthSchedule a) a) - 1)) * a_exit_mult a)
         (a_wacc a) (b_net_debt B) (b_shares_diluted B))"
  unfolding computeAll_def Let_def using assms
  by (simp add: computeRI_case split del: if_split cong del: if_weak_cong)

lemma at_num_nth: "i < length xs \<Longrightarrow> at_num xs (int i) = xs ! i"
  by (simp add: at_num_def)

lemma at_num_last_Fin:
  assumes "cs \<noteq> []"
  shows "at_num (map Fin cs) (int (length (map Fin cs)) - 1) = Fin (cs ! (length cs - 1))"
proof -
  have one: "1 \<le> length cs" using assms by (cases cs) simp_all
  have e: "int (length (map Fin cs)) - 1 = int (length cs - 1)"
    unfolding length_map using of_nat_diff[OF one, where ?'a = int] by simp
  have l: "length cs - 1 < length (map Fin cs)" using assms by simp
  have "at_num (map Fin cs) (int (length cs - 1)) = map Fin cs ! (length cs - 1)"
    by (rule at_num_nth[OF l])
  also have "\<dots> = Fin (cs ! (length cs - 1))" using l by simp
  finally show ?thesis by (simp only: e)
qed

lemma fcff_price_Fin:
  assumes B: "b_revenue B = Fin R" "b_cogs B = Fin C" "b_sga B = Fin S" "b_da_total B = Fin D"
      "b_tax_rate B = Fin T" "b_net_debt B = Fin ND" "b_shares_diluted B = Fin Sh"
    and a: "a_capex_pct a = Fin c" "a_wacc a = Fin w" "a_terminal_g a = Fin tg"
    and nz: "R \<noteq> 0" "Sh \<noteq> 0" "tg < w" "1 + w \<noteq> 0"
    and gs: "buildGrowthSchedule a = map Fin gs" "gs \<noteq> []"
    and F: "F = (\<lambda>i. R * foldl (\<lambda>acc g. acc * (1 + g)) 1 (take (i + 1) gs)
                    * ((1 - C / R - S / R) * (1 - T) + D / R - c))"
  shows "\<exists>x. computeAll B comps segs acqs hist a = Inr x \<and>
     c_proforma x = buildProforma B (buildGrowthSchedule a) a \<and>
     map r_fcff (c_proforma x) = map (\<lambda>i. Fin (F i)) [0 ..< length gs] \<and>
     c_pps_fcff x =
       Fin (((\<Sum>i<length gs. F i * (1 / (1 + w) ^ (i + 1)))
             + F (length gs - 1) * ((1 + tg) / (w - tg)) * (1 / (1 + w) ^ length gs) - ND) / Sh)"
proof -
  let ?n = "length gs"
  let ?P = "buildProforma B (buildGrowthSchedule a) a"
  have "a_proj_years_n a = length gs"
    using length_buildGrowthSchedule[of a] unfolding gs(1) by simp
  then have n: "a_proj_years_n a \<noteq> 0" using gs(2) by simp
  define cs where "cs = map F [0 ..< ?n]"
  have fc: "map r_fcff ?P = map Fin cs"
    unfolding gs(1) cs_def F map_map comp_def
    by (rule buildProforma_fcff_Fin[OF B(1-5) a(1) nz(1)])
  have len: "length cs = ?n" by (simp add: cs_def)
  have ne: "cs \<noteq> []" using gs(2) by (simp add: cs_def)
  have nth: "cs ! i = F i" if "i < ?n" for i using that by (simp add: cs_def)
  have l: "?n - 1 < ?n" using gs(2) by (cases gs) simp_all
  have lastc: "at_num (map Fin cs) (int (length (map Fin cs)) - 1) = Fin (F (?n - 1))"
    unfolding at_num_last_Fin[OF ne] len nth[OF l] by (rule refl)
  have wt: "w - tg \<noteq> 0" using nz(3) by simp
  have cond: "a_wacc a > a_terminal_g a" unfolding a using nz(3) by simp
  have tv: "(if a_wacc a > a_terminal_g a
          then (at_num (map Fin cs) (int (length (map Fin cs)) - 1) * (1 + a_terminal_g a))
                 / (a_wacc a - a_terminal_g a)
          else r_ebitda (?P ! (length ?P - 1)) * a_exit_mult a)
        = Fin (F (?n - 1) * (1 + tg) / (w - tg))"
    unfolding lastc a using wt nz(3) by simp
  have pv: "(\<Sum>i<length cs. cs ! i * (1 / (1 + w) ^ (i + 1)))
        = (\<Sum>i<?n. F i * (1 / (1 + w) ^ (i + 1)))"
    unfolding len by (rule sum.cong) (simp_all add: nth)
  have ptv: "F (?n - 1) * ((1 + tg) / (w - tg)) * (1 / (1 + w) ^ ?n)
        = F (?n - 1) * (1 + tg) / (w - tg) * (1 / (1 + w) ^ length cs)"
    unfolding len by simp
  have price: "dcf_pps (dcfPrice (map Fin cs) (Fin (F (?n - 1) * (1 + tg) / (w - tg))) (Fin w)
                  (Fin ND) (Fin Sh))
       = Fin (((\<Sum>i<?n. F i * (1 / (1 + w) ^ (i + 1)))
             + F (?n - 1) * ((1 + tg) / (w - tg)) * (1 / (1 + w) ^ ?n) - ND) / Sh)"
    unfolding dcfPrice_Fin[OF ne nz(4) pv[symmetric] ptv] using nz(2) by simp
  obtain x where x: "computeAll B comps segs acqs hist a = Inr x"
      "c_proforma x = ?P"
      "c_pps_fcff x =
       dcf_pps (dcfPrice (map r_fcff ?P)
         (if a_wacc a > a_terminal_g a
          then (at_num (map r_fcff ?P) (int (length (map r_fcff ?P)) - 1)
                * (1 + a_terminal_g a)) / (a_wacc a - a_terminal_g a)
          else r_ebitda (?P ! (length ?P - 1)) * a_exit_mult a)
         (a_wacc a) (b_net_debt B) (b_shares_diluted B))"
    using computeAll_fcff[OF n] by blast
  have "c_pps_fcff x = Fin (((\<Sum>i<?n. F i * (1 / (1 + w) ^ (i + 1)))
             + F (?n - 1) * ((1 + tg) / (w - tg)) * (1 / (1 + w) ^ ?n) - ND) / Sh)"
    unfolding x(3) fc tv unfolding a(2) B(6,7) by (rule price)
  moreover have "map r_fcff (c_proforma x) = map (\<lambda>i. Fin (F i)) [0 ..< ?n]"
    unfolding x(2) fc cs_def by simp
  ultimately show ?thesis using x(1,2) by blast
qed

lemma preset_fields:
  "a_capex_pct (applyScenario a Bear) = Fin 0.03" "a_wacc (applyScenario a Bear) = Fin 0.1"
  "a_terminal_g (applyScenario a Bear) = Fin 0.02"
  "a_capex_pct (applyScenario a Base) = Fin 0.025" "a_wacc (applyScenario a Base) = Fin 0.085"
  "a_terminal_g (applyScenario a Base) = Fin 0.025"
  "a_proj_years_n (applyScenario a s) = a_proj_years_n a"
  by (simp_all add: applyScenario_def)

lemma growth_Bear_default:
  "buildGrowthSchedule (applyScenario DEFAULT_ASSUMPTIONS Bear)
     = [Fin 0.005, Fin 0.01, Fin 0.02, Fin 0.02, Fin 0.02]"
  by (simp add: buildGrowthSchedule_def DEFAULT_ASSUMPTIONS_def applyScenario_def upt_rec Let_def)

lemma growth_Base_default:
  "buildGrowthSchedule (applyScenario DEFAULT_ASSUMPTIONS Base)
     = [Fin 0.025, Fin 0.035, Fin 0.04, Fin 0.035, Fin 0.03]"
  by (simp add: buildGrowthSchedule_def DEFAULT_ASSUMPTIONS_def applyScenario_def upt_rec Let_def)

lemma example_fcff_positive:
  "list_all (\<lambda>r. 0 < r_fcff r)
     (buildProforma example_baseline (buildGrowthSchedule (applyScenario DEFAULT_ASSUMPTIONS Bear))
        (applyScenario DEFAULT_ASSUMPTIONS Bear))"
  "list_all (\<lambda>r. 0 < r_fcff r)
     (buildProforma example_baseline (buildGrowthSchedule (applyScenario DEFAULT_ASSUMPTIONS Base))
        (applyScenario DEFAULT_ASSUMPTIONS Base))"
  unfolding growth_Bear_default growth_Base_default
  by (simp_all add: buildProforma_def example_baseline_def applyScenario_def
        DEFAULT_ASSUMPTIONS_def upt_rec Let_def)

lemma unlisted_fcff_positive:
  "list_all (\<lambda>r. 0 < r_fcff r)
     (buildProforma unlisted_baseline (buildGrowthSchedule (applyScenario DEFAULT_ASSUMPTIONS Bear))
        (applyScenario DEFAULT_ASSUMPTIONS Bear))"
  "list_all (\<lambda>r. 0 < r_fcff r)
     (buildProforma unlisted_baseline (buildGrowthSchedule (applyScenario DEFAULT_ASSUMPTIONS Base))
        (applyScenario DEFAULT_ASSUMPTIONS Base))"
  unfolding growth_Bear_default growth_Base_default
  by (simp_all add: buildProforma_def unlisted_baseline_def example_baseline_def applyScenario_def
        DEFAULT_ASSUMPTIONS_def upt_rec Let_def)



text \<open>
  The claim as stated fails for a baseline with a share count of zero: the free cash
  flows are positive under both presets, and the shares guard makes the price 0 under
  both, so the Bear price is not strictly lower.
\<close>

lemma dcfPrice_zero_shares: "dcf_pps (dcfPrice fcfs tv r nd (Fin 0)) = Fin 0"
  by (simp add: dcfPrice_def Let_def)

lemma computeAll_zero_shares:
  assumes "a_proj_years_n a \<noteq> 0" "b_shares_diluted B = Fin 0"
  shows "map_sum id c_pps_fcff (computeAll B comps segs acqs hist a) = Inr (Fin 0)"
proof -
  obtain c where "computeAll B comps segs acqs hist a = Inr c"
    and "c_pps_fcff c =
       dcf_pps (dcfPrice (map r_fcff (buildProforma B (buildGrowthSchedule a) a))
         (if a_wacc a > a_terminal_g a
          then (at_num (map r_fcff (buildProforma B (buildGrowthSchedule a) a))
                  (int (length (map r_fcff (buildProforma B (buildGrowthSchedule a) a))) - 1)
                * (1 + a_terminal_g a)) / (a_wacc a - a_terminal_g a)
          else r_ebitda (buildProforma B (buildGrowthSchedule a) a
                  ! (length (buildProforma B (buildGrowthSchedule a) a) - 1)) * a_exit_mult a)
         (a_wacc a) (b_net_debt B) (b_shares_diluted B))"
    using computeAll_fcff[OF assms(1)] by blast
  then show ?thesis unfolding assms(2) dcfPrice_zero_shares by simp
qed


end
